(* ===== verification/Spore_Prelude.thy ===== *)
theory Spore_Prelude
  imports Main "HOL-Library.Word"
begin

unbundle bit_operations_syntax

text \<open>
  Shared vocabulary of the development: the fixed-width integers of the C sources, the
  page geometry of \<^verbatim>\<open>kernel/src/include/mm/pmm.h\<close>, the alignment helpers that
  \<^verbatim>\<open>mm/pmm.c\<close>, \<^verbatim>\<open>elf/loader.c\<close> and \<^verbatim>\<open>exec/stack.c\<close> each define, and
  generic facts about words, lists and C strings.
\<close>

type_synonym u8 = "8 word"
type_synonym u16 = "16 word"
type_synonym u32 = "32 word"
type_synonym u64 = "64 word"

named_theorems word_facts "facts that move 64-bit operations to bits or to nat"

subsection \<open>Page geometry and alignment\<close>

definition PAGE_SIZE :: u64 where
  "PAGE_SIZE = 4096"

definition align_down :: "u64 \<Rightarrow> u64 \<Rightarrow> u64" where
  "align_down value align = value AND NOT (align - 1)"

definition align_up :: "u64 \<Rightarrow> u64 \<Rightarrow> u64" where
  "align_up value align = (value + align - 1) AND NOT (align - 1)"

definition div_round_up :: "nat \<Rightarrow> nat \<Rightarrow> nat" where
  "div_round_up value divisor = (value + divisor - 1) div divisor"

subsection \<open>Bits of 64-bit words\<close>

text \<open>The GCC builtin \<^verbatim>\<open>__builtin_ctzll\<close>: the index of the lowest set bit.\<close>

definition ctz64 :: "u64 \<Rightarrow> nat" where
  "ctz64 w = length (takeWhile (\<lambda>i. \<not> bit w i) [0..<64])"

lemma and_bit_mask_zero [word_facts]:
  assumes "n < 64"
  shows "(w AND push_bit n (1 :: u64) = 0) = (\<not> bit w n)"
proof
  assume h: "w AND push_bit n 1 = 0"
  have "bit (w AND push_bit n 1) n = bit (0 :: u64) n" using h by simp
  then show "\<not> bit w n" using assms by (simp add: bit_simps)
next
  assume "\<not> bit w n"
  then show "w AND push_bit n 1 = 0"
    by (intro bit_word_eqI) (auto simp: bit_simps)
qed

lemma and_exp_zero [word_facts]:
  "n < 64 \<Longrightarrow> (w AND (2 ^ n :: u64) = 0) = (\<not> bit w n)"
  using and_bit_mask_zero[of n w] by (simp add: push_bit_of_1)

lemma ctz64_props:
  assumes "w \<noteq> 0"
  shows "ctz64 w < 64" and "bit w (ctz64 w)" and "i < ctz64 w \<Longrightarrow> \<not> bit w i"
proof -
  let ?t = "takeWhile (\<lambda>i. \<not> bit w i) [0..<64]"
  from assms obtain n where n: "bit w n"
    using bit_eqI[of w 0] by auto
  then have "n < 64" using bit_imp_le_length by fastforce
  then have ne: "?t \<noteq> [0..<64]"
    using n by (metis atLeastLessThan_iff set_upt takeWhile_eq_all_conv zero_le)
  then have len: "length ?t < length [0..<64 :: nat]"
    by (metis length_takeWhile_le le_neq_implies_less takeWhile_eq_take take_all_iff order_refl)
  then show lt: "ctz64 w < 64" by (simp add: ctz64_def)
  have "\<not> \<not> bit w ([0..<64] ! length ?t)"
    by (rule nth_length_takeWhile) (use len in simp)
  then show "bit w (ctz64 w)" using lt by (simp add: ctz64_def)
  assume i: "i < ctz64 w"
  then have "?t ! i = [0..<64] ! i" by (simp add: ctz64_def takeWhile_nth)
  moreover have "[0..<64] ! i = i" using i lt by simp
  moreover have "?t ! i \<in> set ?t" using i by (simp add: ctz64_def)
  ultimately show "\<not> bit w i" by (metis set_takeWhileD)
qed

lemma unat_lt_64: "unat (x :: u64) < 2 ^ 64"
  using unsigned_less[of x] by simp

subsection \<open>Page alignment on the numbers the words denote\<close>

lemma page_mask [word_facts]: "(4095 :: u64) = mask 12"
  by (simp add: mask_eq_exp_minus_1)

lemma align_down_page: "align_down x PAGE_SIZE = push_bit 12 (drop_bit 12 x)"
  by (rule bit_word_eqI)
    (auto simp: align_down_def PAGE_SIZE_def page_mask bit_simps)

lemma unat_align_down_page [word_facts]:
  "unat (align_down x PAGE_SIZE) = 4096 * (unat x div 4096)"
proof -
  have "unat x div 4096 * 4096 \<le> unat x" by simp
  also have "unat x < 2 ^ 64" using unsigned_less [of x] by simp
  finally have "unat x div 4096 * 4096 < 2 ^ 64" .
  then show ?thesis
    by (simp add: align_down_page push_bit_eq_mult unat_word_ariths unat_drop_bit_eq
        drop_bit_eq_div mult.commute)
qed

lemma unat_align_up_page:
  assumes "unat x + 4095 < 2 ^ 64"
  shows "unat (align_up x PAGE_SIZE) = 4096 * ((unat x + 4095) div 4096)"
proof -
  have "align_up x PAGE_SIZE = align_down (x + 4095) PAGE_SIZE"
    by (simp add: align_up_def align_down_def PAGE_SIZE_def algebra_simps)
  moreover have "unat (x + 4095) = unat x + 4095"
    using assms by (simp add: unat_word_ariths)
  ultimately show ?thesis by (simp add: unat_align_down_page)
qed

lemma align_up_page_mod: "unat (align_up x PAGE_SIZE) mod 4096 = 0"
proof -
  have "align_up x PAGE_SIZE = align_down (x + 4095) PAGE_SIZE"
    by (simp add: align_up_def align_down_def PAGE_SIZE_def algebra_simps)
  then show ?thesis by (simp add: unat_align_down_page)
qed

lemma unat_page_addr [word_facts]:
  "p < 2 ^ 52 \<Longrightarrow> unat (of_nat p * PAGE_SIZE :: u64) = 4096 * p"
  by (simp add: PAGE_SIZE_def unat_word_ariths unat_of_nat)

subsection \<open>Searching a range of natural numbers\<close>

lemma find_upt_Some:
  "find P [a..<b] = Some p \<longleftrightarrow> a \<le> p \<and> p < b \<and> P p \<and> (\<forall>q. a \<le> q \<and> q < p \<longrightarrow> \<not> P q)"
proof (induction "b - a" arbitrary: a)
  case 0
  then show ?case by auto
next
  case (Suc n)
  then have ab: "a < b" and IH: "find P [Suc a..<b] = Some p \<longleftrightarrow>
      Suc a \<le> p \<and> p < b \<and> P p \<and> (\<forall>q. Suc a \<le> q \<and> q < p \<longrightarrow> \<not> P q)"
    by auto
  show ?case
  proof (cases "P a")
    case True
    with ab show ?thesis by (auto simp: upt_rec[of a] not_less)
  next
    case False
    with ab IH show ?thesis
      by (auto simp: upt_rec[of a]) (metis Suc_leI le_eq_less_or_eq)+
  qed
qed

lemma find_upt_None: "find P [a..<b] = None \<longleftrightarrow> (\<forall>q. a \<le> q \<and> q < b \<longrightarrow> \<not> P q)"
  by (auto simp: find_None_iff)

lemma div_mod_eq_iff: "(p div 64 = q div 64 \<and> p mod 64 = q mod 64) \<longleftrightarrow> p = (q :: nat)"
  by (metis div_mult_mod_eq)

lemma length_filter_update:
  "i < length xs \<Longrightarrow>
   length (filter P (xs[i := x])) + (if P (xs ! i) then 1 else 0) =
   length (filter P xs) + (if P x then 1 else 0)"
proof (induction xs arbitrary: i)
  case (Cons y ys)
  then show ?case by (cases i) auto
qed simp


lemma sorted_wrt_sym_nth:
  assumes "\<And>x y. R x y \<Longrightarrow> R y x"
  shows "sorted_wrt R xs \<longleftrightarrow> (\<forall>i < length xs. \<forall>j < length xs. i \<noteq> j \<longrightarrow> R (xs ! i) (xs ! j))"
proof
  assume l: "sorted_wrt R xs"
  show "\<forall>i < length xs. \<forall>j < length xs. i \<noteq> j \<longrightarrow> R (xs ! i) (xs ! j)"
  proof (intro allI impI)
    fix i j assume "i < length xs" "j < length xs" "i \<noteq> j"
    then show "R (xs ! i) (xs ! j)"
      using l assms[of "xs ! j" "xs ! i"] by (cases "i < j") (auto simp: sorted_wrt_iff_nth_less)
  qed
qed (auto simp: sorted_wrt_iff_nth_less)

end
