(* ===== verification/Pmm.thy ===== *)
theory Pmm
  imports Spore_Prelude
begin

text \<open>
  The physical page allocator, \<^verbatim>\<open>kernel/src/mm/pmm.c\<close>, in its freestanding build:
  the file's static variables as the record \<open>pmm\<close>, one definition per function.
  Page numbers and event counters are natural numbers: a page number is a 64-bit address
  divided by 4096, hence below \<open>2 ^ 52\<close>, so that no arithmetic on page numbers wraps.
  Addresses, bitmap words and reference counts keep their widths. A table the C code has
  not allocated (a NULL pointer) is the empty list; an allocated one is never empty.
  The metadata region holds the two tables; the model keeps them as lists, and
  \<open>pmm_init\<close> marks their pages as used, so that the allocator never hands them out.
\<close>

subsection \<open>State\<close>

record spore_memmap_entry =
  me_base :: u64
  me_length :: u64
  me_type :: u32

definition SPORE_MEMMAP_USABLE :: u32 where
  "SPORE_MEMMAP_USABLE = 1"

record pmm_stats =
  alloc_attempts :: nat
  alloc_successes :: nat
  alloc_failures :: nat
  bitmap_words_scanned :: nat

record pmm =
  hhdm_base :: u64
  bitmap :: "u64 list"
  refcounts :: "u16 list"
  tracked_page_count :: nat
  bitmap_word_count :: nat
  total_page_count :: nat
  free_page_count :: nat
  next_free_page :: nat
  metadata_start_page :: nat
  metadata_page_count :: nat
  stats :: pmm_stats

text \<open>Physical memory seen through the linear map: the byte at a physical address.\<close>

record machine =
  mpmm :: pmm
  phys :: "u64 \<Rightarrow> u8"

abbreviation first_page :: nat where
  "first_page \<equiv> 256"  \<comment> \<open>\<^verbatim>\<open>0x100000 / PAGE_SIZE\<close>\<close>

abbreviation page_of :: "u64 \<Rightarrow> nat" where
  "page_of pa \<equiv> unat pa div 4096"

abbreviation page_addr :: "nat \<Rightarrow> u64" where
  "page_addr p \<equiv> of_nat p * PAGE_SIZE"

subsection \<open>Operations\<close>

definition valid_page :: "pmm \<Rightarrow> nat \<Rightarrow> bool" where
  "valid_page s page \<longleftrightarrow> bitmap s \<noteq> [] \<and> refcounts s \<noteq> [] \<and> page < tracked_page_count s"

definition set_used :: "nat \<Rightarrow> pmm \<Rightarrow> pmm" where
  "set_used page s =
     (if \<not> valid_page s page then s
      else
        let mask = push_bit (page mod 64) (1 :: u64);
            word = bitmap s ! (page div 64);
            s1 = (if word AND mask = 0
                  then s\<lparr>bitmap := (bitmap s)[page div 64 := word OR mask],
                         free_page_count :=
                           (if free_page_count s > 0 then free_page_count s - 1
                            else free_page_count s)\<rparr>
                  else s)
        in if refcounts s1 ! page = 0
           then s1\<lparr>refcounts := (refcounts s1)[page := 1]\<rparr> else s1)"

definition set_free :: "nat \<Rightarrow> pmm \<Rightarrow> pmm" where
  "set_free page s =
     (if \<not> valid_page s page then s
      else
        let mask = push_bit (page mod 64) (1 :: u64);
            word = bitmap s ! (page div 64);
            s1 = (if word AND mask \<noteq> 0
                  then s\<lparr>bitmap := (bitmap s)[page div 64 := word AND NOT mask],
                         free_page_count := free_page_count s + 1\<rparr>
                  else s)
        in s1\<lparr>refcounts := (refcounts s1)[page := 0]\<rparr>)"

text \<open>One iteration's view of a bitmap word: the free bits inside the requested range.\<close>

definition free_bits_in :: "u64 \<Rightarrow> nat \<Rightarrow> nat \<Rightarrow> nat \<Rightarrow> nat \<Rightarrow> nat \<Rightarrow> u64" where
  "free_bits_in word word_index first_word last_word start_page end_page =
     (let free_bits = NOT word;
          below = start_page mod 64;
          free_bits = (if word_index = first_word \<and> below \<noteq> 0
                       then free_bits AND push_bit below (- 1) else free_bits);
          above = end_page mod 64
      in if word_index = last_word \<and> above \<noteq> 0
         then free_bits AND (push_bit above 1 - 1) else free_bits)"

fun scan_words :: "nat list \<Rightarrow> nat \<Rightarrow> nat \<Rightarrow> nat \<Rightarrow> nat \<Rightarrow> pmm \<Rightarrow> pmm \<times> u64" where
  "scan_words [] first_word last_word start_page end_page s = (s, 0)"
| "scan_words (word_index # rest) first_word last_word start_page end_page s =
     (let s = s\<lparr>stats := (stats s)\<lparr>bitmap_words_scanned := bitmap_words_scanned (stats s) + 1\<rparr>\<rparr>;
          free_bits = free_bits_in (bitmap s ! word_index) word_index first_word last_word
                        start_page end_page
      in if free_bits = 0
         then scan_words rest first_word last_word start_page end_page s
         else let page = word_index * 64 + ctz64 free_bits;
                  s = set_used page s
              in (s\<lparr>next_free_page := page + 1\<rparr>, page_addr page))"

definition alloc_page_in_range :: "nat \<Rightarrow> nat \<Rightarrow> pmm \<Rightarrow> pmm \<times> u64" where
  "alloc_page_in_range start_page end_page s =
     (let end_page = (if end_page > tracked_page_count s then tracked_page_count s else end_page)
      in if start_page \<ge> end_page then (s, 0)
         else let first_word = start_page div 64; last_word = (end_page - 1) div 64
              in scan_words [first_word..<Suc last_word] first_word last_word start_page end_page s)"

definition entry_start :: "spore_memmap_entry \<Rightarrow> u64" where
  "entry_start e = align_up (me_base e) PAGE_SIZE"

definition entry_end :: "spore_memmap_entry \<Rightarrow> u64" where
  "entry_end e = align_down (me_base e + me_length e) PAGE_SIZE"

fun highest_usable_end :: "spore_memmap_entry list \<Rightarrow> u64 \<Rightarrow> u64" where
  "highest_usable_end [] highest = highest"
| "highest_usable_end (e # memmap) highest =
     (if me_type e \<noteq> SPORE_MEMMAP_USABLE then highest_usable_end memmap highest
      else if entry_end e > entry_start e \<and> entry_end e > highest
           then highest_usable_end memmap (entry_end e)
           else highest_usable_end memmap highest)"

fun find_metadata_region :: "spore_memmap_entry list \<Rightarrow> u64 \<Rightarrow> u64 option" where
  "find_metadata_region [] bytes = None"
| "find_metadata_region (e # memmap) bytes =
     (if me_type e \<noteq> SPORE_MEMMAP_USABLE then find_metadata_region memmap bytes
      else let start = (if entry_start e < 0x100000 then 0x100000 else entry_start e)
           in if entry_end e > start \<and> entry_end e - start \<ge> bytes then Some start
              else find_metadata_region memmap bytes)"

text \<open>The loop over the pages of one usable entry, then the loop over the map.\<close>

definition free_entry_pages :: "spore_memmap_entry \<Rightarrow> pmm \<Rightarrow> pmm" where
  "free_entry_pages e s =
     fold (\<lambda>page s. set_free page (s\<lparr>total_page_count := total_page_count s + 1\<rparr>))
       [page_of (entry_start e)..<page_of (entry_end e)] s"

fun free_usable :: "spore_memmap_entry list \<Rightarrow> pmm \<Rightarrow> pmm" where
  "free_usable [] s = s"
| "free_usable (e # memmap) s =
     (if me_type e \<noteq> SPORE_MEMMAP_USABLE then free_usable memmap s
      else free_usable memmap (free_entry_pages e s))"

definition pmm_init :: "u64 \<Rightarrow> spore_memmap_entry list \<Rightarrow> pmm" where
  "pmm_init hhdm_offset memmap =
     (let tracked = page_of (highest_usable_end memmap 0);
          words = div_round_up tracked 64;
          s0 = \<lparr>hhdm_base = hhdm_offset, bitmap = [], refcounts = [],
                tracked_page_count = tracked, bitmap_word_count = words,
                total_page_count = 0, free_page_count = 0, next_free_page = first_page,
                metadata_start_page = 0, metadata_page_count = 0,
                stats = \<lparr>alloc_attempts = 0, alloc_successes = 0, alloc_failures = 0,
                         bitmap_words_scanned = 0\<rparr>\<rparr>
      in if tracked = 0 \<or> words = 0 then s0
         else
           let bitmap_bytes = words * 8;
               refcount_bytes = tracked * 2;
               metadata_bytes = align_up (of_nat (bitmap_bytes + refcount_bytes)) PAGE_SIZE
           in case find_metadata_region memmap metadata_bytes of
                None \<Rightarrow> s0\<lparr>tracked_page_count := 0, bitmap_word_count := 0\<rparr>
              | Some metadata_pa \<Rightarrow>
                  let s1 = s0\<lparr>metadata_start_page := page_of metadata_pa,
                              metadata_page_count := page_of metadata_bytes,
                              bitmap := replicate words (- 1),
                              refcounts := replicate tracked 0\<rparr>;
                      s2 = free_usable memmap s1;
                      s3 = fold set_used [0..<first_page] s2
                  in fold set_used
                       [metadata_start_page s3..<metadata_start_page s3 + metadata_page_count s3] s3)"

definition pmm_alloc_page :: "pmm \<Rightarrow> pmm \<times> u64" where
  "pmm_alloc_page s =
     (let s = s\<lparr>stats := (stats s)\<lparr>alloc_attempts := alloc_attempts (stats s) + 1\<rparr>\<rparr>;
          s = (if next_free_page s < first_page \<or> next_free_page s \<ge> tracked_page_count s
               then s\<lparr>next_free_page := first_page\<rparr> else s);
          (s, pa) = alloc_page_in_range (next_free_page s) (tracked_page_count s) s;
          (s, pa) = (if pa = 0 then alloc_page_in_range first_page (next_free_page s) s else (s, pa))
      in if pa = 0
         then (s\<lparr>stats := (stats s)\<lparr>alloc_failures := alloc_failures (stats s) + 1\<rparr>\<rparr>, 0)
         else (s\<lparr>stats := (stats s)\<lparr>alloc_successes := alloc_successes (stats s) + 1\<rparr>\<rparr>, pa))"

text \<open>\<^verbatim>\<open>kmemset(hhdm + pa, 0, PAGE_SIZE)\<close> on the linear map.\<close>

definition zero_page :: "u64 \<Rightarrow> (u64 \<Rightarrow> u8) \<Rightarrow> u64 \<Rightarrow> u8" where
  "zero_page pa m a = (if a - pa < PAGE_SIZE then 0 else m a)"

definition pmm_alloc_zero_page :: "machine \<Rightarrow> machine \<times> u64" where
  "pmm_alloc_zero_page m =
     (let (s, pa) = pmm_alloc_page (mpmm m); m = m\<lparr>mpmm := s\<rparr>
      in if pa \<noteq> 0 then (m\<lparr>phys := zero_page pa (phys m)\<rparr>, pa) else (m, pa))"

fun scan_run :: "nat list \<Rightarrow> nat \<Rightarrow> nat \<Rightarrow> nat \<Rightarrow> pmm \<Rightarrow> pmm \<times> u64" where
  "scan_run [] count run_start run_len s =
     (s\<lparr>stats := (stats s)\<lparr>alloc_failures := alloc_failures (stats s) + 1\<rparr>\<rparr>, 0)"
| "scan_run (page # rest) count run_start run_len s =
     (let s = s\<lparr>stats := (stats s)\<lparr>bitmap_words_scanned := bitmap_words_scanned (stats s) + 1\<rparr>\<rparr>
      in if \<not> valid_page s page \<or> bitmap s ! (page div 64) AND push_bit (page mod 64) 1 \<noteq> 0
         then scan_run rest count run_start 0 s
         else let run_start = (if run_len = 0 then page else run_start);
                  run_len = run_len + 1
              in if run_len < count then scan_run rest count run_start run_len s
                 else let s = fold set_used [run_start..<run_start + count] s
                      in (s\<lparr>next_free_page := run_start + count,
                             stats := (stats s)\<lparr>alloc_successes := alloc_successes (stats s) + 1\<rparr>\<rparr>,
                          page_addr run_start))"

definition pmm_alloc_contiguous_pages :: "nat \<Rightarrow> pmm \<Rightarrow> pmm \<times> u64" where
  "pmm_alloc_contiguous_pages count s =
     (if count = 0 \<or> count > tracked_page_count s then (s, 0)
      else scan_run [first_page..<tracked_page_count s] count 0 0
             (s\<lparr>stats := (stats s)\<lparr>alloc_attempts := alloc_attempts (stats s) + 1\<rparr>\<rparr>))"

definition pmm_phys_to_virt :: "pmm \<Rightarrow> u64 \<Rightarrow> u64" where
  "pmm_phys_to_virt s pa = (if hhdm_base s = 0 then 0 else hhdm_base s + pa)"

definition pmm_free_page :: "u64 \<Rightarrow> pmm \<Rightarrow> pmm" where
  "pmm_free_page pa s =
     (if pa mod PAGE_SIZE \<noteq> 0 then s
      else let page = page_of pa
      in if \<not> valid_page s page then s
         else if refcounts s ! page = 0 then s
         else let s = s\<lparr>refcounts := (refcounts s)[page := refcounts s ! page - 1]\<rparr>
         in if refcounts s ! page = 0
            then let s = set_free page s
                 in if page < next_free_page s then s\<lparr>next_free_page := page\<rparr> else s
            else s)"

definition pmm_share_page :: "u64 \<Rightarrow> pmm \<Rightarrow> pmm \<times> bool" where
  "pmm_share_page pa s =
     (if pa mod PAGE_SIZE \<noteq> 0 then (s, False)
      else let page = page_of pa
      in if \<not> valid_page s page then (s, False)
         else if refcounts s ! page = 0 \<or> refcounts s ! page = 0xffff then (s, False)
         else (s\<lparr>refcounts := (refcounts s)[page := refcounts s ! page + 1]\<rparr>, True))"

definition pmm_refcount :: "pmm \<Rightarrow> u64 \<Rightarrow> u16" where
  "pmm_refcount s pa =
     (if pa mod PAGE_SIZE \<noteq> 0 then 0
      else if \<not> valid_page s (page_of pa) then 0
      else refcounts s ! page_of pa)"

definition pmm_is_last_ref :: "pmm \<Rightarrow> u64 \<Rightarrow> bool" where
  "pmm_is_last_ref s pa \<longleftrightarrow> pmm_refcount s pa = 1"

subsection \<open>Well-formed allocator states\<close>

definition page_used :: "pmm \<Rightarrow> nat \<Rightarrow> bool" where
  "page_used s p \<longleftrightarrow> bit (bitmap s ! (p div 64)) (p mod 64)"

definition pmm_wf :: "pmm \<Rightarrow> bool" where
  "pmm_wf s \<longleftrightarrow>
     length (bitmap s) = div_round_up (tracked_page_count s) 64 \<and>
     length (refcounts s) = tracked_page_count s \<and>
     tracked_page_count s \<le> 2 ^ 52 \<and>
     (\<forall>p < tracked_page_count s. \<not> page_used s p \<longrightarrow> refcounts s ! p = 0) \<and>
     free_page_count s = card {p. p < tracked_page_count s \<and> \<not> page_used s p}"

lemma word_index_in_range: "p < n \<Longrightarrow> p div 64 < div_round_up n 64"
  by (simp add: div_round_up_def)

lemma valid_page_iff: "pmm_wf s \<Longrightarrow> valid_page s p \<longleftrightarrow> p < tracked_page_count s"
  using word_index_in_range[of p "tracked_page_count s"]
  by (auto simp: pmm_wf_def valid_page_def)

lemma bit_update_used:
  assumes "p div 64 < length bm"
  shows "bit ((bm[p div 64 := bm ! (p div 64) OR push_bit (p mod 64) (1::u64)]) ! (q div 64)) (q mod 64)
     \<longleftrightarrow> q = p \<or> bit (bm ! (q div 64)) (q mod 64)"
proof (cases "q div 64 = p div 64")
  case True
  have "q mod 64 < 64" by simp
  with True assms show ?thesis
    using div_mod_eq_iff[of q p] by (auto simp: bit_simps nth_list_update)
next
  case False
  then show ?thesis by (auto simp: nth_list_update)
qed

lemma bit_update_free:
  assumes "p div 64 < length bm"
  shows "bit ((bm[p div 64 := bm ! (p div 64) AND NOT (push_bit (p mod 64) (1::u64))]) ! (q div 64)) (q mod 64)
     \<longleftrightarrow> q \<noteq> p \<and> bit (bm ! (q div 64)) (q mod 64)"
proof (cases "q div 64 = p div 64")
  case True
  have "q mod 64 < 64" by simp
  with True assms show ?thesis
    using div_mod_eq_iff[of q p] by (auto simp: bit_simps nth_list_update)
next
  case False
  then show ?thesis by (auto simp: nth_list_update)
qed

text \<open>What \<open>set_used\<close> and \<open>set_free\<close> leave alone.\<close>

lemma set_used_frame [simp]:
  "tracked_page_count (set_used p s) = tracked_page_count s"
  "length (bitmap (set_used p s)) = length (bitmap s)"
  "length (refcounts (set_used p s)) = length (refcounts s)"
  "next_free_page (set_used p s) = next_free_page s"
  "metadata_start_page (set_used p s) = metadata_start_page s"
  "metadata_page_count (set_used p s) = metadata_page_count s"
  "total_page_count (set_used p s) = total_page_count s"
  "hhdm_base (set_used p s) = hhdm_base s"
  "stats (set_used p s) = stats s"
  by (simp_all add: set_used_def Let_def)

lemma set_free_frame [simp]:
  "tracked_page_count (set_free p s) = tracked_page_count s"
  "length (bitmap (set_free p s)) = length (bitmap s)"
  "length (refcounts (set_free p s)) = length (refcounts s)"
  "next_free_page (set_free p s) = next_free_page s"
  "metadata_start_page (set_free p s) = metadata_start_page s"
  "metadata_page_count (set_free p s) = metadata_page_count s"
  "hhdm_base (set_free p s) = hhdm_base s"
  "stats (set_free p s) = stats s"
  by (simp_all add: set_free_def Let_def)

lemma pmm_wf_index:
  "pmm_wf s \<Longrightarrow> p < tracked_page_count s \<Longrightarrow> p div 64 < length (bitmap s)"
  by (simp add: pmm_wf_def word_index_in_range)

lemma page_used_set_used:
  assumes "pmm_wf s" "p < tracked_page_count s"
  shows "page_used (set_used p s) q \<longleftrightarrow> q = p \<or> page_used s q"
proof -
  have "p mod 64 < 64" by simp
  then show ?thesis
    using bit_update_used[OF pmm_wf_index[OF assms], of q] assms
    by (auto simp: page_used_def set_used_def Let_def valid_page_iff and_exp_zero)
qed

lemma page_used_set_free:
  assumes "pmm_wf s" "p < tracked_page_count s"
  shows "page_used (set_free p s) q \<longleftrightarrow> q \<noteq> p \<and> page_used s q"
proof -
  have "p mod 64 < 64" by simp
  then show ?thesis
    using bit_update_free[OF pmm_wf_index[OF assms], of q] assms
    by (auto simp: page_used_def set_free_def Let_def valid_page_iff and_exp_zero)
qed

lemma refcounts_set_used:
  assumes "pmm_wf s" "p < tracked_page_count s"
  shows "refcounts (set_used p s) =
    (if refcounts s ! p = 0 then (refcounts s)[p := 1] else refcounts s)"
  using assms by (auto simp: set_used_def Let_def valid_page_iff)

lemma refcounts_set_free:
  assumes "pmm_wf s" "p < tracked_page_count s"
  shows "refcounts (set_free p s) = (refcounts s)[p := 0]"
  using assms by (auto simp: set_free_def Let_def valid_page_iff)

lemma free_count_set_used:
  assumes "pmm_wf s" "p < tracked_page_count s"
  shows "free_page_count (set_used p s) =
    (if page_used s p then free_page_count s else free_page_count s - 1)"
  using assms by (auto simp: set_used_def Let_def valid_page_iff page_used_def and_exp_zero)

lemma free_count_set_free:
  assumes "pmm_wf s" "p < tracked_page_count s"
  shows "free_page_count (set_free p s) =
    (if page_used s p then free_page_count s + 1 else free_page_count s)"
  using assms by (auto simp: set_free_def Let_def valid_page_iff page_used_def and_exp_zero)

lemmas set_used_effect = page_used_set_used refcounts_set_used free_count_set_used
lemmas set_free_effect = page_used_set_free refcounts_set_free free_count_set_free

definition free_set :: "pmm \<Rightarrow> nat set" where
  "free_set s = {p. p < tracked_page_count s \<and> \<not> page_used s p}"

lemma finite_free_set [simp]: "finite (free_set s)"
  by (simp add: free_set_def)

lemma free_set_set_used:
  assumes "pmm_wf s" "p < tracked_page_count s"
  shows "free_set (set_used p s) = free_set s - {p}"
  using assms by (auto simp: free_set_def page_used_set_used)

lemma free_set_set_free:
  assumes "pmm_wf s" "p < tracked_page_count s"
  shows "free_set (set_free p s) = insert p (free_set s)"
  using assms by (auto simp: free_set_def page_used_set_free)

lemma pmm_wf_free_count: "pmm_wf s \<Longrightarrow> free_page_count s = card (free_set s)"
  by (simp add: pmm_wf_def free_set_def)

lemma set_used_invalid: "\<not> valid_page s p \<Longrightarrow> set_used p s = s"
  by (simp add: set_used_def)

lemma set_free_invalid: "\<not> valid_page s p \<Longrightarrow> set_free p s = s"
  by (simp add: set_free_def)

lemma set_used_wf:
  assumes wf: "pmm_wf s"
  shows "pmm_wf (set_used p s)"
proof (cases "p < tracked_page_count s")
  case False
  then show ?thesis using wf by (simp add: set_used_invalid valid_page_iff)
next
  case True
  have "free_page_count (set_used p s) = card (free_set (set_used p s))"
    using wf True pmm_wf_free_count[OF wf]
    by (auto simp: free_set_set_used free_count_set_used card_Diff_singleton_if)
      (auto simp: free_set_def True)
  moreover have "\<forall>q < tracked_page_count s.
      \<not> page_used (set_used p s) q \<longrightarrow> refcounts (set_used p s) ! q = 0"
    using wf True by (auto simp: page_used_set_used refcounts_set_used pmm_wf_def)
  ultimately show ?thesis
    using wf by (simp add: pmm_wf_def free_set_def)
qed

lemma set_free_wf:
  assumes wf: "pmm_wf s"
  shows "pmm_wf (set_free p s)"
proof (cases "p < tracked_page_count s")
  case False
  then show ?thesis using wf by (simp add: set_free_invalid valid_page_iff)
next
  case True
  have "free_page_count (set_free p s) = card (free_set (set_free p s))"
    using wf True pmm_wf_free_count[OF wf]
    by (auto simp: free_set_set_free free_count_set_free card_insert_if)
      (auto simp: free_set_def True)
  moreover have "\<forall>q < tracked_page_count s.
      \<not> page_used (set_free p s) q \<longrightarrow> refcounts (set_free p s) ! q = 0"
    using wf True by (auto simp: page_used_set_free refcounts_set_free pmm_wf_def nth_list_update)
  ultimately show ?thesis
    using wf by (simp add: pmm_wf_def free_set_def)
qed

end
