(* ===== verification/Pmm_Alloc.thy ===== *)
theory Pmm_Alloc
  imports Pmm
begin

text \<open>
  Correctness of page allocation: the word-at-a-time scan of
  \<^verbatim>\<open>alloc_page_in_range\<close> finds the same page as a page-by-page first-fit search,
  and the allocator's operations keep the state well formed.
\<close>

subsection \<open>The word scan is a first-fit search\<close>

lemma below_in_word:
  assumes "start div 64 \<le> wi" "i < (64 :: nat)"
  shows "start \<le> wi * 64 + i \<longleftrightarrow> (wi = start div 64 \<longrightarrow> start mod 64 \<le> i)"
proof (cases "wi = start div 64")
  case True
  have "start = start div 64 * 64 + start mod 64" by simp
  then show ?thesis using True by linarith
next
  case False
  then have "start div 64 + 1 \<le> wi" using assms by simp
  moreover have "start < (start div 64 + 1) * 64" by simp
  ultimately have "start < wi * 64" by (meson less_le_trans mult_le_mono1)
  then show ?thesis using False by simp
qed

lemma above_in_word:
  assumes "wi \<le> (end_p - 1) div 64" "i < (64 :: nat)" "0 < end_p"
  shows "wi * 64 + i < end_p \<longleftrightarrow>
    (wi = (end_p - 1) div 64 \<and> end_p mod 64 \<noteq> 0 \<longrightarrow> i < end_p mod 64)"
proof (cases "wi = (end_p - 1) div 64")
  case True
  obtain e where e: "end_p = Suc e" using assms(3) by (cases end_p) auto
  have split: "end_p = end_p div 64 * 64 + end_p mod 64" by simp
  have d: "end_p div 64 = (if end_p mod 64 = 0 then Suc wi else wi)"
    using True by (simp add: e div_Suc)
  show ?thesis
  proof (cases "end_p mod 64 = 0")
    case m: True
    then have "end_p = Suc wi * 64" using split d by simp
    with m assms(2) show ?thesis by simp
  next
    case m: False
    then have "end_p = wi * 64 + end_p mod 64" using split d by simp
    with m True show ?thesis by linarith
  qed
next
  case False
  then have "(wi + 1) * 64 \<le> (end_p - 1) div 64 * 64" using assms by simp
  also have "\<dots> \<le> end_p - 1" by simp
  finally show ?thesis using assms False by simp
qed

lemma bit_free_bits_in:
  assumes "start div 64 \<le> wi" "wi \<le> (end_p - 1) div 64" "i < 64" "0 < end_p"
  shows "bit (free_bits_in w wi (start div 64) ((end_p - 1) div 64) start end_p) i \<longleftrightarrow>
    \<not> bit w i \<and> start \<le> wi * 64 + i \<and> wi * 64 + i < end_p"
proof -
  have below: "bit (push_bit n (- 1 :: u64)) i \<longleftrightarrow> n \<le> i" for n
    using assms(3) by (simp add: bit_simps not_less)
  have above: "bit (push_bit n 1 - 1 :: u64) i \<longleftrightarrow> i < n" if "n < 64" for n
    using that assms(3) by (simp add: push_bit_of_1 flip: mask_eq_exp_minus_1) (simp add: bit_simps)
  have "end_p mod 64 < 64" by simp
  then show ?thesis
    using assms(3) above[of "end_p mod 64"]
    unfolding free_bits_in_def Let_def below_in_word[OF assms(1,3)] above_in_word[OF assms(2-4)]
    by (simp add: bit_and_iff bit_not_iff bit_mask_iff not_less)
qed

definition add_scanned :: "nat \<Rightarrow> pmm \<Rightarrow> pmm" where
  "add_scanned n s =
     s\<lparr>stats := (stats s)\<lparr>bitmap_words_scanned := bitmap_words_scanned (stats s) + n\<rparr>\<rparr>"

lemma add_scanned_simps [simp]:
  "bitmap (add_scanned n s) = bitmap s"
  "refcounts (add_scanned n s) = refcounts s"
  "tracked_page_count (add_scanned n s) = tracked_page_count s"
  "free_page_count (add_scanned n s) = free_page_count s"
  "next_free_page (add_scanned n s) = next_free_page s"
  "page_used (add_scanned n s) = page_used s"
  "valid_page (add_scanned n s) = valid_page s"
  "pmm_wf (add_scanned n s) = pmm_wf s"
  "add_scanned m (add_scanned n s) = add_scanned (n + m) s"
  by (auto simp: add_scanned_def page_used_def fun_eq_iff pmm_wf_def valid_page_def add.assoc)

lemma add_scanned_0 [simp]: "add_scanned 0 s = s"
  by (simp add: add_scanned_def)

lemma add_scanned_1: "s\<lparr>stats := (stats s)\<lparr>bitmap_words_scanned := bitmap_words_scanned (stats s) + 1\<rparr>\<rparr>
    = add_scanned 1 s"
  by (simp add: add_scanned_def)

definition take_page :: "nat \<Rightarrow> pmm \<Rightarrow> pmm" where
  "take_page p s = (set_used p s)\<lparr>next_free_page := p + 1\<rparr>"

text \<open>The reference search: page by page, no word tricks.\<close>

definition first_free :: "pmm \<Rightarrow> nat \<Rightarrow> nat \<Rightarrow> nat option" where
  "first_free s a b = find (\<lambda>p. \<not> page_used s p) [a..<b]"

lemma first_free_add_scanned [simp]: "first_free (add_scanned n s) = first_free s"
  by (simp add: first_free_def fun_eq_iff)

lemma first_free_Some:
  "first_free s a b = Some p \<longleftrightarrow>
     a \<le> p \<and> p < b \<and> \<not> page_used s p \<and> (\<forall>q. a \<le> q \<and> q < p \<longrightarrow> page_used s q)"
  by (auto simp: first_free_def find_upt_Some)

lemma first_free_None:
  "first_free s a b = None \<longleftrightarrow> (\<forall>q. a \<le> q \<and> q < b \<longrightarrow> page_used s q)"
  by (auto simp: first_free_def find_upt_None)

lemma first_free_skip:
  assumes "\<And>q. a \<le> q \<Longrightarrow> q < c \<Longrightarrow> q < b \<Longrightarrow> page_used s q" "a \<le> c"
  shows "first_free s a b = first_free s c b"
proof (cases "first_free s c b")
  case None
  then have "page_used s q" if "a \<le> q" "q < b" for q
    using that assms(1)[of q] unfolding first_free_None by (cases "q < c") auto
  then have "first_free s a b = None" unfolding first_free_None by blast
  with None show ?thesis by simp
next
  case (Some p)
  then have "page_used s q" if "a \<le> q" "q < p" for q
    using that assms(1)[of q] unfolding first_free_Some by (cases "q < c") auto
  moreover have "a \<le> p" using Some assms(2) unfolding first_free_Some by simp
  ultimately have "first_free s a b = Some p" using Some unfolding first_free_Some by blast
  with Some show ?thesis by simp
qed

definition scan_result :: "nat \<Rightarrow> pmm \<Rightarrow> nat option \<Rightarrow> pmm \<times> u64" where
  "scan_result n s r = (case r of None \<Rightarrow> (add_scanned n s, 0)
     | Some p \<Rightarrow> (take_page p (add_scanned n s), page_addr p))"

lemma scan_words_first_free:
  assumes "start div 64 \<le> k" "k \<le> Suc lw" "0 < end_p" and lw: "lw = (end_p - 1) div 64"
  shows "\<exists>n. scan_words [k..<Suc lw] (start div 64) lw start end_p s =
     scan_result n s (first_free s (max start (k * 64)) end_p)"
  using assms(1-3)
proof (induction "Suc lw - k" arbitrary: k s)
  case 0
  then have k: "k = Suc lw" by simp
  then have "end_p \<le> k * 64" using lw by simp
  then have "first_free s (max start (k * 64)) end_p = None"
    by (simp add: first_free_def)
  then show ?case using k by (auto simp: scan_result_def intro!: exI[of _ 0])
next
  case (Suc d)
  let ?fb = "free_bits_in (bitmap s ! k) k (start div 64) lw start end_p"
  have k: "k \<le> lw" using Suc.hyps(2) by simp
  have fb: "bit ?fb i \<longleftrightarrow> \<not> page_used s (k * 64 + i) \<and> start \<le> k * 64 + i \<and> k * 64 + i < end_p"
    if "i < 64" for i
    using bit_free_bits_in[of start k end_p i "bitmap s ! k"] Suc.prems k that
    by (simp add: lw page_used_def)
  have upt: "[k..<Suc lw] = k # [Suc k..<Suc lw]" using k by (simp add: upt_conv_Cons del: upt_Suc)
  show ?case
  proof (cases "?fb = 0")
    case True
    have none: "page_used s q" if "max start (k * 64) \<le> q" "q < max start (Suc k * 64)" "q < end_p" for q
    proof -
      have "q - k * 64 < 64" "k * 64 + (q - k * 64) = q" using that by (auto simp: max_def split: if_splits)
      with fb[of "q - k * 64"] True that show ?thesis by auto
    qed
    have skip: "first_free s (max start (k * 64)) end_p = first_free s (max start (Suc k * 64)) end_p"
      by (rule first_free_skip[OF none]) auto
    have "d = Suc lw - Suc k" "start div 64 \<le> Suc k" "Suc k \<le> Suc lw"
      using Suc.hyps(2) Suc.prems k by simp_all
    from Suc.hyps(1)[OF this Suc.prems(3), of "add_scanned 1 s"] obtain n where
      "scan_words [Suc k..<Suc lw] (start div 64) lw start end_p (add_scanned 1 s) =
       scan_result n (add_scanned 1 s) (first_free s (max start (Suc k * 64)) end_p)"
      by auto
    then have "scan_words [k..<Suc lw] (start div 64) lw start end_p s =
       scan_result (1 + n) s (first_free s (max start (k * 64)) end_p)"
      using True unfolding upt scan_words.simps Let_def add_scanned_1 skip scan_result_def
      by (simp split: option.splits)
    then show ?thesis ..
  next
    case False
    let ?c = "ctz64 ?fb"
    note c = ctz64_props[OF False]
    have hit: "\<not> page_used s (k * 64 + ?c)" "start \<le> k * 64 + ?c" "k * 64 + ?c < end_p"
      using fb[OF c(1)] c(2) by auto
    have "page_used s q" if q: "max start (k * 64) \<le> q" "q < k * 64 + ?c" for q
    proof -
      have "q - k * 64 < ?c" "k * 64 + (q - k * 64) = q" using q by auto
      then show ?thesis using fb[of "q - k * 64"] c(1) c(3)[of "q - k * 64"] q hit by auto
    qed
    then have "first_free s (max start (k * 64)) end_p = Some (k * 64 + ?c)"
      using hit unfolding first_free_Some by auto
    then have "scan_words [k..<Suc lw] (start div 64) lw start end_p s =
       scan_result 1 s (first_free s (max start (k * 64)) end_p)"
      using False unfolding upt scan_words.simps Let_def add_scanned_1 scan_result_def
      by (simp add: take_page_def)
    then show ?thesis ..
  qed
qed

lemma alloc_in_range_first_free:
  "\<exists>n. alloc_page_in_range a b s =
     scan_result n s (first_free s a (min b (tracked_page_count s)))"
proof (cases "min b (tracked_page_count s) \<le> a")
  case True
  then have "alloc_page_in_range a b s = (s, 0)"
    by (auto simp: alloc_page_in_range_def Let_def min_def split: if_splits)
  moreover have "first_free s a (min b (tracked_page_count s)) = None"
    using True by (simp add: first_free_def)
  ultimately show ?thesis by (auto simp: scan_result_def intro!: exI[of _ 0])
next
  case False
  let ?e = "min b (tracked_page_count s)"
  have pos: "0 < ?e" and "a \<le> ?e - 1" using False by linarith+
  then have "a div 64 \<le> Suc ((?e - 1) div 64)" by (simp only: div_le_mono le_SucI)
  moreover have "max a (a div 64 * 64) = a" by simp
  ultimately have "\<exists>n. scan_words [a div 64..<Suc ((?e - 1) div 64)] (a div 64) ((?e - 1) div 64) a ?e s =
     scan_result n s (first_free s a ?e)"
    using scan_words_first_free[of a "a div 64" "(?e - 1) div 64" ?e s] pos by simp
  moreover have "alloc_page_in_range a b s =
     scan_words [a div 64..<Suc ((?e - 1) div 64)] (a div 64) ((?e - 1) div 64) a ?e s"
    using False unfolding alloc_page_in_range_def Let_def
    by (simp add: min_def del: upt_Suc split: if_splits)
  ultimately show ?thesis by simp
qed

subsection \<open>Page allocation\<close>

text \<open>The part of the state that says which pages are handed out.\<close>

definition pages_of :: "pmm \<Rightarrow> u64 list \<times> u16 list \<times> nat \<times> nat" where
  "pages_of s = (bitmap s, refcounts s, tracked_page_count s, free_page_count s)"

lemma pages_of_wf: "pages_of s = pages_of t \<Longrightarrow> pmm_wf s = pmm_wf t"
  by (simp add: pages_of_def pmm_wf_def page_used_def)

lemma pages_of_used: "pages_of s = pages_of t \<Longrightarrow> page_used s = page_used t"
  by (simp add: pages_of_def page_used_def fun_eq_iff)

lemma pages_of_refcount: "pages_of s = pages_of t \<Longrightarrow> pmm_refcount s = pmm_refcount t"
  by (simp add: pages_of_def pmm_refcount_def valid_page_def fun_eq_iff)

lemma pages_of_set_used: "pages_of s = pages_of t \<Longrightarrow> pages_of (set_used p s) = pages_of (set_used p t)"
  by (simp add: pages_of_def set_used_def valid_page_def Let_def)

lemma pages_of_simps [simp]:
  "pages_of (add_scanned n s) = pages_of s"
  "pages_of (s\<lparr>stats := x\<rparr>) = pages_of s"
  "pages_of (s\<lparr>next_free_page := y\<rparr>) = pages_of s"
  by (simp_all add: pages_of_def)

lemma pages_of_take_page [simp]: "pages_of (take_page p s) = pages_of (set_used p s)"
  by (simp add: take_page_def)

lemma first_free_pages: "pages_of s = pages_of t \<Longrightarrow> first_free s = first_free t"
  by (drule pages_of_used) (simp add: first_free_def fun_eq_iff)

definition alloc_hint :: "pmm \<Rightarrow> nat" where
  "alloc_hint s = (if next_free_page s < first_page \<or> next_free_page s \<ge> tracked_page_count s
     then first_page else next_free_page s)"

text \<open>The reference allocation: first fit from the hint on, then from 1 MiB up to the hint.\<close>

definition pick_page :: "pmm \<Rightarrow> nat option" where
  "pick_page s = (case first_free s (alloc_hint s) (tracked_page_count s) of
     Some p \<Rightarrow> Some p
   | None \<Rightarrow> first_free s first_page (min (alloc_hint s) (tracked_page_count s)))"

lemma alloc_hint_ge: "first_page \<le> alloc_hint s"
  by (simp add: alloc_hint_def)

lemma pick_page_None:
  "pick_page s = None \<longleftrightarrow> (\<forall>p. first_page \<le> p \<and> p < tracked_page_count s \<longrightarrow> page_used s p)"
proof -
  have "pick_page s = None \<longleftrightarrow> first_free s (alloc_hint s) (tracked_page_count s) = None \<and>
      first_free s first_page (min (alloc_hint s) (tracked_page_count s)) = None"
    by (auto simp: pick_page_def split: option.splits)
  also have "\<dots> \<longleftrightarrow> (\<forall>p. first_page \<le> p \<and> p < tracked_page_count s \<longrightarrow> page_used s p)"
  proof -
    have "page_used s p" if "\<And>q. alloc_hint s \<le> q \<Longrightarrow> q < tracked_page_count s \<Longrightarrow> page_used s q"
      "\<And>q. first_page \<le> q \<Longrightarrow> q < min (alloc_hint s) (tracked_page_count s) \<Longrightarrow> page_used s q"
      "first_page \<le> p" "p < tracked_page_count s" for p
      using that by (cases "alloc_hint s \<le> p") auto
    moreover have "first_page \<le> q" if "alloc_hint s \<le> q" for q
      using that alloc_hint_ge[of s] by simp
    ultimately show ?thesis unfolding first_free_None by fastforce
  qed
  finally show ?thesis .
qed

lemma pick_page_Some:
  "pick_page s = Some p \<Longrightarrow> first_page \<le> p \<and> p < tracked_page_count s \<and> \<not> page_used s p"
  by (auto simp: pick_page_def first_free_Some alloc_hint_def split: option.splits if_splits)

lemma page_addr_nonzero:
  assumes "0 < p" "p < 2 ^ 52"
  shows "page_addr p \<noteq> 0"
proof
  assume "page_addr p = 0"
  then have "unat (page_addr p) = 0" by simp
  with assms show False by (simp add: unat_page_addr)
qed

lemma alloc_in_range_pages:
  assumes "pmm_wf s" "0 < a"
  shows "case first_free s a (min b (tracked_page_count s)) of
      None \<Rightarrow> snd (alloc_page_in_range a b s) = 0 \<and>
              pages_of (fst (alloc_page_in_range a b s)) = pages_of s \<and>
              next_free_page (fst (alloc_page_in_range a b s)) = next_free_page s
    | Some p \<Rightarrow> snd (alloc_page_in_range a b s) = page_addr p \<and> page_addr p \<noteq> 0 \<and>
              pages_of (fst (alloc_page_in_range a b s)) = pages_of (set_used p s)"
proof -
  obtain n where n: "alloc_page_in_range a b s =
      scan_result n s (first_free s a (min b (tracked_page_count s)))"
    using alloc_in_range_first_free by blast
  show ?thesis
  proof (cases "first_free s a (min b (tracked_page_count s))")
    case None
    then show ?thesis by (simp add: n scan_result_def)
  next
    case (Some p)
    then have "0 < p" "p < 2 ^ 52"
      using assms unfolding first_free_Some by (auto simp: pmm_wf_def)
    then show ?thesis
      using Some page_addr_nonzero[of p]
      by (simp add: n scan_result_def pages_of_set_used[of "add_scanned n s" s])
  qed
qed

lemma pmm_alloc_page_pages:
  assumes wf: "pmm_wf s"
  shows "case pick_page s of
      None \<Rightarrow> snd (pmm_alloc_page s) = 0 \<and> pages_of (fst (pmm_alloc_page s)) = pages_of s
    | Some p \<Rightarrow> snd (pmm_alloc_page s) = page_addr p \<and> page_addr p \<noteq> 0 \<and>
              pages_of (fst (pmm_alloc_page s)) = pages_of (set_used p s)"
proof -
  define s1 where "s1 = s\<lparr>stats := (stats s)\<lparr>alloc_attempts := alloc_attempts (stats s) + 1\<rparr>,
    next_free_page := alloc_hint s\<rparr>"
  have p1: "pages_of s1 = pages_of s" by (simp add: s1_def pages_of_def)
  have wf1: "pmm_wf s1" using wf pages_of_wf[OF p1] by simp
  have n1: "next_free_page s1 = alloc_hint s" by (simp add: s1_def)
  have t1: "tracked_page_count s1 = tracked_page_count s" by (simp add: s1_def)
  have pos: "0 < alloc_hint s" by (auto simp: alloc_hint_def)
  have unfold: "pmm_alloc_page s =
     (let (s, pa) = alloc_page_in_range (next_free_page s1) (tracked_page_count s1) s1;
          (s, pa) = (if pa = 0 then alloc_page_in_range first_page (next_free_page s) s else (s, pa))
      in if pa = 0
         then (s\<lparr>stats := (stats s)\<lparr>alloc_failures := alloc_failures (stats s) + 1\<rparr>\<rparr>, 0)
         else (s\<lparr>stats := (stats s)\<lparr>alloc_successes := alloc_successes (stats s) + 1\<rparr>\<rparr>, pa))"
    by (simp add: pmm_alloc_page_def s1_def alloc_hint_def Let_def)
  obtain s2 pa where r2: "alloc_page_in_range (alloc_hint s) (tracked_page_count s) s1 = (s2, pa)"
    by fastforce
  note a1 = alloc_in_range_pages[OF wf1 pos, of "tracked_page_count s"]
  show ?thesis
  proof (cases "first_free s (alloc_hint s) (tracked_page_count s)")
    case (Some p)
    then have "pick_page s = Some p" by (simp add: pick_page_def)
    moreover have "pa = page_addr p" "page_addr p \<noteq> 0" "pages_of s2 = pages_of (set_used p s)"
      using a1 Some r2 pages_of_set_used[OF p1, of p] by (simp_all add: t1 first_free_pages[OF p1])
    ultimately show ?thesis by (simp add: unfold n1 t1 r2)
  next
    case None
    then have pa: "pa = 0" and p2: "pages_of s2 = pages_of s" and n2: "next_free_page s2 = alloc_hint s"
      using a1 r2 p1 n1 by (simp_all add: t1 first_free_pages[OF p1])
    have wf2: "pmm_wf s2" using wf pages_of_wf[OF p2] by simp
    have t2: "tracked_page_count s2 = tracked_page_count s" using p2 by (simp add: pages_of_def)
    obtain s3 pb where r3: "alloc_page_in_range first_page (alloc_hint s) s2 = (s3, pb)"
      by fastforce
    have pick: "pick_page s = first_free s first_page (min (alloc_hint s) (tracked_page_count s))"
      using None by (simp add: pick_page_def)
    have "pmm_alloc_page s = (if pb = 0
         then (s3\<lparr>stats := (stats s3)\<lparr>alloc_failures := alloc_failures (stats s3) + 1\<rparr>\<rparr>, 0)
         else (s3\<lparr>stats := (stats s3)\<lparr>alloc_successes := alloc_successes (stats s3) + 1\<rparr>\<rparr>, pb))"
      by (simp add: unfold n1 t1 r2 pa n2 r3)
    then show ?thesis
      using alloc_in_range_pages[OF wf2, of first_page "alloc_hint s"] r3 p2
        pages_of_set_used[OF p2]
      by (auto simp: pick t2 first_free_pages[OF p2] split: option.splits)
  qed
qed

subsection \<open>The allocator on reference counts\<close>

lemma page_aligned_iff: "pa mod PAGE_SIZE = 0 \<longleftrightarrow> unat pa mod 4096 = 0"
  by (simp add: PAGE_SIZE_def word_unat_eq_iff unat_mod)

lemma page_of_addr [simp]: "p < 2 ^ 52 \<Longrightarrow> page_of (page_addr p) = p"
  by (simp add: unat_page_addr)

lemma page_addr_aligned [simp]: "p < 2 ^ 52 \<Longrightarrow> page_addr p mod PAGE_SIZE = 0"
  by (simp add: page_aligned_iff unat_page_addr)

lemma page_of_bound: "page_of pa < 2 ^ 52"
  using unat_lt_64[of pa] by simp

lemma page_addr_of: "pa mod PAGE_SIZE = 0 \<Longrightarrow> page_addr (page_of pa) = pa"
  using page_of_bound[of pa]
  by (intro word_unat_eq_iff[THEN iffD2]) (auto simp: unat_page_addr page_aligned_iff)

lemma pmm_refcount_wf:
  "pmm_wf s \<Longrightarrow> pmm_refcount s pa =
     (if pa mod PAGE_SIZE = 0 \<and> page_of pa < tracked_page_count s
      then refcounts s ! page_of pa else 0)"
  by (auto simp: pmm_refcount_def valid_page_iff)

lemma pmm_refcount_page:
  "pmm_wf s \<Longrightarrow> p < tracked_page_count s \<Longrightarrow> pmm_refcount s (page_addr p) = refcounts s ! p"
  using page_of_addr[of p] page_addr_aligned[of p]
  by (auto simp: pmm_refcount_wf pmm_wf_def)

lemma tracked_lt: "pmm_wf s \<Longrightarrow> p < tracked_page_count s \<Longrightarrow> p < 2 ^ 52"
  by (simp add: pmm_wf_def)

lemma refcount_of_update:
  assumes wf: "pmm_wf s" and wf': "pmm_wf s'" and t: "tracked_page_count s' = tracked_page_count s"
    and r: "refcounts s' = (refcounts s)[p := v]" and p: "p < tracked_page_count s"
  shows "pmm_refcount s' = (pmm_refcount s)(page_addr p := v)"
proof
  fix q
  have len: "length (refcounts s) = tracked_page_count s" using wf by (simp add: pmm_wf_def)
  have lt: "p < 2 ^ 52" using tracked_lt[OF wf p] .
  have "q = page_addr p \<longleftrightarrow> q mod PAGE_SIZE = 0 \<and> page_of q = p"
    by (metis page_addr_of page_of_addr[OF lt] page_addr_aligned[OF lt])
  then show "pmm_refcount s' q = ((pmm_refcount s)(page_addr p := v)) q"
    using p by (auto simp: pmm_refcount_wf[OF wf] pmm_refcount_wf[OF wf'] t r len nth_list_update)
qed

lemma unused_refcount:
  "pmm_wf s \<Longrightarrow> p < tracked_page_count s \<Longrightarrow> \<not> page_used s p \<Longrightarrow> refcounts s ! p = 0"
  by (simp add: pmm_wf_def)

lemma pmm_alloc_page_wf: "pmm_wf s \<Longrightarrow> pmm_wf (fst (pmm_alloc_page s))"
  using pmm_alloc_page_pages[of s] set_used_wf[of s]
  by (auto split: option.splits dest: pages_of_wf)

text \<open>A successful allocation, with the page it took.\<close>

lemma pmm_alloc_page_took:
  assumes wf: "pmm_wf s" and r: "pmm_alloc_page s = (s', pa)" and pa: "pa \<noteq> 0"
  obtains p where "pick_page s = Some p" "pa = page_addr p" "first_page \<le> p"
    "p < tracked_page_count s" "\<not> page_used s p" "pages_of s' = pages_of (set_used p s)"
  using pmm_alloc_page_pages[OF wf] r pa pick_page_Some[of s] that
  by (auto split: option.splits)

lemma pmm_alloc_page_refs:
  assumes wf: "pmm_wf s" and r: "pmm_alloc_page s = (s', pa)" and pa: "pa \<noteq> 0"
  shows "pmm_refcount s pa = 0" and "pmm_refcount s' = (pmm_refcount s)(pa := 1)"
proof -
  obtain p where p: "pa = page_addr p" "p < tracked_page_count s" "\<not> page_used s p"
    "pages_of s' = pages_of (set_used p s)"
    using pmm_alloc_page_took[OF wf r pa] by blast
  note z = unused_refcount[OF wf p(2,3)]
  show "pmm_refcount s pa = 0" using z p by (simp add: pmm_refcount_page wf)
  have "pmm_refcount s' = pmm_refcount (set_used p s)" by (rule pages_of_refcount) fact
  also have "\<dots> = (pmm_refcount s)(pa := 1)"
    unfolding p(1) by (rule refcount_of_update[OF wf set_used_wf[OF wf]])
      (simp_all add: refcounts_set_used wf p z)
  finally show "pmm_refcount s' = (pmm_refcount s)(pa := 1)" .
qed

lemma pmm_alloc_page_none:
  assumes "pmm_wf s" "pmm_alloc_page s = (s', 0)"
  shows "pages_of s' = pages_of s" and "pick_page s = None"
  using pmm_alloc_page_pages[OF assms(1)] assms(2) by (auto split: option.splits)

lemma pmm_alloc_zero_page_fst:
  "mpmm (fst (pmm_alloc_zero_page m)) = fst (pmm_alloc_page (mpmm m))"
  "snd (pmm_alloc_zero_page m) = snd (pmm_alloc_page (mpmm m))"
  by (auto simp: pmm_alloc_zero_page_def Let_def split: prod.splits)

subsection \<open>Sharing and freeing\<close>

lemma refcount_update_wf:
  assumes "pmm_wf s" "p < tracked_page_count s" "page_used s p"
  shows "pmm_wf (s\<lparr>refcounts := (refcounts s)[p := v]\<rparr>)"
  using assms by (auto simp: pmm_wf_def page_used_def nth_list_update)

lemma counted_used:
  "pmm_wf s \<Longrightarrow> p < tracked_page_count s \<Longrightarrow> refcounts s ! p \<noteq> 0 \<Longrightarrow> page_used s p"
  using unused_refcount by blast

lemma pmm_refcount_nonzero:
  assumes "pmm_wf s" "pmm_refcount s pa \<noteq> 0"
  obtains p where "pa = page_addr p" "p < tracked_page_count s" "page_of pa = p"
    "pa mod PAGE_SIZE = 0" "refcounts s ! p = pmm_refcount s pa" "page_used s p"
proof -
  have al: "pa mod PAGE_SIZE = 0" and t: "page_of pa < tracked_page_count s"
    and r: "refcounts s ! page_of pa = pmm_refcount s pa"
    using assms by (simp_all only: pmm_refcount_wf split: if_splits) simp_all
  have "page_used s (page_of pa)"
    using counted_used[OF assms(1) t] assms(2) r by simp
  then show ?thesis using that[of "page_of pa"] page_addr_of[OF al] al t r by metis
qed

lemma pmm_share_page_fail: "snd (pmm_share_page pa s) = False \<Longrightarrow> fst (pmm_share_page pa s) = s"
  unfolding pmm_share_page_def Let_def by (auto split: if_splits)

lemma pmm_share_page_succeeds:
  "pmm_wf s \<Longrightarrow> snd (pmm_share_page pa s) \<longleftrightarrow> pmm_refcount s pa \<noteq> 0 \<and> pmm_refcount s pa \<noteq> 0xffff"
  by (auto simp: pmm_share_page_def Let_def pmm_refcount_def)

lemma pmm_share_page_effect:
  assumes wf: "pmm_wf s" and ok: "snd (pmm_share_page pa s)"
  shows "pmm_wf (fst (pmm_share_page pa s))"
    and "pmm_refcount (fst (pmm_share_page pa s)) = (pmm_refcount s)(pa := pmm_refcount s pa + 1)"
proof -
  obtain p where p: "pa = page_addr p" "p < tracked_page_count s" "page_of pa = p"
    "pa mod PAGE_SIZE = 0" "refcounts s ! p = pmm_refcount s pa" "page_used s p"
    using pmm_refcount_nonzero[OF wf] ok pmm_share_page_succeeds[OF wf] by metis
  have r: "fst (pmm_share_page pa s) = s\<lparr>refcounts := (refcounts s)[p := refcounts s ! p + 1]\<rparr>"
    using ok p(2-4) valid_page_iff[OF wf, of p] by (auto simp: pmm_share_page_def Let_def)
  show wf': "pmm_wf (fst (pmm_share_page pa s))"
    unfolding r by (rule refcount_update_wf[OF wf p(2,6)])
  have "pmm_refcount (fst (pmm_share_page pa s)) = (pmm_refcount s)(page_addr p := refcounts s ! p + 1)"
    by (rule refcount_of_update[OF wf wf' _ _ p(2)]) (simp_all add: r)
  then show "pmm_refcount (fst (pmm_share_page pa s)) = (pmm_refcount s)(pa := pmm_refcount s pa + 1)"
    using p(1,5) by simp
qed

lemma pmm_free_page_other:
  "pmm_wf s \<Longrightarrow> pmm_refcount s pa = 0 \<Longrightarrow> pmm_free_page pa s = s"
  unfolding pmm_free_page_def pmm_refcount_def Let_def by (simp split: if_splits)

lemma pmm_free_page_effect:
  assumes wf: "pmm_wf s" and c: "pmm_refcount s pa \<noteq> 0"
  shows "pmm_wf (pmm_free_page pa s)"
    and "pmm_refcount (pmm_free_page pa s) = (pmm_refcount s)(pa := pmm_refcount s pa - 1)"
    and "q < tracked_page_count s \<Longrightarrow> page_used (pmm_free_page pa s) q \<longleftrightarrow>
           (if q = page_of pa then pmm_refcount s pa \<noteq> 1 else page_used s q)"
    and "tracked_page_count (pmm_free_page pa s) = tracked_page_count s"
proof -
  obtain p where p: "pa = page_addr p" "p < tracked_page_count s" "page_of pa = p"
    "pa mod PAGE_SIZE = 0" "refcounts s ! p = pmm_refcount s pa" "page_used s p"
    using pmm_refcount_nonzero[OF wf c] .
  define s1 where "s1 = s\<lparr>refcounts := (refcounts s)[p := refcounts s ! p - 1]\<rparr>"
  have wf1: "pmm_wf s1" unfolding s1_def by (rule refcount_update_wf[OF wf p(2,6)])
  have p1: "p < tracked_page_count s1" using p(2) by (simp add: s1_def)
  have len: "length (refcounts s) = tracked_page_count s" using wf by (simp add: pmm_wf_def)
  have u1: "page_used s1 = page_used s" by (simp add: s1_def page_used_def fun_eq_iff)
  have z: "refcounts s1 ! p = 0 \<longleftrightarrow> pmm_refcount s pa = 1"
    using p(2,5) len by (simp add: s1_def)
  have r: "pmm_free_page pa s = (if pmm_refcount s pa = 1
      then (if p < next_free_page (set_free p s1) then (set_free p s1)\<lparr>next_free_page := p\<rparr>
            else set_free p s1) else s1)"
  proof -
    have v: "valid_page s p" using valid_page_iff[OF wf] p(2) by simp
    have nz: "refcounts s ! p \<noteq> 0" using p(5) c by simp
    show ?thesis
      unfolding pmm_free_page_def Let_def p(3) s1_def[symmetric] z
      by (simp only: p(4) v nz simp_thms if_False)
  qed
  have pg: "pages_of (pmm_free_page pa s) = pages_of (if pmm_refcount s pa = 1 then set_free p s1 else s1)"
    by (simp add: r)
  have wf2: "pmm_wf (if pmm_refcount s pa = 1 then set_free p s1 else s1)"
    using wf1 set_free_wf[OF wf1] by simp
  show wf': "pmm_wf (pmm_free_page pa s)" using wf2 pages_of_wf[OF pg] by simp
  show t: "tracked_page_count (pmm_free_page pa s) = tracked_page_count s"
    by (simp add: r s1_def)
  have rc: "refcounts (pmm_free_page pa s) = (refcounts s)[p := refcounts s ! p - 1]"
  proof (cases "pmm_refcount s pa = 1")
    case True
    then have "refcounts s ! p - 1 = 0" using p(5) by simp
    then show ?thesis using True refcounts_set_free[OF wf1 p1] by (simp add: r) (simp add: s1_def)
  next
    case False
    then show ?thesis by (simp add: r s1_def)
  qed
  show "pmm_refcount (pmm_free_page pa s) = (pmm_refcount s)(pa := pmm_refcount s pa - 1)"
    using refcount_of_update[OF wf wf' t rc p(2)] p(1,5) by simp
  assume "q < tracked_page_count s"
  then show "page_used (pmm_free_page pa s) q \<longleftrightarrow>
           (if q = page_of pa then pmm_refcount s pa \<noteq> 1 else page_used s q)"
    using pages_of_used[OF pg] page_used_set_free[OF wf1 p1, of q] p(3,6) by (auto simp: u1)
qed

lemma pmm_free_page_wf: "pmm_wf s \<Longrightarrow> pmm_wf (pmm_free_page pa s)"
  using pmm_free_page_effect(1) pmm_free_page_other by (cases "pmm_refcount s pa = 0") auto


end
