(* ===== verification/Pmm_Init.thy ===== *)
theory Pmm_Init
  imports Pmm_Alloc
begin

text \<open>
  Contiguous allocation and initialisation of the page allocator, and the allocator's
  contract as a locale: what a client that allocates and frees frames may rely on.
\<close>

subsection \<open>Marking a list of pages\<close>

lemma fold_set_used_frame [simp]:
  "tracked_page_count (fold set_used ps s) = tracked_page_count s"
  "next_free_page (fold set_used ps s) = next_free_page s"
  "stats (fold set_used ps s) = stats s"
  "metadata_start_page (fold set_used ps s) = metadata_start_page s"
  "metadata_page_count (fold set_used ps s) = metadata_page_count s"
  by (induction ps arbitrary: s) simp_all

lemma fold_set_used_wf: "pmm_wf s \<Longrightarrow> pmm_wf (fold set_used ps s)"
  by (induction ps arbitrary: s) (simp_all add: set_used_wf)

lemma page_used_fold_set_used:
  assumes "pmm_wf s" "q < tracked_page_count s"
  shows "page_used (fold set_used ps s) q \<longleftrightarrow> q \<in> set ps \<or> page_used s q"
  using assms
proof (induction ps arbitrary: s)
  case (Cons p ps)
  have "page_used (set_used p s) q \<longleftrightarrow> q = p \<or> page_used s q"
    using Cons.prems
    by (cases "p < tracked_page_count s")
      (auto simp: page_used_set_used set_used_invalid valid_page_iff)
  with Cons.IH[of "set_used p s"] Cons.prems show ?case by (auto simp: set_used_wf)
qed simp

lemma refcounts_fold_set_used:
  assumes "pmm_wf s" "q < tracked_page_count s"
  shows "refcounts (fold set_used ps s) ! q =
    (if q \<in> set ps \<and> refcounts s ! q = 0 then 1 else refcounts s ! q)"
  using assms
proof (induction ps arbitrary: s)
  case (Cons p ps)
  have "length (refcounts s) = tracked_page_count s" using Cons.prems by (simp add: pmm_wf_def)
  then have "refcounts (set_used p s) ! q =
      (if q = p \<and> refcounts s ! q = 0 then 1 else refcounts s ! q)"
    using Cons.prems
    by (cases "p < tracked_page_count s")
      (auto simp: refcounts_set_used set_used_invalid valid_page_iff nth_list_update)
  with Cons.IH[of "set_used p s"] Cons.prems show ?case by (auto simp: set_used_wf)
qed simp

lemma pages_of_fold_set_used:
  "pages_of s = pages_of t \<Longrightarrow> pages_of (fold set_used ps s) = pages_of (fold set_used ps t)"
proof (induction ps arbitrary: s t)
  case (Cons p ps)
  show ?case using Cons.IH[OF pages_of_set_used[OF Cons.prems]] by simp
qed simp

subsection \<open>Contiguous runs\<close>

definition free_run :: "pmm \<Rightarrow> nat \<Rightarrow> nat \<Rightarrow> bool" where
  "free_run s r count \<longleftrightarrow> (\<forall>p \<in> set [r..<r + count]. \<not> page_used s p)"

lemma free_run_iff: "free_run s r count \<longleftrightarrow> (\<forall>p. r \<le> p \<and> p < r + count \<longrightarrow> \<not> page_used s p)"
  by (auto simp: free_run_def)

lemma free_run_add_scanned [simp]: "free_run (add_scanned n s) = free_run s"
  by (simp add: free_run_def fun_eq_iff)

definition run_outcome :: "pmm \<Rightarrow> nat \<Rightarrow> pmm \<times> u64 \<Rightarrow> bool" where
  "run_outcome s count res \<longleftrightarrow>
     (\<exists>r. first_page \<le> r \<and> r + count \<le> tracked_page_count s \<and> free_run s r count \<and>
        (\<forall>q. first_page \<le> q \<and> q < r \<longrightarrow> \<not> free_run s q count) \<and> snd res = page_addr r \<and>
        pages_of (fst res) = pages_of (fold set_used [r..<r + count] s)) \<or>
     ((\<forall>r. first_page \<le> r \<and> r + count \<le> tracked_page_count s \<longrightarrow> \<not> free_run s r count) \<and>
        snd res = 0 \<and> pages_of (fst res) = pages_of s)"

lemma run_outcome_add_scanned: "run_outcome (add_scanned n s) count res = run_outcome s count res"
proof -
  have "pages_of (fold set_used ps (add_scanned n s)) = pages_of (fold set_used ps s)" for ps
    by (rule pages_of_fold_set_used) simp
  then show ?thesis by (simp add: run_outcome_def)
qed

lemma scan_run_outcome:
  assumes "pmm_wf s" "page \<le> tracked_page_count s" "run_len < count" "first_page \<le> rs"
    "rs + run_len = page" "run_len \<noteq> 0 \<longrightarrow> run_start = rs" "free_run s rs run_len"
    "\<forall>r. first_page \<le> r \<and> r < rs \<longrightarrow> \<not> free_run s r count"
  shows "run_outcome s count (scan_run [page..<tracked_page_count s] count run_start run_len s)"
  using assms
proof (induction "tracked_page_count s - page" arbitrary: page run_len rs run_start s)
  case 0
  then have "page = tracked_page_count s" by simp
  moreover have "\<not> free_run s r count"
    if "first_page \<le> r" "r + count \<le> tracked_page_count s" for r
    using that 0 by (cases "r < rs") auto
  ultimately show ?case by (auto simp: run_outcome_def)
next
  case (Suc d)
  let ?s = "add_scanned 1 s"
  have lt: "page < tracked_page_count s" using Suc.hyps(2) by simp
  have upt: "[page..<tracked_page_count s] = page # [Suc page..<tracked_page_count s]"
    using lt by (simp add: upt_conv_Cons)
  have v: "valid_page s page" using Suc.prems(1) lt by (simp add: valid_page_iff)
  have used: "bitmap s ! (page div 64) AND push_bit (page mod 64) 1 \<noteq> 0 \<longleftrightarrow> page_used s page"
    by (simp add: and_exp_zero page_used_def)
  have wf: "pmm_wf ?s" using Suc.prems(1) by simp
  have d: "d = tracked_page_count ?s - Suc page" "Suc page \<le> tracked_page_count ?s"
    using Suc.hyps(2) lt by simp_all
  show ?case
  proof (cases "page_used s page")
    case True
    have "\<not> free_run s r count" if "first_page \<le> r" "r < Suc page" for r
    proof (cases "r < rs")
      case False
      then have "r \<le> page" "page < r + count" using that Suc.prems(3,5) by auto
      with True show ?thesis by (auto simp: free_run_iff)
    qed (use that Suc.prems(8) in auto)
    then have "run_outcome ?s count
        (scan_run [Suc page..<tracked_page_count ?s] count run_start 0 ?s)"
      using Suc.prems(3-5) by (intro Suc.hyps(1)[OF d(1) wf d(2), where rs = "Suc page"])
        (auto simp: free_run_iff)
    then show ?thesis
      unfolding upt scan_run.simps Let_def add_scanned_1
      using True used v by (simp add: run_outcome_add_scanned)
  next
    case False
    have rs: "(if run_len = 0 then page else run_start) = rs" using Suc.prems(5,6) by auto
    have run: "free_run s rs (Suc run_len)"
      using Suc.prems(5,7) False by (auto simp: free_run_iff less_Suc_eq)
    show ?thesis
    proof (cases "Suc run_len < count")
      case True
      have "run_outcome ?s count
          (scan_run [Suc page..<tracked_page_count ?s] count rs (Suc run_len) ?s)"
        using True Suc.prems(4,5,8) run
        by (intro Suc.hyps(1)[OF d(1) wf d(2), where rs = rs]) auto
      then show ?thesis
        unfolding upt scan_run.simps Let_def add_scanned_1 rs
        using True False used v by (simp add: run_outcome_add_scanned)
    next
      case stop: False
      then have c: "count = Suc run_len" using Suc.prems(3) by simp
      have "pages_of (fold set_used [rs..<rs + count] ?s) = pages_of (fold set_used [rs..<rs + count] s)"
        by (rule pages_of_fold_set_used) simp
      then have "run_outcome s count ((fold set_used [rs..<rs + count] ?s)
          \<lparr>next_free_page := rs + count, stats := x\<rparr>, page_addr rs)" for x
        unfolding run_outcome_def using Suc.prems(4,5,8) run c lt
        by (intro disjI1 exI[of _ rs]) (auto simp: pages_of_def)
      then show ?thesis
        unfolding upt scan_run.simps Let_def add_scanned_1 rs
        using stop False used v by simp
    qed
  qed
qed

lemma alloc_contiguous_outcome:
  assumes "pmm_wf s" "0 < count" "count \<le> tracked_page_count s" "first_page \<le> tracked_page_count s"
  shows "run_outcome s count (pmm_alloc_contiguous_pages count s)"
proof -
  let ?s = "s\<lparr>stats := (stats s)\<lparr>alloc_attempts := alloc_attempts (stats s) + 1\<rparr>\<rparr>"
  have p: "pages_of ?s = pages_of s" by simp
  have "run_outcome ?s count (scan_run [first_page..<tracked_page_count ?s] count 0 0 ?s)"
    using assms pages_of_wf[OF p]
    by (intro scan_run_outcome[where rs = first_page]) (auto simp: free_run_iff)
  moreover have "run_outcome ?s count res = run_outcome s count res" for res
    unfolding run_outcome_def free_run_def pages_of_used[OF p] p
    using pages_of_fold_set_used[OF p] by simp
  ultimately show ?thesis using assms by (simp add: pmm_alloc_contiguous_pages_def)
qed

lemma alloc_contiguous_small:
  "tracked_page_count s < first_page \<Longrightarrow> snd (pmm_alloc_contiguous_pages count s) = 0"
  by (simp add: pmm_alloc_contiguous_pages_def)

subsection \<open>Initialisation\<close>

definition usable_page :: "spore_memmap_entry list \<Rightarrow> nat \<Rightarrow> bool" where
  "usable_page memmap q \<longleftrightarrow>
     (\<exists>e \<in> set memmap. me_type e = SPORE_MEMMAP_USABLE \<and>
        page_of (entry_start e) \<le> q \<and> q < page_of (entry_end e))"

abbreviation count_and_free :: "nat \<Rightarrow> pmm \<Rightarrow> pmm" where
  "count_and_free page s \<equiv> set_free page (s\<lparr>total_page_count := total_page_count s + 1\<rparr>)"

lemma pages_of_total [simp]: "pages_of (s\<lparr>total_page_count := n\<rparr>) = pages_of s"
  by (simp add: pages_of_def)

lemma page_used_total [simp]: "page_used (s\<lparr>total_page_count := n\<rparr>) = page_used s"
  by (simp add: page_used_def fun_eq_iff)

lemma count_and_free_wf: "pmm_wf s \<Longrightarrow> pmm_wf (count_and_free p s)"
  using pages_of_wf[OF pages_of_total] by (blast intro: set_free_wf)

lemma count_and_free_frame [simp]:
  "tracked_page_count (count_and_free p s) = tracked_page_count s"
  "metadata_start_page (count_and_free p s) = metadata_start_page s"
  "metadata_page_count (count_and_free p s) = metadata_page_count s"
  by simp_all

lemma page_used_count_and_free:
  assumes "pmm_wf s" "q < tracked_page_count s"
  shows "page_used (count_and_free p s) q \<longleftrightarrow> q \<noteq> p \<and> page_used s q"
proof -
  let ?s = "s\<lparr>total_page_count := total_page_count s + 1\<rparr>"
  have wf: "pmm_wf ?s" using assms(1) pages_of_wf[OF pages_of_total] by blast
  show ?thesis
  proof (cases "p < tracked_page_count s")
    case True
    then show ?thesis using page_used_set_free[OF wf, of p q] by simp
  next
    case False
    then have "count_and_free p s = ?s"
      using wf by (intro set_free_invalid) (simp add: valid_page_iff)
    then show ?thesis using False assms(2) by auto
  qed
qed

lemma fold_count_and_free:
  assumes "pmm_wf s"
  shows "pmm_wf (fold count_and_free ps s) \<and>
    tracked_page_count (fold count_and_free ps s) = tracked_page_count s \<and>
    metadata_start_page (fold count_and_free ps s) = metadata_start_page s \<and>
    metadata_page_count (fold count_and_free ps s) = metadata_page_count s \<and>
    (\<forall>q < tracked_page_count s. page_used (fold count_and_free ps s) q \<longleftrightarrow> q \<notin> set ps \<and> page_used s q)"
  using assms
proof (induction ps arbitrary: s)
  case (Cons p ps)
  have "pmm_wf (count_and_free p s)" using Cons.prems by (rule count_and_free_wf)
  from Cons.IH[OF this] page_used_count_and_free[OF Cons.prems] show ?case by auto
qed simp

lemma free_usable_effect:
  assumes "pmm_wf s"
  shows "pmm_wf (free_usable memmap s) \<and>
    tracked_page_count (free_usable memmap s) = tracked_page_count s \<and>
    metadata_start_page (free_usable memmap s) = metadata_start_page s \<and>
    metadata_page_count (free_usable memmap s) = metadata_page_count s \<and>
    (\<forall>q < tracked_page_count s.
       page_used (free_usable memmap s) q \<longleftrightarrow> \<not> usable_page memmap q \<and> page_used s q)"
  using assms
proof (induction memmap arbitrary: s)
  case Nil
  then show ?case by (simp add: usable_page_def)
next
  case (Cons e memmap)
  show ?case
  proof (cases "me_type e = SPORE_MEMMAP_USABLE")
    case False
    with Cons.IH[OF Cons.prems] show ?thesis by (auto simp: usable_page_def)
  next
    case True
    note f = fold_count_and_free[OF Cons.prems, of "[page_of (entry_start e)..<page_of (entry_end e)]",
      folded free_entry_pages_def]
    from f have wf: "pmm_wf (free_entry_pages e s)" by simp
    from True Cons.IH[OF wf] f show ?thesis by (auto simp: usable_page_def)
  qed
qed

text \<open>All pages marked used, no references: the state right after the two \<^verbatim>\<open>kmemset\<close> calls.\<close>

lemma all_used_wf:
  assumes "bitmap s = replicate (div_round_up t 64) (- 1)" "refcounts s = replicate t 0"
    "tracked_page_count s = t" "t \<le> 2 ^ 52" "free_page_count s = 0"
  shows "pmm_wf s \<and> (\<forall>q < t. page_used s q)"
proof -
  have "page_used s q" if "q < t" for q
    using assms word_index_in_range[OF that] by (simp add: page_used_def)
  then show ?thesis using assms by (auto simp: pmm_wf_def)
qed

lemma find_metadata_region_Some:
  "find_metadata_region memmap bytes = Some pa \<Longrightarrow>
     \<exists>e \<in> set memmap. me_type e = SPORE_MEMMAP_USABLE \<and> entry_start e \<le> pa \<and> 0x100000 \<le> pa \<and>
       pa < entry_end e \<and> bytes \<le> entry_end e - pa"
  by (induction memmap) (auto simp: Let_def not_less split: if_splits)

lemma pmm_init_cases:
  fixes hhdm memmap
  defines "s \<equiv> pmm_init hhdm memmap"
  shows "tracked_page_count s = 0 \<and> bitmap s = [] \<and> refcounts s = [] \<and> free_page_count s = 0 \<or>
    pmm_wf s \<and> tracked_page_count s = page_of (highest_usable_end memmap 0) \<and>
    (\<exists>bytes pa. find_metadata_region memmap bytes = Some pa \<and>
       metadata_start_page s = page_of pa \<and> metadata_page_count s = page_of bytes) \<and>
    (\<forall>q < tracked_page_count s. \<not> page_used s q \<longleftrightarrow>
       usable_page memmap q \<and> first_page \<le> q \<and>
       \<not> (metadata_start_page s \<le> q \<and> q < metadata_start_page s + metadata_page_count s))"
proof -
  let ?t = "page_of (highest_usable_end memmap 0)"
  let ?w = "div_round_up ?t 64"
  let ?b = "align_up (of_nat (?w * 8 + ?t * 2)) PAGE_SIZE"
  show ?thesis
  proof (cases "?t = 0 \<or> ?w = 0")
    case True
    then have "?t = 0" by (auto simp: div_round_up_def)
    then show ?thesis by (simp add: s_def pmm_init_def Let_def div_round_up_def)
  next
    case False
    show ?thesis
    proof (cases "find_metadata_region memmap ?b")
      case None
      with False show ?thesis by (simp add: s_def pmm_init_def Let_def)
    next
      case (Some pa)
      define s1 where "s1 = \<lparr>hhdm_base = hhdm, bitmap = replicate ?w (- 1),
        refcounts = replicate ?t 0, tracked_page_count = ?t, bitmap_word_count = ?w,
        total_page_count = 0, free_page_count = 0, next_free_page = first_page,
        metadata_start_page = page_of pa, metadata_page_count = page_of ?b,
        stats = \<lparr>alloc_attempts = 0, alloc_successes = 0, alloc_failures = 0,
                 bitmap_words_scanned = 0\<rparr>\<rparr>"
      define s3 where "s3 = fold set_used [0..<first_page] (free_usable memmap s1)"
      have s: "s = fold set_used
          [metadata_start_page s3..<metadata_start_page s3 + metadata_page_count s3] s3"
        using False Some by (simp add: s_def pmm_init_def Let_def s3_def s1_def)
      have "?t \<le> 2 ^ 52" using page_of_bound[of "highest_usable_end memmap 0"] by (rule less_imp_le)
      then have wf1: "pmm_wf s1" and u1: "\<And>q. q < ?t \<Longrightarrow> page_used s1 q"
        using all_used_wf[of s1 ?t] by (simp_all add: s1_def)
      note f = free_usable_effect[OF wf1, of memmap]
      then have wf3: "pmm_wf s3" by (simp add: s3_def fold_set_used_wf)
      have t: "tracked_page_count s3 = ?t" "metadata_start_page s3 = page_of pa"
        "metadata_page_count s3 = page_of ?b"
        using f by (simp_all add: s3_def s1_def)
      have u3: "page_used s3 q \<longleftrightarrow> q < first_page \<or> \<not> usable_page memmap q" if "q < ?t" for q
        using page_used_fold_set_used[of "free_usable memmap s1" q "[0..<first_page]"] f that u1
        by (auto simp: s3_def s1_def)
      have "\<not> page_used s q \<longleftrightarrow> usable_page memmap q \<and> first_page \<le> q \<and>
          \<not> (page_of pa \<le> q \<and> q < page_of pa + page_of ?b)" if "q < ?t" for q
        using page_used_fold_set_used[OF wf3, of q] that u3[OF that] by (auto simp: s t)
      moreover have "pmm_wf s" unfolding s by (rule fold_set_used_wf[OF wf3])
      ultimately show ?thesis using Some by (auto simp: s t)
    qed
  qed
qed

subsection \<open>The contract of a frame pool\<close>

text \<open>
  What the page allocator's clients (pipes, page tables, the region lists) rely on:
  reference counts by address, an allocation that returns a fresh frame or changes no
  count, and a release that drops one reference.
\<close>

locale frame_pool =
  fixes inv :: "'s \<Rightarrow> bool"
    and refs :: "'s \<Rightarrow> u64 \<Rightarrow> u16"
    and alloc :: "'s \<Rightarrow> 's \<times> u64"
    and free :: "u64 \<Rightarrow> 's \<Rightarrow> 's"
  assumes alloc_inv: "inv s \<Longrightarrow> inv (fst (alloc s))"
    and alloc_none: "inv s \<Longrightarrow> snd (alloc s) = 0 \<Longrightarrow> refs (fst (alloc s)) = refs s"
    and alloc_fresh: "inv s \<Longrightarrow> snd (alloc s) \<noteq> 0 \<Longrightarrow> refs s (snd (alloc s)) = 0"
    and alloc_refs: "inv s \<Longrightarrow> snd (alloc s) \<noteq> 0 \<Longrightarrow>
      refs (fst (alloc s)) = (refs s)(snd (alloc s) := 1)"
    and free_inv: "inv s \<Longrightarrow> inv (free pa s)"
    and free_refs: "inv s \<Longrightarrow> refs s pa \<noteq> 0 \<Longrightarrow> refs (free pa s) = (refs s)(pa := refs s pa - 1)"
begin

text \<open>Freeing the frame just allocated restores every reference count.\<close>

lemma alloc_free_refs:
  assumes "inv s" "snd (alloc s) \<noteq> 0"
  shows "refs (free (snd (alloc s)) (fst (alloc s))) = refs s"
proof -
  let ?p = "snd (alloc s)"
  have "refs (fst (alloc s)) ?p = 1" using alloc_refs[OF assms] by simp
  then have "refs (free ?p (fst (alloc s))) = (refs (fst (alloc s)))(?p := 0)"
    using free_refs[OF alloc_inv[OF assms(1)], of ?p] by simp
  then show ?thesis using alloc_refs[OF assms] alloc_fresh[OF assms] by (auto simp: fun_eq_iff)
qed

lemma fold_free_inv: "inv s \<Longrightarrow> inv (fold free ps s)"
  by (induction ps arbitrary: s) (simp_all add: free_inv)

text \<open>Releasing distinct frames that each have one reference.\<close>

lemma fold_free_refs:
  assumes "inv s" "distinct ps" "\<forall>p \<in> set ps. refs s p = 1"
  shows "refs (fold free ps s) = (\<lambda>q. if q \<in> set ps then 0 else refs s q)"
  using assms
proof (induction ps arbitrary: s)
  case (Cons p ps)
  have r: "refs (free p s) = (refs s)(p := 0)"
    using free_refs[OF Cons.prems(1), of p] Cons.prems(3) by simp
  have "refs (fold free ps (free p s)) = (\<lambda>q. if q \<in> set ps then 0 else refs (free p s) q)"
    using Cons.prems by (intro Cons.IH) (auto simp: free_inv r)
  then show ?case using Cons.prems(2) by (auto simp: r fun_eq_iff)
qed simp

end

definition free_frame :: "u64 \<Rightarrow> machine \<Rightarrow> machine" where
  "free_frame pa m = m\<lparr>mpmm := pmm_free_page pa (mpmm m)\<rparr>"

interpretation pool: frame_pool "\<lambda>m. pmm_wf (mpmm m)" "\<lambda>m. pmm_refcount (mpmm m)"
  pmm_alloc_zero_page free_frame
proof
  fix m :: machine and pa
  assume wf: "pmm_wf (mpmm m)"
  obtain s' p where r: "pmm_alloc_page (mpmm m) = (s', p)" by fastforce
  show "pmm_wf (mpmm (fst (pmm_alloc_zero_page m)))"
    using pmm_alloc_page_wf[OF wf] by (simp add: pmm_alloc_zero_page_fst)
  show "pmm_refcount (mpmm (fst (pmm_alloc_zero_page m))) = pmm_refcount (mpmm m)"
    if "snd (pmm_alloc_zero_page m) = 0"
    using that pmm_alloc_page_none(1)[OF wf] r
    by (intro pages_of_refcount) (simp add: pmm_alloc_zero_page_fst)
  show "pmm_refcount (mpmm m) (snd (pmm_alloc_zero_page m)) = 0"
    if "snd (pmm_alloc_zero_page m) \<noteq> 0"
    using that pmm_alloc_page_refs(1)[OF wf r] r by (simp add: pmm_alloc_zero_page_fst)
  show "pmm_refcount (mpmm (fst (pmm_alloc_zero_page m))) =
      (pmm_refcount (mpmm m))(snd (pmm_alloc_zero_page m) := 1)"
    if "snd (pmm_alloc_zero_page m) \<noteq> 0"
    using that pmm_alloc_page_refs(2)[OF wf r] r by (simp add: pmm_alloc_zero_page_fst)
  show "pmm_wf (mpmm (free_frame pa m))"
    using pmm_free_page_wf[OF wf] by (simp add: free_frame_def)
  show "pmm_refcount (mpmm (free_frame pa m)) =
      (pmm_refcount (mpmm m))(pa := pmm_refcount (mpmm m) pa - 1)"
    if "pmm_refcount (mpmm m) pa \<noteq> 0"
    using that pmm_free_page_effect(2)[OF wf] by (simp add: free_frame_def)
qed


end
