(* ===== verification/Pmm_Properties.thy ===== *)
theory Pmm_Properties
  imports Pmm_Init
begin

text \<open>
  The properties of the page allocator, stated over the functions of
  \<^verbatim>\<open>mm/pmm.c\<close>, with a small concrete allocator state for their witnesses.
\<close>

subsection \<open>Runs of the allocator\<close>

text \<open>Every sequence of calls the kernel can make after \<^verbatim>\<open>pmm_init\<close>.\<close>

inductive pmm_reachable :: "pmm \<Rightarrow> bool" where
  init: "pmm_reachable (pmm_init hhdm_offset memmap)"
| alloc: "pmm_reachable s \<Longrightarrow> pmm_reachable (fst (pmm_alloc_page s))"
| contiguous: "pmm_reachable s \<Longrightarrow> pmm_reachable (fst (pmm_alloc_contiguous_pages count s))"
| free: "pmm_reachable s \<Longrightarrow> pmm_reachable (pmm_free_page pa s)"
| share: "pmm_reachable s \<Longrightarrow> pmm_reachable (fst (pmm_share_page pa s))"

lemma pmm_init_wf: "pmm_wf (pmm_init hhdm_offset memmap)"
  using pmm_init_cases[of hhdm_offset memmap] by (auto simp: pmm_wf_def div_round_up_def)

lemma alloc_contiguous_wf:
  assumes wf: "pmm_wf s"
  shows "pmm_wf (fst (pmm_alloc_contiguous_pages count s))"
proof (cases "0 < count \<and> count \<le> tracked_page_count s \<and> first_page \<le> tracked_page_count s")
  case True
  then have "run_outcome s count (pmm_alloc_contiguous_pages count s)"
    using alloc_contiguous_outcome[OF wf] by simp
  then show ?thesis
    unfolding run_outcome_def using wf fold_set_used_wf[OF wf] pages_of_wf by metis
next
  case False
  then have "pages_of (fst (pmm_alloc_contiguous_pages count s)) = pages_of s"
    by (auto simp: pmm_alloc_contiguous_pages_def)
  then show ?thesis using wf pages_of_wf by blast
qed

lemma pmm_share_page_wf: "pmm_wf s \<Longrightarrow> pmm_wf (fst (pmm_share_page pa s))"
  using pmm_share_page_effect(1) pmm_share_page_fail by metis

lemma pmm_reachable_imp_wf: "pmm_reachable s \<Longrightarrow> pmm_wf s"
  by (induction rule: pmm_reachable.induct)
    (simp_all add: pmm_init_wf pmm_alloc_page_wf alloc_contiguous_wf pmm_free_page_wf
      pmm_share_page_wf)

lemma free_count_pages: "pages_of s = pages_of t \<Longrightarrow> free_page_count s = free_page_count t"
  by (simp add: pages_of_def)

subsection \<open>A concrete allocator\<close>

text \<open>260 tracked pages; the four pages from 1 MiB on are free.\<close>

definition demo_pmm :: pmm where
  "demo_pmm = \<lparr>hhdm_base = 0xffff000000000000,
     bitmap = [- 1, - 1, - 1, - 1, 0xfffffffffffffff0],
     refcounts = replicate 260 0, tracked_page_count = 260, bitmap_word_count = 5,
     total_page_count = 4, free_page_count = 4, next_free_page = 256,
     metadata_start_page = 0, metadata_page_count = 0,
     stats = \<lparr>alloc_attempts = 0, alloc_successes = 0, alloc_failures = 0,
              bitmap_words_scanned = 0\<rparr>\<rparr>"

lemma demo_page_used: "p < 260 \<Longrightarrow> page_used demo_pmm p \<longleftrightarrow> p < 256"
proof (cases "p < 256")
  case True
  then have "p div 64 < 4" by simp
  then have "p div 64 \<in> {0, 1, 2, 3}" by auto
  with True show ?thesis by (auto simp: page_used_def demo_pmm_def)
next
  case False
  moreover assume "p < 260"
  ultimately have "p \<in> {256, 257, 258, 259}" by auto
  then show ?thesis by (auto simp: page_used_def demo_pmm_def)
qed

lemma demo_pmm_wf: "pmm_wf demo_pmm"
proof -
  have "{p. p < 260 \<and> \<not> page_used demo_pmm p} = {256..<260}"
    using demo_page_used by auto
  then show ?thesis
    by (simp add: pmm_wf_def demo_pmm_def div_round_up_def)
qed

lemma demo_simps [simp]:
  "tracked_page_count demo_pmm = 260" "next_free_page demo_pmm = 256"
  "free_page_count demo_pmm = 4" "refcounts demo_pmm = replicate 260 0"
  by (simp_all add: demo_pmm_def)

lemma demo_pick: "pick_page demo_pmm = Some 256"
proof -
  have "first_free demo_pmm 256 260 = Some 256"
    by (simp add: first_free_Some demo_page_used)
  then show ?thesis by (simp add: pick_page_def alloc_hint_def)
qed

lemma demo_alloc: "snd (pmm_alloc_page demo_pmm) = 0x100000"
  using pmm_alloc_page_pages[OF demo_pmm_wf] by (simp add: PAGE_SIZE_def demo_pick)

lemma demo_alloc_refs:
  "pmm_refcount (fst (pmm_alloc_page demo_pmm)) 0x100000 = 1"
  "pmm_wf (fst (pmm_alloc_page demo_pmm))"
  using pmm_alloc_page_refs(2)[OF demo_pmm_wf, of "fst (pmm_alloc_page demo_pmm)" "0x100000"]
    demo_alloc pmm_alloc_page_wf[OF demo_pmm_wf]
  by (simp_all add: prod_eq_iff)

text \<open>The memory map of the repository's own allocator test: 16 usable pages at 1 MiB.\<close>

definition demo_memmap :: "spore_memmap_entry list" where
  "demo_memmap = [\<lparr>me_base = 0x100000, me_length = 0x10000, me_type = SPORE_MEMMAP_USABLE\<rparr>]"

lemma free_entry_pages_frame [simp]:
  "tracked_page_count (free_entry_pages e s) = tracked_page_count s"
  "metadata_start_page (free_entry_pages e s) = metadata_start_page s"
  "metadata_page_count (free_entry_pages e s) = metadata_page_count s"
proof -
  have f: "tracked_page_count (fold count_and_free ps s) = tracked_page_count s"
    "metadata_start_page (fold count_and_free ps s) = metadata_start_page s"
    "metadata_page_count (fold count_and_free ps s) = metadata_page_count s" for ps s
    by (induction ps arbitrary: s) simp_all
  show "tracked_page_count (free_entry_pages e s) = tracked_page_count s"
    "metadata_start_page (free_entry_pages e s) = metadata_start_page s"
    "metadata_page_count (free_entry_pages e s) = metadata_page_count s"
    unfolding free_entry_pages_def by (rule f)+
qed

lemma free_usable_frame [simp]:
  "tracked_page_count (free_usable memmap s) = tracked_page_count s"
  "metadata_start_page (free_usable memmap s) = metadata_start_page s"
  "metadata_page_count (free_usable memmap s) = metadata_page_count s"
  by (induction memmap arbitrary: s) simp_all

lemma demo_init:
  "tracked_page_count (pmm_init 0 demo_memmap) = 272"
  "metadata_start_page (pmm_init 0 demo_memmap) = 256"
  "metadata_page_count (pmm_init 0 demo_memmap) = 1"
  by (simp_all add: pmm_init_def demo_memmap_def entry_start_def entry_end_def align_up_def
      align_down_def PAGE_SIZE_def SPORE_MEMMAP_USABLE_def div_round_up_def Let_def del: upt_rec_numeral)

subsection \<open>Properties\<close>

text \<open>
  C1. In every state the allocator can reach from \<open>pmm_init\<close> by any sequence of calls, on any
  memory map, the bitmap and the reference-count table have the sizes of the tracked memory,
  a page whose bitmap bit is clear has no references, and \<open>free_page_count\<close> is the number of
  clear bits: allocation bookkeeping never drifts.
\<close>

theorem pmm_reachable_wf:
  assumes "pmm_reachable s"
  shows "length (refcounts s) = tracked_page_count s \<and>
    length (bitmap s) = div_round_up (tracked_page_count s) 64 \<and>
    (\<forall>p < tracked_page_count s. \<not> page_used s p \<longrightarrow> refcounts s ! p = 0) \<and>
    free_page_count s = card {p. p < tracked_page_count s \<and> \<not> page_used s p}"
  using pmm_reachable_imp_wf[OF assms] by (simp add: pmm_wf_def)

theorem pmm_reachable_wf_witness:
  "pmm_reachable (fst (pmm_alloc_page (pmm_init 0 []))) \<and>
   length (refcounts (fst (pmm_alloc_page (pmm_init 0 [])))) =
     tracked_page_count (fst (pmm_alloc_page (pmm_init 0 [])))"
proof -
  have r: "pmm_reachable (fst (pmm_alloc_page (pmm_init 0 [])))"
    by (intro pmm_reachable.intros)
  show ?thesis using r pmm_reachable_wf[OF r] by simp
qed

text \<open>
  C2. Initialisation frees exactly the right pages: after \<open>pmm_init\<close> a tracked page is free if
  and only if it lies in a usable entry of the memory map, at or above 1 MiB, and outside the
  pages that hold the allocator's own tables.
\<close>

theorem pmm_init_free_pages:
  assumes "q < tracked_page_count (pmm_init hhdm_offset memmap)"
  shows "\<not> page_used (pmm_init hhdm_offset memmap) q \<longleftrightarrow>
    usable_page memmap q \<and> 0x100000 \<le> q * 4096 \<and>
    \<not> (metadata_start_page (pmm_init hhdm_offset memmap) \<le> q \<and>
       q < metadata_start_page (pmm_init hhdm_offset memmap) +
           metadata_page_count (pmm_init hhdm_offset memmap))"
  using pmm_init_cases[of hhdm_offset memmap] assms by auto

theorem pmm_init_free_pages_witness:
  "260 < tracked_page_count (pmm_init 0 demo_memmap) \<and> \<not> page_used (pmm_init 0 demo_memmap) 260"
proof -
  have "usable_page demo_memmap 260"
    by (simp add: usable_page_def demo_memmap_def entry_start_def entry_end_def align_up_def
        align_down_def PAGE_SIZE_def)
  then show ?thesis using pmm_init_free_pages[of 260 0 demo_memmap] by (simp add: demo_init)
qed

text \<open>
  C3. A page that \<open>pmm_alloc_page\<close> returns is page aligned, at or above 1 MiB, inside tracked
  memory, was free and unreferenced before the call, has exactly one reference after it, and
  no other page's reference count changes; the free-page counter goes down by one.
\<close>

theorem pmm_alloc_page_fresh:
  assumes "pmm_wf s" "pmm_alloc_page s = (s', pa)" "pa \<noteq> 0"
  shows "pmm_wf s' \<and> pa mod PAGE_SIZE = 0 \<and> 0x100000 \<le> unat pa \<and>
    page_of pa < tracked_page_count s \<and> \<not> page_used s (page_of pa) \<and>
    pmm_refcount s pa = 0 \<and> pmm_refcount s' = (pmm_refcount s)(pa := 1) \<and>
    free_page_count s = Suc (free_page_count s')"
proof -
  obtain p where p: "pa = page_addr p" "first_page \<le> p" "p < tracked_page_count s"
    "\<not> page_used s p" "pages_of s' = pages_of (set_used p s)"
    using pmm_alloc_page_took[OF assms] by blast
  have lt: "p < 2 ^ 52" using tracked_lt[OF assms(1) p(3)] .
  have "p \<in> free_set s" using p by (simp add: free_set_def)
  then have "0 < free_page_count s"
    using pmm_wf_free_count[OF assms(1)] by (auto simp: card_gt_0_iff)
  then have "free_page_count s = Suc (free_page_count s')"
    using free_count_pages[OF p(5)] free_count_set_used[OF assms(1) p(3)] p(4) by simp
  moreover have "pmm_wf s'" using pmm_alloc_page_wf[OF assms(1)] assms(2) by simp
  ultimately show ?thesis
    using p lt pmm_alloc_page_refs[OF assms] by (simp add: unat_page_addr)
qed

theorem pmm_alloc_page_fresh_witness:
  "\<exists>s'. pmm_alloc_page demo_pmm = (s', 0x100000) \<and> pmm_refcount s' 0x100000 = 1 \<and>
     free_page_count s' = 3"
proof -
  have r: "pmm_alloc_page demo_pmm = (fst (pmm_alloc_page demo_pmm), 0x100000)"
    using demo_alloc by (simp add: prod_eq_iff)
  show ?thesis using pmm_alloc_page_fresh[OF demo_pmm_wf r] r
    by (intro exI[of _ "fst (pmm_alloc_page demo_pmm)"]) simp
qed

text \<open>
  C4. The word-at-a-time bitmap scan implements next-fit exactly: \<open>pmm_alloc_page\<close> returns the
  first free page at or after the allocation hint, else the first free page from 1 MiB up to
  the hint, as the page-by-page reference search finds it; it fails (returns 0) only when
  every tracked page at or above 1 MiB is in use.
\<close>

theorem pmm_alloc_page_next_fit:
  assumes "pmm_wf s"
  shows "snd (pmm_alloc_page s) = (case pick_page s of None \<Rightarrow> 0 | Some p \<Rightarrow> page_addr p) \<and>
    (snd (pmm_alloc_page s) = 0 \<longleftrightarrow>
       (\<forall>p. first_page \<le> p \<and> p < tracked_page_count s \<longrightarrow> page_used s p))"
  using pmm_alloc_page_pages[OF assms] pick_page_None[of s]
  by (auto split: option.splits)

theorem pmm_alloc_page_next_fit_witness:
  "pmm_wf demo_pmm \<and> snd (pmm_alloc_page demo_pmm) = 0x100000"
  using pmm_alloc_page_next_fit[OF demo_pmm_wf] demo_pmm_wf by (simp add: demo_pick PAGE_SIZE_def)

text \<open>
  C5. \<open>pmm_alloc_contiguous_pages\<close> returns the lowest run of \<open>count\<close> free pages at or above
  1 MiB, gives every page of the run one reference and changes no other reference count; it
  returns 0 exactly when there is no such run, and then no reference count changes.
\<close>

theorem pmm_alloc_contiguous_spec:
  assumes wf: "pmm_wf s" and "0 < count" "count \<le> tracked_page_count s"
    "first_page \<le> tracked_page_count s" and r: "pmm_alloc_contiguous_pages count s = (s', pa)"
  shows "if \<exists>r. first_page \<le> r \<and> r + count \<le> tracked_page_count s \<and> free_run s r count
    then first_page \<le> page_of pa \<and> page_of pa + count \<le> tracked_page_count s \<and>
      pa = page_addr (page_of pa) \<and> free_run s (page_of pa) count \<and>
      (\<forall>q. first_page \<le> q \<and> q < page_of pa \<longrightarrow> \<not> free_run s q count) \<and>
      (\<forall>q < tracked_page_count s. refcounts s' ! q =
         (if page_of pa \<le> q \<and> q < page_of pa + count then 1 else refcounts s ! q))
    else pa = 0 \<and> pages_of s' = pages_of s"
proof -
  have o: "run_outcome s count (s', pa)" using alloc_contiguous_outcome[OF assms(1-4)] r by simp
  show ?thesis
  proof (cases "\<exists>r. first_page \<le> r \<and> r + count \<le> tracked_page_count s \<and> free_run s r count")
    case False
    with o show ?thesis by (auto simp: run_outcome_def)
  next
    case True
    with o obtain r where r: "first_page \<le> r" "r + count \<le> tracked_page_count s"
      "free_run s r count" "\<forall>q. first_page \<le> q \<and> q < r \<longrightarrow> \<not> free_run s q count"
      "pa = page_addr r" "pages_of s' = pages_of (fold set_used [r..<r + count] s)"
      by (auto simp: run_outcome_def)
    have "r < tracked_page_count s" using r(2) assms(2) by simp
    then have pr: "page_of pa = r" using page_of_addr[OF tracked_lt[OF wf]] by (simp add: r(5))
    have "refcounts s' ! q = (if r \<le> q \<and> q < r + count then 1 else refcounts s ! q)"
      if q: "q < tracked_page_count s" for q
    proof -
      have "refcounts s' = refcounts (fold set_used [r..<r + count] s)"
        using r(6) by (simp add: pages_of_def)
      then show ?thesis
        using refcounts_fold_set_used[OF wf q, of "[r..<r + count]"] r(3) unused_refcount[OF wf q]
        by (auto simp: free_run_iff)
    qed
    then show ?thesis using True r(1-5) pr by auto
  qed
qed

theorem pmm_alloc_contiguous_spec_witness:
  "\<exists>s' pa. pmm_alloc_contiguous_pages 3 demo_pmm = (s', pa) \<and> free_run demo_pmm (page_of pa) 3 \<and>
     256 \<le> page_of pa"
proof -
  obtain s' pa where r: "pmm_alloc_contiguous_pages 3 demo_pmm = (s', pa)" by fastforce
  have run: "\<exists>r. first_page \<le> r \<and> r + 3 \<le> tracked_page_count demo_pmm \<and> free_run demo_pmm r 3"
    by (rule exI[of _ 256]) (auto simp: free_run_iff demo_page_used)
  have "free_run demo_pmm (page_of pa) 3 \<and> 256 \<le> page_of pa"
    using pmm_alloc_contiguous_spec[OF demo_pmm_wf _ _ _ r] unfolding if_P[OF run] by simp
  with r show ?thesis by blast
qed

text \<open>
  C6. Sharing and releasing balance: sharing succeeds exactly on a page with between 1 and 65534
  references, adds one reference and nothing else, and a following release gives back every
  reference count; releasing the last reference makes the page free again, releasing an
  earlier one keeps it in use, and releasing an unreferenced address changes nothing.
\<close>

theorem pmm_share_free_balance:
  assumes "pmm_wf s"
  shows "(snd (pmm_share_page pa s) \<longleftrightarrow> 0 < unat (pmm_refcount s pa) \<and> unat (pmm_refcount s pa) < 0xffff) \<and>
    (snd (pmm_share_page pa s) \<longrightarrow>
       unat (pmm_refcount (fst (pmm_share_page pa s)) pa) = unat (pmm_refcount s pa) + 1 \<and>
       pmm_refcount (pmm_free_page pa (fst (pmm_share_page pa s))) = pmm_refcount s) \<and>
    (pmm_refcount s pa \<noteq> 0 \<longrightarrow>
       page_used (pmm_free_page pa s) (page_of pa) = (pmm_refcount s pa \<noteq> 1) \<and>
       unat (pmm_refcount (pmm_free_page pa s) pa) = unat (pmm_refcount s pa) - 1) \<and>
    (pmm_refcount s pa = 0 \<longrightarrow> pmm_free_page pa s = s)"
proof -
  let ?r = "pmm_refcount s pa"
  have "unat ?r \<noteq> unat (0xffff :: u16) \<longleftrightarrow> ?r \<noteq> 0xffff" by (simp only: word_unat_eq_iff)
  moreover have "unat ?r < 2 ^ 16" using unsigned_less[of ?r] by simp
  ultimately have max: "?r \<noteq> 0xffff \<longleftrightarrow> unat ?r < 0xffff" by auto
  have a: "snd (pmm_share_page pa s) \<longleftrightarrow> 0 < unat ?r \<and> unat ?r < 0xffff"
    using pmm_share_page_succeeds[OF assms, of pa] max by (simp add: unat_gt_0)
  have b: "unat (pmm_refcount (fst (pmm_share_page pa s)) pa) = unat ?r + 1 \<and>
      pmm_refcount (pmm_free_page pa (fst (pmm_share_page pa s))) = pmm_refcount s"
    if ok: "snd (pmm_share_page pa s)"
  proof -
    note e = pmm_share_page_effect[OF assms ok]
    have u: "unat (?r + 1) = unat ?r + 1" using a ok by (simp add: unat_word_ariths)
    then have "?r + 1 \<noteq> 0" by (metis Suc_eq_plus1 nat.distinct(1) unat_0)
    then have "pmm_refcount (pmm_free_page pa (fst (pmm_share_page pa s))) = pmm_refcount s"
      using pmm_free_page_effect(2)[OF e(1), of pa] by (simp add: e(2))
    with u show ?thesis by (simp add: e(2))
  qed
  have c: "page_used (pmm_free_page pa s) (page_of pa) = (?r \<noteq> 1) \<and>
      unat (pmm_refcount (pmm_free_page pa s) pa) = unat ?r - 1" if nz: "?r \<noteq> 0"
  proof -
    have "page_of pa < tracked_page_count s" using pmm_refcount_nonzero[OF assms nz] by blast
    then show ?thesis
      using pmm_free_page_effect(2,3)[OF assms nz] nz by (simp add: unat_minus_one)
  qed
  show ?thesis using a b c pmm_free_page_other[OF assms] by blast
qed

theorem pmm_share_free_balance_witness:
  "pmm_wf (fst (pmm_alloc_page demo_pmm)) \<and>
   snd (pmm_share_page 0x100000 (fst (pmm_alloc_page demo_pmm)))"
  using pmm_share_free_balance[OF demo_alloc_refs(2), of "0x100000"] demo_alloc_refs by simp

end
