(* ===== verification/Vfs_Node.thy ===== *)
theory Vfs_Node
  imports Spore_Prelude
begin

text \<open>
  The file node handle of \<^verbatim>\<open>kernel/src/include/vfs.h\<close>, as it is copied into open
  files and into file mappings: the back ends, the device kinds of
  \<^verbatim>\<open>kernel/src/include/ramfs.h\<close> and the embedded back-end nodes. Pointers to the one
  RAM file system are left out; a RAM node is its index in that file system's node array.
\<close>

datatype vfs_backend = VFS_NONE | VFS_RAMFS | VFS_EXT2 | VFS_PROC

datatype ramfs_mount =
    RAMFS_MOUNT_RAM0 | RAMFS_MOUNT_DEV | RAMFS_MOUNT_PROC | RAMFS_MOUNT_SYS
  | RAMFS_MOUNT_TMP | RAMFS_MOUNT_RUN

datatype ramfs_device =
    RAMFS_DEV_NONE | RAMFS_DEV_NULL | RAMFS_DEV_ZERO | RAMFS_DEV_FULL | RAMFS_DEV_RANDOM
  | RAMFS_DEV_URANDOM | RAMFS_DEV_CONSOLE | RAMFS_DEV_TTY | RAMFS_DEV_PTMX | RAMFS_DEV_PTS
  | RAMFS_DEV_PROCINFO | RAMFS_DEV_MEMINFO | RAMFS_DEV_CPUINFO | RAMFS_DEV_UPTIME
  | RAMFS_DEV_LOADAVG | RAMFS_DEV_MOUNTS | RAMFS_DEV_STAT | RAMFS_DEV_NET_DEV | RAMFS_DEV_KMSG
  | RAMFS_DEV_FILESYSTEMS | RAMFS_DEV_PARTITIONS | RAMFS_DEV_DEVICES | RAMFS_DEV_FSSTATS
  | RAMFS_DEV_PROC_PID_STAT | RAMFS_DEV_PROC_PID_STATUS | RAMFS_DEV_PROC_PID_CMDLINE
  | RAMFS_DEV_PROC_PID_STATM | RAMFS_DEV_PROC_PID_COMM | RAMFS_DEV_PROC_PID_MOUNTS
  | RAMFS_DEV_PROC_PID_CWD | RAMFS_DEV_PROC_PID_EXE | RAMFS_DEV_PROC_PID_FD
  | RAMFS_DEV_FS_ROOT | RAMFS_DEV_FS_BOOT | RAMFS_DEV_FS_RAM0 | RAMFS_DEV_FS_TMP
  | RAMFS_DEV_SYS_CPU_POSSIBLE | RAMFS_DEV_SYS_CPU_PRESENT | RAMFS_DEV_SYS_CPU_ONLINE
  | RAMFS_DEV_SYS_CPU_CORE_ONLINE | RAMFS_DEV_BLK_ROOT | RAMFS_DEV_BLK_BOOT

record ext2_node =
  en_ino :: u32
  en_mode :: u16
  en_links_count :: u16
  en_uid :: u16
  en_gid :: u16
  en_size :: u32
  en_atime :: u32
  en_ctime :: u32
  en_mtime :: u32
  en_sectors_count :: u32
  en_blocks :: "u32 list"

record vfs_node =
  backend :: vfs_backend
  ino :: u64
  is_dir :: bool
  writable :: bool
  device :: ramfs_device
  mode :: u16
  links_count :: u16
  node_uid :: u32
  node_gid :: u32
  seals :: u32
  shared_write_mappings :: u32
  sealable :: bool
  dev_id :: u64
  rdev :: u64
  atime :: u64
  ctime :: u64
  mtime :: u64
  proc_pid :: int
  proc_fd :: int
  node_size :: u64
  ramfs_index :: int
  ext2 :: ext2_node

text \<open>A zeroed node, what \<^verbatim>\<open>kmemset(slot, 0, ...)\<close> leaves in an embedded handle.\<close>

definition zero_ext2_node :: ext2_node where
  "zero_ext2_node = \<lparr>en_ino = 0, en_mode = 0, en_links_count = 0, en_uid = 0, en_gid = 0,
     en_size = 0, en_atime = 0, en_ctime = 0, en_mtime = 0, en_sectors_count = 0,
     en_blocks = replicate 15 0\<rparr>"

definition zero_node :: vfs_node where
  "zero_node = \<lparr>backend = VFS_NONE, ino = 0, is_dir = False, writable = False,
     device = RAMFS_DEV_NONE, mode = 0, links_count = 0, node_uid = 0, node_gid = 0, seals = 0,
     shared_write_mappings = 0, sealable = False, dev_id = 0, rdev = 0, atime = 0, ctime = 0,
     mtime = 0, proc_pid = 0, proc_fd = 0, node_size = 0, ramfs_index = 0,
     ext2 = zero_ext2_node\<rparr>"

text \<open>
  What the other components ask of a node's file: the calls of \<^verbatim>\<open>vfs_retain_node\<close>,
  \<^verbatim>\<open>vfs_release_node\<close> and \<^verbatim>\<open>vfs_note_shared_writable_mapping\<close>, in the order they
  are made.
\<close>

datatype vfs_call =
    Retain vfs_node
  | Release vfs_node
  | NoteShared vfs_node bool

text \<open>The file a node stands for, as \<^verbatim>\<open>compatible\<close> of \<^verbatim>\<open>mm/vma.c\<close> compares it.\<close>

definition node_key :: "vfs_node \<Rightarrow> vfs_backend \<times> u64 \<times> u64" where
  "node_key n = (backend n, ino n, dev_id n)"

fun ref_change :: "vfs_backend \<times> u64 \<times> u64 \<Rightarrow> vfs_call \<Rightarrow> int" where
  "ref_change k (Retain n) = (if node_key n = k then 1 else 0)"
| "ref_change k (Release n) = (if node_key n = k then -1 else 0)"
| "ref_change k (NoteShared n add) = 0"

fun shared_change :: "vfs_backend \<times> u64 \<times> u64 \<Rightarrow> vfs_call \<Rightarrow> int" where
  "shared_change k (NoteShared n add) = (if node_key n = k then if add then 1 else -1 else 0)"
| "shared_change k (Retain n) = 0"
| "shared_change k (Release n) = 0"

definition net_refs :: "vfs_backend \<times> u64 \<times> u64 \<Rightarrow> vfs_call list \<Rightarrow> int" where
  "net_refs k cs = sum_list (map (ref_change k) cs)"

definition net_shared :: "vfs_backend \<times> u64 \<times> u64 \<Rightarrow> vfs_call list \<Rightarrow> int" where
  "net_shared k cs = sum_list (map (shared_change k) cs)"

lemma net_simps [simp]:
  "net_refs k (cs @ ds) = net_refs k cs + net_refs k ds"
  "net_refs k (c # cs) = ref_change k c + net_refs k cs"
  "net_refs k [] = 0"
  "net_shared k (cs @ ds) = net_shared k cs + net_shared k ds"
  "net_shared k (c # cs) = shared_change k c + net_shared k cs"
  "net_shared k [] = 0"
  by (simp_all add: net_refs_def net_shared_def)

end
