(* ===== verification/Vma.thy ===== *)
theory Vma
  imports Pmm_Init Vfs_Node
begin

text \<open>
  The list of virtual memory areas of an address space, \<^verbatim>\<open>kernel/src/mm/vma.c\<close> in its
  freestanding build. A list owns up to 64 chunks of one page each; \<open>slots\<close> is the
  concatenation of the chunk arrays, in the index order of \<^verbatim>\<open>vma_at\<close>, and
  \<open>chunk_pa\<close> the page of each chunk. The operations run on \<open>vma_sys\<close>: the machine
  the chunks are allocated from, the linear-map offset of
  \<^verbatim>\<open>vma_set_hhdm_offset\<close>, and the calls made to the virtual file system, in order.
  Every call site passes a list, so the NULL checks on it have no counterpart.
\<close>

subsection \<open>State\<close>

definition VMA_MAX_CHUNKS :: nat where
  "VMA_MAX_CHUNKS = 64"

text \<open>A \<^verbatim>\<open>struct vma\<close> is 376 bytes with the AArch64 ABI, so ten fit in a chunk.\<close>

definition VMAS_PER_CHUNK :: nat where
  "VMAS_PER_CHUNK = 4096 div 376"

definition MAP_SHARED :: u32 where
  "MAP_SHARED = 1"

definition VMM_USER_WRITE :: u32 where
  "VMM_USER_WRITE = 2"

datatype vma_type = VMA_ANON | VMA_STACK | VMA_FILE

record vma =
  v_used :: bool
  v_start :: u64
  v_end :: u64
  v_prot :: u32
  v_flags :: u32
  v_type :: vma_type
  v_file_node :: vfs_node
  v_file_start :: u64
  v_file_offset :: u64
  v_file_size :: u64

definition zero_vma :: vma where
  "zero_vma = \<lparr>v_used = False, v_start = 0, v_end = 0, v_prot = 0, v_flags = 0,
     v_type = VMA_ANON, v_file_node = zero_node, v_file_start = 0, v_file_offset = 0,
     v_file_size = 0\<rparr>"

record vma_list =
  slots :: "vma list"
  chunk_pa :: "u64 list"

record vma_sys =
  vs_machine :: machine
  vma_hhdm_offset :: u64
  vs_calls :: "vfs_call list"

subsection \<open>Operations\<close>

definition overlaps :: "u64 \<Rightarrow> u64 \<Rightarrow> u64 \<Rightarrow> u64 \<Rightarrow> bool" where
  "overlaps a_start a_end b_start b_end \<longleftrightarrow> a_start < b_end \<and> b_start < a_end"

definition compatible :: "vma \<Rightarrow> vma \<Rightarrow> bool" where
  "compatible a b \<longleftrightarrow>
     (if v_prot a \<noteq> v_prot b \<or> v_flags a \<noteq> v_flags b \<or> v_type a \<noteq> v_type b then False
      else if v_type a \<noteq> VMA_FILE then True
      else backend (v_file_node a) = backend (v_file_node b) \<and>
        ino (v_file_node a) = ino (v_file_node b) \<and>
        dev_id (v_file_node a) = dev_id (v_file_node b) \<and>
        v_file_start a = v_file_start b \<and> v_file_offset a = v_file_offset b \<and>
        v_file_size a = v_file_size b)"

definition vma_set_hhdm_offset :: "u64 \<Rightarrow> vma_sys \<Rightarrow> vma_sys" where
  "vma_set_hhdm_offset hhdm s = s\<lparr>vma_hhdm_offset := hhdm\<rparr>"

text \<open>The page of a new chunk, 0 when there is none.\<close>

definition chunk_alloc :: "vma_sys \<Rightarrow> vma_sys \<times> u64" where
  "chunk_alloc s =
     (if vma_hhdm_offset s = 0 then (s, 0)
      else let (m, pa) = pmm_alloc_zero_page (vs_machine s)
           in (s\<lparr>vs_machine := m\<rparr>, pa))"

definition chunk_free :: "u64 \<Rightarrow> vma_sys \<Rightarrow> vma_sys" where
  "chunk_free pa s =
     (if pa \<noteq> 0 then s\<lparr>vs_machine := free_frame pa (vs_machine s)\<rparr> else s)"

definition ensure_chunk :: "vma_sys \<Rightarrow> vma_list \<Rightarrow> bool \<times> vma_sys \<times> vma_list" where
  "ensure_chunk s l =
     (if VMA_MAX_CHUNKS \<le> length (chunk_pa l) then (False, s, l)
      else let (s, pa) = chunk_alloc s
           in if pa = 0 then (False, s, l)
              else (True, s, l\<lparr>slots := slots l @ replicate VMAS_PER_CHUNK zero_vma,
                               chunk_pa := chunk_pa l @ [pa]\<rparr>))"

definition vma_capacity :: "vma_list \<Rightarrow> nat" where
  "vma_capacity l = length (slots l)"

definition vma_at :: "vma_list \<Rightarrow> nat \<Rightarrow> vma option" where
  "vma_at l i = (if i \<ge> vma_capacity l then None else Some (slots l ! i))"

text \<open>The index of the first unused slot; a full list grows by a chunk and is searched again.\<close>

function alloc_slot :: "vma_sys \<Rightarrow> vma_list \<Rightarrow> nat option \<times> vma_sys \<times> vma_list" where
  "alloc_slot s l =
     (case find (\<lambda>i. \<not> v_used (slots l ! i)) [0..<vma_capacity l] of
        Some i \<Rightarrow> (Some i, s, l)
      | None \<Rightarrow> (case ensure_chunk s l of
          (ok, s', l') \<Rightarrow> if ok then alloc_slot s' l' else (None, s', l')))"
  by pat_completeness auto
termination
  by (relation "measure (\<lambda>(s, l). VMA_MAX_CHUNKS - length (chunk_pa l))")
    (auto simp: ensure_chunk_def split: if_splits prod.splits)

definition shared_writable :: "vma \<Rightarrow> bool" where
  "shared_writable v \<longleftrightarrow> v_flags v AND MAP_SHARED \<noteq> 0 \<and> v_prot v AND VMM_USER_WRITE \<noteq> 0"

definition vfs_calls :: "vfs_call list \<Rightarrow> vma_sys \<Rightarrow> vma_sys" where
  "vfs_calls cs s = s\<lparr>vs_calls := vs_calls s @ cs\<rparr>"

definition add_raw_vma :: "vma_sys \<Rightarrow> vma_list \<Rightarrow> vma \<Rightarrow> bool \<times> vma_sys \<times> vma_list" where
  "add_raw_vma s l src =
     (if v_start src \<ge> v_end src then (False, s, l)
      else case alloc_slot s l of
        (None, s, l) \<Rightarrow> (False, s, l)
      | (Some i, s, l) \<Rightarrow>
          (True,
           (if v_type src = VMA_FILE
            then vfs_calls (Retain (v_file_node src) #
                   (if shared_writable src then [NoteShared (v_file_node src) True] else [])) s
            else s),
           l\<lparr>slots := (slots l)[i := src\<lparr>v_used := True\<rparr>]\<rparr>))"

definition release_vma :: "nat \<Rightarrow> vma_sys \<Rightarrow> vma_list \<Rightarrow> vma_sys \<times> vma_list" where
  "release_vma i s l =
     (let v = slots l ! i
      in if \<not> v_used v then (s, l)
         else ((if v_type v = VMA_FILE
                then vfs_calls ((if shared_writable v then [NoteShared (v_file_node v) False] else []) @
                       [Release (v_file_node v)]) s
                else s),
               l\<lparr>slots := (slots l)[i := v\<lparr>v_used := False\<rparr>]\<rparr>))"

definition add_raw :: "vma_sys \<Rightarrow> vma_list \<Rightarrow> u64 \<Rightarrow> u64 \<Rightarrow> u32 \<Rightarrow> u32 \<Rightarrow> vma_type \<Rightarrow>
    bool \<times> vma_sys \<times> vma_list" where
  "add_raw s l start end prot flags type =
     (if start \<ge> end then (False, s, l)
      else case alloc_slot s l of
        (None, s, l) \<Rightarrow> (False, s, l)
      | (Some i, s, l) \<Rightarrow>
          (True, s, l\<lparr>slots := (slots l)[i := zero_vma\<lparr>v_used := True, v_start := start,
             v_end := end, v_prot := prot, v_flags := flags, v_type := type\<rparr>]\<rparr>))"

text \<open>
  The inner loop of \<^verbatim>\<open>merge_adjacent\<close> for the area at index \<open>i\<close>, from index
  \<open>j\<close> on. After a merge the code sets \<^verbatim>\<open>j = 0\<close> and the loop increment makes it 1.
\<close>

definition used_count :: "vma list \<Rightarrow> nat" where
  "used_count vs = length (filter v_used vs)"

lemma used_count_update:
  "i < length vs \<Longrightarrow>
   used_count (vs[i := x]) + (if v_used (vs ! i) then 1 else 0) =
   used_count vs + (if v_used x then 1 else 0)"
  unfolding used_count_def by (rule length_filter_update)

text \<open>Extend the area at \<open>i\<close> over the one at \<open>j\<close> and release the latter.\<close>

definition absorb_after :: "nat \<Rightarrow> nat \<Rightarrow> vma_sys \<Rightarrow> vma_list \<Rightarrow> vma_sys \<times> vma_list" where
  "absorb_after i j s l =
     release_vma j s (l\<lparr>slots := (slots l)[i := (slots l ! i)\<lparr>v_end := v_end (slots l ! j)\<rparr>]\<rparr>)"

definition absorb_before :: "nat \<Rightarrow> nat \<Rightarrow> vma_sys \<Rightarrow> vma_list \<Rightarrow> vma_sys \<times> vma_list" where
  "absorb_before i j s l =
     release_vma j s (l\<lparr>slots := (slots l)[i := (slots l ! i)\<lparr>v_start := v_start (slots l ! j)\<rparr>]\<rparr>)"

lemma absorb_length [simp]:
  "length (slots (snd (absorb_after i j s l))) = length (slots l)"
  "length (slots (snd (absorb_before i j s l))) = length (slots l)"
  by (simp_all add: absorb_after_def absorb_before_def release_vma_def Let_def)

lemma absorb_used_count:
  assumes "i < length (slots l)" "j < length (slots l)" "i \<noteq> j" "v_used (slots l ! j)"
  shows "used_count (slots (snd (absorb_after i j s l))) < used_count (slots l)"
    and "used_count (slots (snd (absorb_before i j s l))) < used_count (slots l)"
proof -
  have *: "used_count (slots (snd (release_vma j s (l\<lparr>slots := (slots l)[i := x]\<rparr>)))) <
      used_count (slots l)" if "v_used x = v_used (slots l ! i)" for x
    using used_count_update[of i "slots l" x] assms that
      used_count_update[of j "(slots l)[i := x]" "((slots l)[i := x] ! j)\<lparr>v_used := False\<rparr>"]
    by (simp add: release_vma_def Let_def split: if_splits)
  show "used_count (slots (snd (absorb_after i j s l))) < used_count (slots l)"
    "used_count (slots (snd (absorb_before i j s l))) < used_count (slots l)"
    unfolding absorb_after_def absorb_before_def by (simp_all add: *)
qed

function merge_scan :: "nat \<Rightarrow> nat \<Rightarrow> vma_sys \<Rightarrow> vma_list \<Rightarrow> vma_sys \<times> vma_list" where
  "merge_scan i j s l =
     (if i < vma_capacity l \<and> j < vma_capacity l then
        let a = slots l ! i; b = slots l ! j
        in if i = j \<or> \<not> v_used b then merge_scan i (j + 1) s l
           else if v_end a = v_start b \<and> compatible a b
                then merge_scan i (0 + 1) (fst (absorb_after i j s l)) (snd (absorb_after i j s l))
           else if v_end b = v_start a \<and> compatible a b
                then merge_scan i (0 + 1) (fst (absorb_before i j s l)) (snd (absorb_before i j s l))
           else merge_scan i (j + 1) s l
      else (s, l))"
  by pat_completeness auto
termination
  by (relation "measures [\<lambda>(i, j, s, l). used_count (slots l), \<lambda>(i, j, s, l). vma_capacity l - j]")
    (auto simp: vma_capacity_def absorb_used_count split_beta)

declare merge_scan.simps [simp del] alloc_slot.simps [simp del]

fun merge_from :: "nat list \<Rightarrow> vma_sys \<Rightarrow> vma_list \<Rightarrow> vma_sys \<times> vma_list" where
  "merge_from [] s l = (s, l)"
| "merge_from (i # is) s l =
     (if \<not> v_used (slots l ! i) then merge_from is s l
      else let (s, l) = merge_scan i 0 s l in merge_from is s l)"

definition merge_adjacent :: "vma_sys \<Rightarrow> vma_list \<Rightarrow> vma_sys \<times> vma_list" where
  "merge_adjacent s l = merge_from [0..<vma_capacity l] s l"

definition vma_list_init :: vma_list where
  "vma_list_init = \<lparr>slots = [], chunk_pa = []\<rparr>"

fun release_all :: "nat list \<Rightarrow> vma_sys \<Rightarrow> vma_list \<Rightarrow> vma_sys \<times> vma_list" where
  "release_all [] s l = (s, l)"
| "release_all (i # is) s l = (let (s, l) = release_vma i s l in release_all is s l)"

definition vma_list_destroy :: "vma_sys \<Rightarrow> vma_list \<Rightarrow> vma_sys \<times> vma_list" where
  "vma_list_destroy s l =
     (let (s, l) = release_all [0..<vma_capacity l] s l
      in (fold chunk_free (chunk_pa l) s, vma_list_init))"

definition vma_lookup :: "vma_list \<Rightarrow> u64 \<Rightarrow> vma option" where
  "vma_lookup l va = find (\<lambda>v. v_used v \<and> va \<ge> v_start v \<and> va < v_end v) (slots l)"

definition vma_lookup_range :: "vma_list \<Rightarrow> u64 \<Rightarrow> u64 \<Rightarrow> vma option" where
  "vma_lookup_range l start end =
     (if start \<ge> end then None
      else find (\<lambda>v. v_used v \<and> start \<ge> v_start v \<and> end \<le> v_end v) (slots l))"

definition vma_overlaps :: "vma_list \<Rightarrow> u64 \<Rightarrow> u64 \<Rightarrow> bool" where
  "vma_overlaps l start end \<longleftrightarrow>
     (if start \<ge> end then True
      else list_ex (\<lambda>v. v_used v \<and> overlaps start end (v_start v) (v_end v)) (slots l))"

definition vma_insert :: "vma_sys \<Rightarrow> vma_list \<Rightarrow> u64 \<Rightarrow> u64 \<Rightarrow> u32 \<Rightarrow> u32 \<Rightarrow> vma_type \<Rightarrow>
    bool \<times> vma_sys \<times> vma_list" where
  "vma_insert s l start end prot flags type =
     (if start \<ge> end then (False, s, l)
      else if vma_overlaps l start end then (False, s, l)
      else case add_raw s l start end prot flags type of
        (False, s, l) \<Rightarrow> (False, s, l)
      | (True, s, l) \<Rightarrow> (True, merge_adjacent s l))"

definition vma_insert_file :: "vma_sys \<Rightarrow> vma_list \<Rightarrow> u64 \<Rightarrow> u64 \<Rightarrow> u32 \<Rightarrow> u32 \<Rightarrow>
    vfs_node option \<Rightarrow> u64 \<Rightarrow> u64 \<Rightarrow> u64 \<Rightarrow> bool \<times> vma_sys \<times> vma_list" where
  "vma_insert_file s l start end prot flags node file_start file_offset file_size =
     (case node of
        None \<Rightarrow> (False, s, l)
      | Some n \<Rightarrow>
        if start \<ge> end \<or> is_dir n \<or> device n \<noteq> RAMFS_DEV_NONE then (False, s, l)
        else if vma_overlaps l start end then (False, s, l)
        else case alloc_slot s l of
          (None, s, l) \<Rightarrow> (False, s, l)
        | (Some i, s, l) \<Rightarrow>
            let v = zero_vma\<lparr>v_used := True, v_start := start, v_end := end, v_prot := prot,
                  v_flags := flags, v_type := VMA_FILE, v_file_node := n,
                  v_file_start := file_start, v_file_offset := file_offset,
                  v_file_size := file_size\<rparr>;
                s = vfs_calls (Retain n # (if shared_writable v then [NoteShared n True] else [])) s
            in (True, merge_adjacent s (l\<lparr>slots := (slots l)[i := v]\<rparr>)))"

text \<open>
  \<^verbatim>\<open>vma_remove\<close>, \<^verbatim>\<open>vma_protect\<close> and \<^verbatim>\<open>vma_clone\<close> build a new list by adding
  parts of each used area in turn; the first failure destroys the new list.
\<close>

fun add_all :: "vma_sys \<Rightarrow> vma_list \<Rightarrow> vma list \<Rightarrow> bool \<times> vma_sys \<times> vma_list" where
  "add_all s next [] = (True, s, next)"
| "add_all s next (p # ps) =
     (case add_raw_vma s next p of
        (False, s, next) \<Rightarrow> (False, vma_list_destroy s next)
      | (True, s, next) \<Rightarrow> add_all s next ps)"

definition remove_parts :: "u64 \<Rightarrow> u64 \<Rightarrow> vma \<Rightarrow> vma list" where
  "remove_parts start end v =
     (if \<not> v_used v then []
      else if \<not> overlaps start end (v_start v) (v_end v) then [v]
      else (if v_start v < start then [v\<lparr>v_end := start\<rparr>] else []) @
           (if end < v_end v then [v\<lparr>v_start := end\<rparr>] else []))"

definition vma_remove :: "vma_sys \<Rightarrow> vma_list \<Rightarrow> u64 \<Rightarrow> u64 \<Rightarrow> bool \<times> vma_sys \<times> vma_list" where
  "vma_remove s l start end =
     (if start \<ge> end then (False, s, l)
      else case add_all s vma_list_init (concat (map (remove_parts start end) (slots l))) of
        (False, s, next) \<Rightarrow> (False, s, l)
      | (True, s, next) \<Rightarrow>
          let (s, next) = merge_adjacent s next;
              (s, _) = vma_list_destroy s l
          in (True, s, next))"

definition protect_parts :: "u64 \<Rightarrow> u64 \<Rightarrow> u32 \<Rightarrow> vma \<Rightarrow> vma list" where
  "protect_parts start end prot v =
     (if \<not> v_used v then []
      else if \<not> overlaps start end (v_start v) (v_end v) then [v]
      else (if v_start v < start then [v\<lparr>v_end := start\<rparr>] else []) @
           [v\<lparr>v_start := (if v_start v > start then v_start v else start),
              v_end := (if v_end v < end then v_end v else end), v_prot := prot\<rparr>] @
           (if end < v_end v then [v\<lparr>v_start := end\<rparr>] else []))"

definition vma_protect :: "vma_sys \<Rightarrow> vma_list \<Rightarrow> u64 \<Rightarrow> u64 \<Rightarrow> u32 \<Rightarrow>
    bool \<times> vma_sys \<times> vma_list" where
  "vma_protect s l start end prot =
     (if start \<ge> end then (False, s, l)
      else case add_all s vma_list_init (concat (map (protect_parts start end prot) (slots l))) of
        (False, s, next) \<Rightarrow> (False, s, l)
      | (True, s, next) \<Rightarrow>
          let (s, next) = merge_adjacent s next;
              (s, _) = vma_list_destroy s l
          in (True, s, next))"

definition MAX_GROWDOWN_PAGES :: u64 where
  "MAX_GROWDOWN_PAGES = 2048"

text \<open>The third component is the copy of the grown area that \<^verbatim>\<open>out\<close> receives.\<close>

definition vma_grow_down :: "vma_list \<Rightarrow> u64 \<Rightarrow> u32 \<Rightarrow> bool \<times> vma_list \<times> vma option" where
  "vma_grow_down l page required_flags =
     (if page AND (PAGE_SIZE - 1) \<noteq> 0 then (False, l, None)
      else case find (\<lambda>i. \<not> (\<not> v_used (slots l ! i) \<or> page \<ge> v_start (slots l ! i) \<or>
             v_flags (slots l ! i) AND required_flags \<noteq> required_flags)) [0..<vma_capacity l] of
        None \<Rightarrow> (False, l, None)
      | Some i \<Rightarrow>
          let v = slots l ! i; grow_pages = (v_start v - page) div PAGE_SIZE
          in if grow_pages = 0 \<or> grow_pages > MAX_GROWDOWN_PAGES then (False, l, None)
             else if vma_overlaps l page (v_start v) then (False, l, None)
             else (True, l\<lparr>slots := (slots l)[i := v\<lparr>v_start := page\<rparr>]\<rparr>,
                   Some (v\<lparr>v_start := page\<rparr>)))"

definition vma_clone :: "vma_sys \<Rightarrow> vma_list \<Rightarrow> bool \<times> vma_sys \<times> vma_list" where
  "vma_clone s src = add_all s vma_list_init (filter v_used (slots src))"

definition vma_count :: "vma_list \<Rightarrow> nat" where
  "vma_count l = length (filter v_used (slots l))"

definition vma_virtual_pages :: "vma_list \<Rightarrow> u64" where
  "vma_virtual_pages l =
     fold (\<lambda>v pages. if \<not> v_used v then pages
             else pages + (v_end v - v_start v + PAGE_SIZE - 1) div PAGE_SIZE) (slots l) 0"

end
