(* ===== verification/Vma_Map.thy ===== *)
theory Vma_Map
  imports Vma
begin

text \<open>
  What a list of areas means: the attributes each address has. The slots of a list are
  disjoint areas (\<open>areas_ok\<close>), and merging, the one routine that rearranges them,
  keeps every address's attributes.
\<close>

subsection \<open>The address view\<close>

record vma_attrs =
  a_prot :: u32
  a_flags :: u32
  a_type :: vma_type
  a_file :: "((vfs_backend \<times> u64 \<times> u64) \<times> u64 \<times> u64 \<times> u64) option"

definition attrs :: "vma \<Rightarrow> vma_attrs" where
  "attrs v = \<lparr>a_prot = v_prot v, a_flags = v_flags v, a_type = v_type v,
     a_file = (if v_type v = VMA_FILE
       then Some (node_key (v_file_node v), v_file_start v, v_file_offset v, v_file_size v) else None)\<rparr>"

definition covers :: "vma \<Rightarrow> u64 \<Rightarrow> bool" where
  "covers v va \<longleftrightarrow> v_used v \<and> v_start v \<le> va \<and> va < v_end v"

definition view :: "vma list \<Rightarrow> u64 \<Rightarrow> vma_attrs option" where
  "view vs va = map_option attrs (find (\<lambda>v. covers v va) vs)"

definition apart :: "vma \<Rightarrow> vma \<Rightarrow> bool" where
  "apart a b \<longleftrightarrow> (\<forall>va. \<not> (covers a va \<and> covers b va))"

definition area_ok :: "vma \<Rightarrow> bool" where
  "area_ok v \<longleftrightarrow> (v_used v \<longrightarrow> v_start v < v_end v)"

definition areas_ok :: "vma list \<Rightarrow> bool" where
  "areas_ok vs \<longleftrightarrow> list_all area_ok vs \<and> sorted_wrt apart vs"

lemma compatible_attrs: "compatible a b \<longleftrightarrow> attrs a = attrs b"
  by (auto simp: compatible_def attrs_def node_key_def)

lemma apart_sym: "apart a b \<Longrightarrow> apart b a"
  by (auto simp: apart_def)

lemma areas_ok_nth:
  "areas_ok vs \<longleftrightarrow> (\<forall>i < length vs. area_ok (vs ! i)) \<and>
     (\<forall>i < length vs. \<forall>j < length vs. i \<noteq> j \<longrightarrow> apart (vs ! i) (vs ! j))"
  unfolding areas_ok_def list_all_length
  using sorted_wrt_sym_nth[of apart vs] apart_sym by blast

lemma covers_unused [simp]: "\<not> v_used v \<Longrightarrow> \<not> covers v va"
  by (simp add: covers_def)

lemma apart_unused [simp]: "\<not> v_used a \<Longrightarrow> apart a b" "\<not> v_used b \<Longrightarrow> apart a b"
  by (simp_all add: apart_def)

lemma view_None: "view vs va = None \<longleftrightarrow> (\<forall>v \<in> set vs. \<not> covers v va)"
  by (auto simp: view_def find_None_iff)

lemma view_nth:
  assumes "areas_ok vs" "i < length vs" "covers (vs ! i) va"
  shows "view vs va = Some (attrs (vs ! i))"
proof -
  have "find (\<lambda>v. covers v va) vs = Some (vs ! i)"
    unfolding find_Some_iff
  proof (intro exI[of _ i] conjI allI impI)
    fix j assume "j < i"
    then have "apart (vs ! i) (vs ! j)" using assms by (simp add: areas_ok_nth)
    then show "\<not> covers (vs ! j) va" using assms(3) by (auto simp: apart_def)
  qed (use assms in simp_all)
  then show ?thesis by (simp add: view_def)
qed

lemma view_Some:
  assumes "areas_ok vs"
  shows "view vs va = Some a \<longleftrightarrow> (\<exists>v \<in> set vs. covers v va \<and> attrs v = a)"
proof
  assume "view vs va = Some a"
  then show "\<exists>v \<in> set vs. covers v va \<and> attrs v = a"
    unfolding view_def by (auto simp: find_Some_iff)
next
  assume "\<exists>v \<in> set vs. covers v va \<and> attrs v = a"
  then obtain i where "i < length vs" "covers (vs ! i) va" "attrs (vs ! i) = a"
    by (auto simp: in_set_conv_nth)
  then show "view vs va = Some a" using view_nth[OF assms] by metis
qed

lemma view_eqI:
  assumes "areas_ok vs" "areas_ok ws"
    and "\<And>a. (\<exists>v \<in> set vs. covers v va \<and> attrs v = a) = (\<exists>w \<in> set ws. covers w va \<and> attrs w = a)"
  shows "view vs va = view ws va"
proof (cases "view ws va")
  case None
  then have "view vs va = None" using assms(3) unfolding view_None by blast
  with None show ?thesis by simp
next
  case (Some a)
  then have "view vs va = Some a" using assms(3)[of a] by (simp add: view_Some assms(1,2))
  with Some show ?thesis by simp
qed

lemma ex_set_split:
  assumes "i < length vs"
  shows "(\<exists>v \<in> set vs. P v) \<longleftrightarrow> P (vs ! i) \<or> (\<exists>j < length vs. j \<noteq> i \<and> P (vs ! j))"
proof -
  have "(\<exists>v \<in> set vs. P v) \<longleftrightarrow> (\<exists>j < length vs. P (vs ! j))"
    by (auto simp: in_set_conv_nth Bex_def)
  then show ?thesis using assms by auto
qed

lemma ex_set_split2:
  assumes "i < length vs" "j < length vs" "i \<noteq> j"
  shows "(\<exists>v \<in> set vs. P v) \<longleftrightarrow>
    P (vs ! i) \<or> P (vs ! j) \<or> (\<exists>k < length vs. k \<noteq> i \<and> k \<noteq> j \<and> P (vs ! k))"
  using ex_set_split[OF assms(1), of P] assms by auto

lemma ex_set_update:
  assumes "i < length vs"
  shows "(\<exists>v \<in> set (vs[i := x]). P v) \<longleftrightarrow> P x \<or> (\<exists>j < length vs. j \<noteq> i \<and> P (vs ! j))"
  using assms ex_set_split[of i "vs[i := x]" P] by auto

lemma view_append:
  "view (vs @ ws) va = (case view vs va of None \<Rightarrow> view ws va | Some a \<Rightarrow> Some a)"
  by (induction vs) (auto simp: view_def)

lemma view_Nil [simp]: "view [] = (\<lambda>va. None)"
  by (simp add: view_def fun_eq_iff)

lemma view_unused: "\<forall>v \<in> set vs. \<not> v_used v \<Longrightarrow> view vs = (\<lambda>va. None)"
  by (simp add: fun_eq_iff view_None)

lemma areas_ok_append_unused:
  assumes "areas_ok vs" "\<forall>v \<in> set ws. \<not> v_used v"
  shows "areas_ok (vs @ ws)"
  using assms unfolding areas_ok_def
  by (induction ws rule: rev_induct)
    (auto simp: sorted_wrt_append list_all_iff area_ok_def simp flip: append_assoc)

subsection \<open>Filling, releasing and merging slots\<close>

lemma put_area:
  assumes "areas_ok vs" "i < length vs" "\<not> v_used (vs ! i)" "area_ok x"
    and "\<And>va. covers x va \<Longrightarrow> view vs va = None"
  shows "areas_ok (vs[i := x])"
    and "view (vs[i := x]) va = (if covers x va then Some (attrs x) else view vs va)"
proof -
  have apart: "apart x (vs ! j)" if "j < length vs" for j
    unfolding apart_def using assms(5) that by (auto simp: view_None)
  show ok: "areas_ok (vs[i := x])"
    unfolding areas_ok_nth
  proof (intro conjI allI impI)
    fix j assume "j < length (vs[i := x])"
    then show "area_ok (vs[i := x] ! j)"
      using assms by (cases "j = i") (auto simp: areas_ok_nth)
  next
    fix j k assume "j < length (vs[i := x])" "k < length (vs[i := x])" "j \<noteq> k"
    then show "apart (vs[i := x] ! j) (vs[i := x] ! k)"
      using assms(1) apart[of j] apart[of k] apart_sym[of x]
      by (cases "j = i"; cases "k = i") (simp_all add: areas_ok_nth)
  qed
  show "view (vs[i := x]) va = (if covers x va then Some (attrs x) else view vs va)"
  proof (cases "covers x va")
    case True
    then show ?thesis using view_nth[OF ok, of i va] assms(2) by simp
  next
    case False
    have "\<not> covers (vs ! i) va" using assms(3) by simp
    then have "(\<exists>v \<in> set (vs[i := x]). covers v va \<and> attrs v = a) = (\<exists>v \<in> set vs. covers v va \<and> attrs v = a)" for a
      using False assms(2) by (simp add: ex_set_update ex_set_split[of i vs])
    then show ?thesis using view_eqI[OF ok assms(1)] False by simp
  qed
qed

lemma merge_pair:
  assumes ok: "areas_ok vs" and ij: "i < length vs" "j < length vs" "i \<noteq> j"
    and x: "area_ok x" "attrs x = attrs (vs ! i)" "attrs (vs ! i) = attrs (vs ! j)"
    and cov: "\<And>va. covers x va \<longleftrightarrow> covers (vs ! i) va \<or> covers (vs ! j) va"
    and y: "\<not> v_used y"
  shows "areas_ok (vs[i := x, j := y])" and "view (vs[i := x, j := y]) = view vs"
proof -
  have elem: "vs[i := x, j := y] ! k = (if k = j then y else if k = i then x else vs ! k)"
    if "k < length vs" for k
    using that ij by (simp add: nth_list_update)
  have apart: "apart x (vs ! k)" if "k < length vs" "k \<noteq> i" "k \<noteq> j" for k
  proof -
    have "apart (vs ! i) (vs ! k)" "apart (vs ! j) (vs ! k)" using ok ij that by (simp_all add: areas_ok_nth)
    then show ?thesis unfolding apart_def cov by blast
  qed
  show ok': "areas_ok (vs[i := x, j := y])"
    unfolding areas_ok_nth length_list_update
  proof (intro conjI allI impI)
    fix k assume "k < length vs"
    then show "area_ok (vs[i := x, j := y] ! k)"
      unfolding elem[OF \<open>k < length vs\<close>]
      using ok x(1) y by (simp add: areas_ok_nth area_ok_def)
  next
    fix k m assume km: "k < length vs" "m < length vs" "k \<noteq> m"
    then have "apart (vs ! k) (vs ! m)" using ok by (simp add: areas_ok_nth)
    then show "apart (vs[i := x, j := y] ! k) (vs[i := x, j := y] ! m)"
      using km apart[of k] apart[of m] y by (auto simp: elem intro: apart_sym)
  qed
  show "view (vs[i := x, j := y]) = view vs"
  proof
    fix va
    have "(\<exists>v \<in> set (vs[i := x, j := y]). covers v va \<and> attrs v = a) = (\<exists>v \<in> set vs. covers v va \<and> attrs v = a)" for a
    proof -
      define R where "R \<longleftrightarrow> (\<exists>k < length vs. k \<noteq> i \<and> k \<noteq> j \<and> covers (vs ! k) va \<and> attrs (vs ! k) = a)"
      have "(\<exists>v \<in> set (vs[i := x, j := y]). covers v va \<and> attrs v = a) \<longleftrightarrow> covers x va \<and> attrs x = a \<or> R"
        unfolding R_def using ij y by (simp add: ex_set_split2[of i _ j] cong: conj_cong)
      moreover have "(\<exists>v \<in> set vs. covers v va \<and> attrs v = a) \<longleftrightarrow>
          covers (vs ! i) va \<and> attrs (vs ! i) = a \<or> covers (vs ! j) va \<and> attrs (vs ! j) = a \<or> R"
        unfolding R_def using ij by (simp add: ex_set_split2[of i _ j])
      ultimately show ?thesis using x(2,3) cov[of va] by auto
    qed
    then show "view (vs[i := x, j := y]) va = view vs va" by (rule view_eqI[OF ok' ok])
  qed
qed

lemma adjacent_cover:
  assumes "area_ok a" "area_ok b" "v_used a" "v_used b" "v_end a = v_start b"
  shows "covers (a\<lparr>v_end := v_end b\<rparr>) va \<longleftrightarrow> covers a va \<or> covers b va"
    and "covers (b\<lparr>v_start := v_start a\<rparr>) va \<longleftrightarrow> covers a va \<or> covers b va"
  using assms unfolding covers_def area_ok_def
  by (auto simp: not_less dest: order.strict_trans1 order.strict_trans2 less_imp_le)

lemma attrs_range [simp]:
  "attrs (v\<lparr>v_end := x\<rparr>) = attrs v" "attrs (v\<lparr>v_start := x\<rparr>) = attrs v"
  "attrs (v\<lparr>v_used := u\<rparr>) = attrs v"
  by (simp_all add: attrs_def)

lemma absorb_slots:
  assumes "i < length (slots l)" "j < length (slots l)" "i \<noteq> j" "v_used (slots l ! j)"
  shows "slots (snd (absorb_after i j s l)) =
      (slots l)[i := (slots l ! i)\<lparr>v_end := v_end (slots l ! j)\<rparr>, j := (slots l ! j)\<lparr>v_used := False\<rparr>]"
    and "slots (snd (absorb_before i j s l)) =
      (slots l)[i := (slots l ! i)\<lparr>v_start := v_start (slots l ! j)\<rparr>, j := (slots l ! j)\<lparr>v_used := False\<rparr>]"
    and "chunk_pa (snd (absorb_after i j s l)) = chunk_pa l"
    and "chunk_pa (snd (absorb_before i j s l)) = chunk_pa l"
  using assms by (simp_all add: absorb_after_def absorb_before_def release_vma_def Let_def)

lemma absorb_view:
  assumes ok: "areas_ok (slots l)" and ij: "i < length (slots l)" "j < length (slots l)" "i \<noteq> j"
    and u: "v_used (slots l ! i)" "v_used (slots l ! j)"
    and c: "compatible (slots l ! i) (slots l ! j)"
  shows "v_end (slots l ! i) = v_start (slots l ! j) \<Longrightarrow>
      areas_ok (slots (snd (absorb_after i j s l))) \<and> view (slots (snd (absorb_after i j s l))) = view (slots l)"
    and "v_end (slots l ! j) = v_start (slots l ! i) \<Longrightarrow>
      areas_ok (slots (snd (absorb_before i j s l))) \<and> view (slots (snd (absorb_before i j s l))) = view (slots l)"
proof -
  let ?a = "slots l ! i" and ?b = "slots l ! j"
  have ab: "area_ok ?a" "area_ok ?b" using ok ij by (simp_all add: areas_ok_nth)
  have eq: "attrs ?a = attrs ?b" using c by (simp add: compatible_attrs)
  { assume e: "v_end ?a = v_start ?b"
    have x: "area_ok (?a\<lparr>v_end := v_end ?b\<rparr>)"
      using ab u e by (simp add: area_ok_def)
    show "areas_ok (slots (snd (absorb_after i j s l))) \<and> view (slots (snd (absorb_after i j s l))) = view (slots l)"
      unfolding absorb_slots(1)[OF ij u(2)]
      using merge_pair[OF ok ij x _ eq adjacent_cover(1)[OF ab u e]] by simp }
  { assume e: "v_end ?b = v_start ?a"
    have x: "area_ok (?a\<lparr>v_start := v_start ?b\<rparr>)"
      using ab u e by (simp add: area_ok_def)
    have cov: "covers (?a\<lparr>v_start := v_start ?b\<rparr>) va \<longleftrightarrow> covers ?a va \<or> covers ?b va" for va
      using adjacent_cover(2)[OF ab(2,1) u(2,1) e] by blast
    show "areas_ok (slots (snd (absorb_before i j s l))) \<and> view (slots (snd (absorb_before i j s l))) = view (slots l)"
      unfolding absorb_slots(2)[OF ij u(2)]
      using merge_pair[OF ok ij x _ eq cov] by simp }
qed

end
