(* ===== verification/Vma_Steps.thy ===== *)
theory Vma_Steps
  imports Vma_Map
begin

text \<open>
  Effects of the list operations on everything a list owns: the pages of its chunks and the
  references its file areas hold on file nodes. \<open>steps\<close> says that an operation moved
  from one system and list to another without touching what others own.
\<close>

subsection \<open>Ownership\<close>

abbreviation refs :: "vma_sys \<Rightarrow> u64 \<Rightarrow> u16" where
  "refs s \<equiv> pmm_refcount (mpmm (vs_machine s))"

definition vma_res :: "vma_sys \<Rightarrow> vma_list \<Rightarrow> bool" where
  "vma_res s l \<longleftrightarrow> pmm_wf (mpmm (vs_machine s)) \<and>
     length (slots l) = length (chunk_pa l) * VMAS_PER_CHUNK \<and>
     length (chunk_pa l) \<le> VMA_MAX_CHUNKS \<and> distinct (chunk_pa l) \<and>
     (\<forall>p \<in> set (chunk_pa l). p \<noteq> 0 \<and> refs s p = 1)"

text \<open>The reference counts of all pages but the list's own.\<close>

definition others :: "vma_sys \<Rightarrow> vma_list \<Rightarrow> u64 \<Rightarrow> u16" where
  "others s l = (\<lambda>q. if q \<in> set (chunk_pa l) then 0 else refs s q)"

definition file_ref :: "vfs_backend \<times> u64 \<times> u64 \<Rightarrow> vma \<Rightarrow> bool" where
  "file_ref k v \<longleftrightarrow> v_used v \<and> v_type v = VMA_FILE \<and> node_key (v_file_node v) = k"

definition shared_ref :: "vfs_backend \<times> u64 \<times> u64 \<Rightarrow> vma \<Rightarrow> bool" where
  "shared_ref k v \<longleftrightarrow> file_ref k v \<and> shared_writable v"

definition file_refs :: "vfs_backend \<times> u64 \<times> u64 \<Rightarrow> vma list \<Rightarrow> int" where
  "file_refs k vs = int (length (filter (file_ref k) vs))"

definition shared_refs :: "vfs_backend \<times> u64 \<times> u64 \<Rightarrow> vma list \<Rightarrow> int" where
  "shared_refs k vs = int (length (filter (shared_ref k) vs))"

text \<open>References taken through the list's calls and not accounted for by its areas.\<close>

definition books :: "vma_sys \<Rightarrow> vma_list \<Rightarrow> vfs_backend \<times> u64 \<times> u64 \<Rightarrow> int \<times> int" where
  "books s l k = (net_refs k (vs_calls s) - file_refs k (slots l),
                  net_shared k (vs_calls s) - shared_refs k (slots l))"

definition steps :: "vma_sys \<Rightarrow> vma_list \<Rightarrow> vma_sys \<Rightarrow> vma_list \<Rightarrow> bool" where
  "steps s l s' l' \<longleftrightarrow> (vma_res s l \<longrightarrow>
     vma_res s' l' \<and> others s' l' = others s l \<and> books s' l' = books s l)"

lemma steps_refl [simp]: "steps s l s l"
  by (simp add: steps_def)

lemma steps_trans: "steps s l s' l' \<Longrightarrow> steps s' l' s'' l'' \<Longrightarrow> steps s l s'' l''"
  by (simp add: steps_def)

lemma refs_update:
  assumes "i < length vs"
  shows "file_refs k (vs[i := x]) =
      file_refs k vs - (if file_ref k (vs ! i) then 1 else 0) + (if file_ref k x then 1 else 0)"
    and "shared_refs k (vs[i := x]) =
      shared_refs k vs - (if shared_ref k (vs ! i) then 1 else 0) + (if shared_ref k x then 1 else 0)"
  using length_filter_update[OF assms, of "file_ref k" x]
    length_filter_update[OF assms, of "shared_ref k" x]
  by (auto simp: file_refs_def shared_refs_def split: if_splits)

lemma refs_unused [simp]: "\<not> v_used v \<Longrightarrow> \<not> file_ref k v" "\<not> v_used v \<Longrightarrow> \<not> shared_ref k v"
  by (simp_all add: file_ref_def shared_ref_def)

lemma refs_append [simp]:
  "file_refs k (vs @ ws) = file_refs k vs + file_refs k ws"
  "shared_refs k (vs @ ws) = shared_refs k vs + shared_refs k ws"
  "file_refs k [] = 0" "shared_refs k [] = 0"
  by (simp_all add: file_refs_def shared_refs_def)

lemma refs_all_unused:
  assumes "\<forall>v \<in> set vs. \<not> v_used v"
  shows "file_refs k vs = 0" "shared_refs k vs = 0"
  using assms by (simp_all add: file_refs_def shared_refs_def filter_empty_conv)

lemma vfs_calls_frame [simp]:
  "vs_machine (vfs_calls cs s) = vs_machine s" "vs_calls (vfs_calls cs s) = vs_calls s @ cs"
  "vma_hhdm_offset (vfs_calls cs s) = vma_hhdm_offset s"
  by (simp_all add: vfs_calls_def)

lemma zero_vma_unused [simp]: "v_used zero_vma = False"
  by (simp add: zero_vma_def)

subsection \<open>Chunks and slots\<close>

lemma ensure_chunk_ok:
  assumes "ensure_chunk s l = (True, s', l')"
  shows "steps s l s' l'" and "slots l' = slots l @ replicate VMAS_PER_CHUNK zero_vma"
proof -
  obtain m pa where r: "pmm_alloc_zero_page (vs_machine s) = (m, pa)" by fastforce
  have res: "s' = s\<lparr>vs_machine := m\<rparr>" "pa \<noteq> 0" "length (chunk_pa l) < VMA_MAX_CHUNKS"
    "l' = l\<lparr>slots := slots l @ replicate VMAS_PER_CHUNK zero_vma, chunk_pa := chunk_pa l @ [pa]\<rparr>"
    using assms r by (auto simp: ensure_chunk_def chunk_alloc_def split: if_splits)
  show "slots l' = slots l @ replicate VMAS_PER_CHUNK zero_vma" by (simp add: res)
  show "steps s l s' l'"
    unfolding steps_def
  proof
    assume vr: "vma_res s l"
    then have wf: "pmm_wf (mpmm (vs_machine s))" by (simp add: vma_res_def)
    have fresh: "refs s pa = 0" and rf: "refs s' = (refs s)(pa := 1)" and wf': "pmm_wf (mpmm m)"
      using pool.alloc_fresh[OF wf] pool.alloc_refs[OF wf] pool.alloc_inv[OF wf] r res(1,2) by simp_all
    have new: "pa \<notin> set (chunk_pa l)" using vr fresh by (auto simp: vma_res_def)
    have "vma_res s' l'"
      using vr wf' new res(2,3) rf by (auto simp: vma_res_def res(1,4) algebra_simps)
    moreover have "others s' l' = others s l"
      using rf fresh by (auto simp: others_def fun_eq_iff res(4))
    moreover have "books s' l' = books s l"
      by (simp add: books_def res(1,4) fun_eq_iff refs_all_unused)
    ultimately show "vma_res s' l' \<and> others s' l' = others s l \<and> books s' l' = books s l" by simp
  qed
qed

lemma ensure_chunk_fail:
  assumes "ensure_chunk s l = (False, s', l')"
  shows "l' = l" and "steps s l s' l"
proof -
  obtain m pa where r: "pmm_alloc_zero_page (vs_machine s) = (m, pa)" by fastforce
  show "l' = l" using assms by (auto simp: ensure_chunk_def split: if_splits prod.splits)
  have "s' = s \<or> s' = s\<lparr>vs_machine := m\<rparr> \<and> pa = 0"
    using assms r by (auto simp: ensure_chunk_def chunk_alloc_def split: if_splits)
  then show "steps s l s' l"
  proof
    assume s': "s' = s\<lparr>vs_machine := m\<rparr> \<and> pa = 0"
    { assume "vma_res s l"
      then have wf: "pmm_wf (mpmm (vs_machine s))" by (simp add: vma_res_def)
      have "refs s' = refs s" "pmm_wf (mpmm m)"
        using pool.alloc_none[OF wf] pool.alloc_inv[OF wf] r s' by simp_all }
    then show ?thesis using s' by (auto simp: steps_def vma_res_def others_def books_def)
  qed simp
qed

text \<open>What \<open>alloc_slot\<close> returns: a free slot of a list that only got longer.\<close>

lemma alloc_slot_Some:
  assumes "alloc_slot s l = (Some i, s', l')"
  shows "steps s l s' l' \<and> i < length (slots l') \<and> \<not> v_used (slots l' ! i) \<and>
    (\<exists>n. slots l' = slots l @ replicate n zero_vma)"
  using assms
proof (induction s l rule: alloc_slot.induct)
  case (1 s l)
  show ?case
  proof (cases "find (\<lambda>i. \<not> v_used (slots l ! i)) [0..<vma_capacity l]")
    case (Some k)
    then have "k < length (slots l) \<and> \<not> v_used (slots l ! k)"
      by (auto simp: find_Some_iff vma_capacity_def)
    moreover have "i = k" "s' = s" "l' = l" using 1(2) Some by (simp_all add: alloc_slot.simps)
    ultimately show ?thesis by (auto intro: exI[of _ 0])
  next
    case None
    obtain ok s1 l1 where e: "ensure_chunk s l = (ok, s1, l1)" by (metis prod_cases3)
    then have ok: "ok" and rec: "alloc_slot s1 l1 = (Some i, s', l')"
      using 1(2) None by (auto simp: alloc_slot.simps[of s l] split: if_splits)
    have IH: "steps s1 l1 s' l' \<and> i < length (slots l') \<and> \<not> v_used (slots l' ! i) \<and>
        (\<exists>n. slots l' = slots l1 @ replicate n zero_vma)"
      using 1(1)[OF None e[symmetric] refl ok rec] .
    have "steps s l s1 l1" "slots l1 = slots l @ replicate VMAS_PER_CHUNK zero_vma"
      using ensure_chunk_ok e ok by simp_all
    moreover have "slots l @ replicate VMAS_PER_CHUNK zero_vma @ replicate n zero_vma =
        slots l @ replicate (VMAS_PER_CHUNK + n) zero_vma" for n
      by (simp add: replicate_add)
    ultimately show ?thesis using IH steps_trans by fastforce
  qed
qed

lemma alloc_slot_None:
  assumes "alloc_slot s l = (None, s', l')"
  shows "steps s l s' l' \<and> (\<exists>n. slots l' = slots l @ replicate n zero_vma)"
  using assms
proof (induction s l rule: alloc_slot.induct)
  case (1 s l)
  obtain ok s1 l1 where e: "ensure_chunk s l = (ok, s1, l1)" by (metis prod_cases3)
  have None: "find (\<lambda>i. \<not> v_used (slots l ! i)) [0..<vma_capacity l] = None"
    using 1(2) by (auto simp: alloc_slot.simps[of s l] split: option.splits)
  show ?case
  proof (cases ok)
    case True
    then have rec: "alloc_slot s1 l1 = (None, s', l')"
      using 1(2) None e by (simp add: alloc_slot.simps[of s l])
    have "steps s l s1 l1" "slots l1 = slots l @ replicate VMAS_PER_CHUNK zero_vma"
      using ensure_chunk_ok e True by simp_all
    moreover have "slots l @ replicate VMAS_PER_CHUNK zero_vma @ replicate n zero_vma =
        slots l @ replicate (VMAS_PER_CHUNK + n) zero_vma" for n
      by (simp add: replicate_add)
    ultimately show ?thesis using 1(1)[OF None e[symmetric] refl True rec] steps_trans by fastforce
  next
    case False
    then have "s' = s1" "l' = l1" using 1(2) None e by (simp_all add: alloc_slot.simps[of s l])
    moreover have "ensure_chunk s l = (False, s1, l1)" using e False by simp
    note ensure_chunk_fail[OF this]
    ultimately show ?thesis by (auto intro: exI[of _ 0])
  qed
qed

subsection \<open>Adding and releasing areas\<close>

lemma put_slot_steps:
  assumes "i < length (slots l)" "\<not> v_used (slots l ! i)"
    and "\<And>k. net_refs k cs = (if file_ref k x then 1 else 0)"
    and "\<And>k. net_shared k cs = (if shared_ref k x then 1 else 0)"
  shows "steps s l (vfs_calls cs s) (l\<lparr>slots := (slots l)[i := x]\<rparr>)"
  using assms
  by (auto simp: steps_def vma_res_def others_def books_def fun_eq_iff refs_update)

definition retain_calls :: "vma \<Rightarrow> vfs_call list" where
  "retain_calls v = (if v_type v = VMA_FILE then Retain (v_file_node v) #
     (if shared_writable v then [NoteShared (v_file_node v) True] else []) else [])"

lemma retain_calls_net:
  assumes "v_used x" "v_type x = v_type v" "v_file_node x = v_file_node v" "v_flags x = v_flags v"
    "v_prot x = v_prot v"
  shows "net_refs k (retain_calls v) = (if file_ref k x then 1 else 0)"
    and "net_shared k (retain_calls v) = (if shared_ref k x then 1 else 0)"
  using assms by (auto simp: retain_calls_def file_ref_def shared_ref_def shared_writable_def)

lemma view_grown:
  assumes "areas_ok (slots l)" "slots l' = slots l @ replicate n zero_vma"
  shows "areas_ok (slots l')" "view (slots l') = view (slots l)"
proof -
  have "view (slots l @ replicate n zero_vma) va = view (slots l) va" for va
    unfolding view_append using view_unused[of "replicate n zero_vma"] by (simp split: option.split)
  then show "view (slots l') = view (slots l)" by (simp add: assms(2) fun_eq_iff)
  show "areas_ok (slots l')" unfolding assms(2) by (rule areas_ok_append_unused[OF assms(1)]) simp
qed

lemma vfs_calls_Nil [simp]: "vfs_calls [] s = s"
  by (simp add: vfs_calls_def)

lemma add_raw_vma_cases:
  assumes "add_raw_vma s l src = (ok, s', l')"
  obtains (bad) "\<not> ok" "v_start src \<ge> v_end src" "s' = s" "l' = l"
  | (full) "\<not> ok" "v_start src < v_end src" "alloc_slot s l = (None, s', l')"
  | (added) i s1 l1 where "ok" "v_start src < v_end src" "alloc_slot s l = (Some i, s1, l1)"
      "s' = vfs_calls (retain_calls src) s1" "l' = l1\<lparr>slots := (slots l1)[i := src\<lparr>v_used := True\<rparr>]\<rparr>"
proof -
  obtain o1 s1 l1 where a: "alloc_slot s l = (o1, s1, l1)" by (metis prod_cases3)
  show ?thesis
  proof (cases "v_start src \<ge> v_end src")
    case True
    then show ?thesis using assms bad by (simp add: add_raw_vma_def)
  next
    case False
    then show ?thesis
      using assms a full added by (cases o1) (auto simp: add_raw_vma_def retain_calls_def)
  qed
qed

lemma add_raw_vma_steps:
  assumes "add_raw_vma s l src = (ok, s', l')"
  shows "steps s l s' l'"
  using assms
proof (cases rule: add_raw_vma_cases)
  case full
  then show ?thesis using alloc_slot_None by blast
next
  case (added i s1 l1)
  have a: "steps s l s1 l1" "i < length (slots l1)" "\<not> v_used (slots l1 ! i)"
    using alloc_slot_Some[OF added(3)] by auto
  show ?thesis unfolding added(4,5)
    by (rule steps_trans[OF a(1) put_slot_steps[OF a(2,3)]])
      (rule retain_calls_net; simp)+
qed simp

lemma add_raw_vma_view:
  assumes "add_raw_vma s l src = (True, s', l')" "areas_ok (slots l)"
    and "\<And>va. covers (src\<lparr>v_used := True\<rparr>) va \<Longrightarrow> view (slots l) va = None"
  shows "areas_ok (slots l')"
    and "view (slots l') va = (if covers (src\<lparr>v_used := True\<rparr>) va then Some (attrs src) else view (slots l) va)"
proof -
  obtain i s1 l1 where r: "v_start src < v_end src" "alloc_slot s l = (Some i, s1, l1)"
    "l' = l1\<lparr>slots := (slots l1)[i := src\<lparr>v_used := True\<rparr>]\<rparr>"
    using assms(1) by (cases rule: add_raw_vma_cases) auto
  obtain n where a: "i < length (slots l1)" "\<not> v_used (slots l1 ! i)" "slots l1 = slots l @ replicate n zero_vma"
    using alloc_slot_Some[OF r(2)] by auto
  have ok: "area_ok (src\<lparr>v_used := True\<rparr>)" using r(1) by (simp add: area_ok_def)
  note g = view_grown[OF assms(2) a(3)]
  note p = put_area[OF g(1) a(1,2) ok, unfolded g(2), OF assms(3)]
  show "areas_ok (slots l')" using p(1) by (simp add: r(3))
  show "view (slots l') va = (if covers (src\<lparr>v_used := True\<rparr>) va then Some (attrs src) else view (slots l) va)"
    using p(2) by (simp add: r(3))
qed

lemma release_vma_steps:
  assumes "i < length (slots l)" "release_vma i s l = (s', l')"
  shows "steps s l s' l'"
proof (cases "v_used (slots l ! i)")
  case True
  then show ?thesis
    using assms
    by (auto simp: release_vma_def Let_def steps_def vma_res_def others_def books_def fun_eq_iff refs_update
        file_ref_def shared_ref_def split: if_splits)
qed (use assms in \<open>simp add: release_vma_def\<close>)

lemma unused_same: "\<not> v_used v \<Longrightarrow> v\<lparr>v_used := False\<rparr> = v"
  by (cases v) simp

lemma release_vma_slots:
  "slots (snd (release_vma i s l)) = (slots l)[i := (slots l ! i)\<lparr>v_used := False\<rparr>]"
  "chunk_pa (snd (release_vma i s l)) = chunk_pa l"
  by (auto simp: release_vma_def Let_def unused_same)

lemma release_all_steps:
  assumes "\<forall>i \<in> set is. i < length (slots l)" "release_all is s l = (s', l')"
  shows "steps s l s' l' \<and> length (slots l') = length (slots l) \<and> chunk_pa l' = chunk_pa l \<and>
    (\<forall>i < length (slots l). i \<in> set is \<or> \<not> v_used (slots l ! i) \<longrightarrow> \<not> v_used (slots l' ! i))"
  using assms
proof (induction "is" arbitrary: s l)
  case (Cons i "is")
  obtain s1 l1 where r: "release_vma i s l = (s1, l1)" by fastforce
  have l1: "slots l1 = (slots l)[i := (slots l ! i)\<lparr>v_used := False\<rparr>]" "chunk_pa l1 = chunk_pa l"
    using release_vma_slots[of i s l] r by simp_all
  have "release_all is s1 l1 = (s', l')" using Cons.prems(2) r by simp
  from Cons.IH[OF _ this] have IH: "steps s1 l1 s' l' \<and> length (slots l') = length (slots l1) \<and>
      chunk_pa l' = chunk_pa l1 \<and>
      (\<forall>i < length (slots l1). i \<in> set is \<or> \<not> v_used (slots l1 ! i) \<longrightarrow> \<not> v_used (slots l' ! i))"
    using Cons.prems(1) l1 by simp
  have "steps s l s1 l1" using release_vma_steps[OF _ r] Cons.prems(1) by simp
  then have "steps s l s' l'" using IH steps_trans by blast
  moreover have "\<not> v_used (slots l1 ! k)" if "k < length (slots l)" "k = i \<or> \<not> v_used (slots l ! k)" for k
    using that by (cases "k = i") (auto simp: l1)
  ultimately show ?case using IH l1 by simp
qed simp

lemma fold_chunk_free:
  assumes "\<forall>p \<in> set ps. p \<noteq> 0"
  shows "vs_machine (fold chunk_free ps s) = fold free_frame ps (vs_machine s)"
    and "vs_calls (fold chunk_free ps s) = vs_calls s"
  using assms by (induction ps arbitrary: s) (auto simp: chunk_free_def)

lemma vma_list_destroy_steps:
  assumes "vma_list_destroy s l = (s', l')"
  shows "l' = vma_list_init" and "steps s l s' vma_list_init"
proof -
  obtain s1 l1 where r: "release_all [0..<vma_capacity l] s l = (s1, l1)" by fastforce
  have a: "steps s l s1 l1" "length (slots l1) = length (slots l)" "chunk_pa l1 = chunk_pa l"
    "\<forall>v \<in> set (slots l1). \<not> v_used v"
    using release_all_steps[OF _ r] by (auto simp: vma_capacity_def in_set_conv_nth)
  have s': "s' = fold chunk_free (chunk_pa l1) s1" and "l' = vma_list_init"
    using assms r by (auto simp: vma_list_destroy_def)
  then show "l' = vma_list_init" by simp
  have "steps s1 l1 s' vma_list_init"
    unfolding steps_def
  proof
    assume vr: "vma_res s1 l1"
    have f: "vs_machine s' = fold free_frame (chunk_pa l1) (vs_machine s1)" "vs_calls s' = vs_calls s1"
      using fold_chunk_free vr by (simp_all add: s' vma_res_def)
    have "refs s' = others s1 l1"
      unfolding f others_def using vr by (intro pool.fold_free_refs) (simp_all add: vma_res_def)
    moreover have "pmm_wf (mpmm (vs_machine s'))"
      unfolding f using vr by (intro pool.fold_free_inv) (simp add: vma_res_def)
    ultimately show "vma_res s' vma_list_init \<and> others s' vma_list_init = others s1 l1 \<and>
        books s' vma_list_init = books s1 l1"
      using a(4) f by (auto simp: vma_res_def vma_list_init_def others_def books_def refs_all_unused)
  qed
  then show "steps s l s' vma_list_init" using a(1) steps_trans by blast
qed

end
