(* ===== verification/Vma_Ops.thy ===== *)
theory Vma_Ops
  imports Vma_Steps
begin

text \<open>
  The exported operations of \<^verbatim>\<open>mm/vma.c\<close> against the address view: merging keeps the
  view and leaves no two mergeable neighbours, and insertion, removal, protection, growth
  and cloning change the view the way their callers rely on.
\<close>

subsection \<open>Merging\<close>

lemma absorb_steps:
  assumes "i < length (slots l)" "j < length (slots l)" "i \<noteq> j"
  shows "steps s l (fst (absorb_after i j s l)) (snd (absorb_after i j s l))"
    and "steps s l (fst (absorb_before i j s l)) (snd (absorb_before i j s l))"
proof -
  have *: "steps s l (fst (release_vma j s (l\<lparr>slots := (slots l)[i := x]\<rparr>)))
      (snd (release_vma j s (l\<lparr>slots := (slots l)[i := x]\<rparr>)))"
    if "\<And>k. file_ref k x = file_ref k (slots l ! i)" "\<And>k. shared_ref k x = shared_ref k (slots l ! i)" for x
  proof (rule steps_trans)
    show "steps s l s (l\<lparr>slots := (slots l)[i := x]\<rparr>)"
      using assms that
      by (auto simp: steps_def vma_res_def others_def books_def fun_eq_iff refs_update)
    show "steps s (l\<lparr>slots := (slots l)[i := x]\<rparr>) (fst (release_vma j s (l\<lparr>slots := (slots l)[i := x]\<rparr>)))
        (snd (release_vma j s (l\<lparr>slots := (slots l)[i := x]\<rparr>)))"
      by (rule release_vma_steps[OF _ surjective_pairing]) (use assms in simp)
  qed
  show "steps s l (fst (absorb_after i j s l)) (snd (absorb_after i j s l))"
    "steps s l (fst (absorb_before i j s l)) (snd (absorb_before i j s l))"
    unfolding absorb_after_def absorb_before_def
    by (rule *; simp add: file_ref_def shared_ref_def shared_writable_def)+
qed

text \<open>What every absorption of a compatible neighbour preserves, merging preserves.\<close>

definition absorbable :: "nat \<Rightarrow> nat \<Rightarrow> vma_list \<Rightarrow> bool" where
  "absorbable i j l \<longleftrightarrow> i < length (slots l) \<and> j < length (slots l) \<and> i \<noteq> j \<and>
     v_used (slots l ! i) \<and> v_used (slots l ! j) \<and> compatible (slots l ! i) (slots l ! j)"

lemma absorbable_used:
  assumes "absorbable i j l"
  shows "v_used (slots (snd (absorb_after i j s l)) ! i)" "v_used (slots (snd (absorb_before i j s l)) ! i)"
  using assms by (simp_all add: absorbable_def absorb_slots)

lemma merge_scan_induct [consumes 1, case_names stop skip after_i before_i]:
  assumes u: "v_used (slots l ! i)"
    and stop: "\<And>j s l. v_used (slots l ! i) \<Longrightarrow> \<not> (i < length (slots l) \<and> j < length (slots l)) \<Longrightarrow> P j s l (s, l)"
    and skip: "\<And>j s l r. v_used (slots l ! i) \<Longrightarrow> i < length (slots l) \<Longrightarrow> j < length (slots l) \<Longrightarrow>
      i = j \<or> \<not> v_used (slots l ! j) \<or> \<not> compatible (slots l ! i) (slots l ! j) \<or>
        v_end (slots l ! i) \<noteq> v_start (slots l ! j) \<and> v_end (slots l ! j) \<noteq> v_start (slots l ! i) \<Longrightarrow>
      P (j + 1) s l r \<Longrightarrow> P j s l r"
    and after_i: "\<And>j s l r. absorbable i j l \<Longrightarrow> v_end (slots l ! i) = v_start (slots l ! j) \<Longrightarrow>
      P 1 (fst (absorb_after i j s l)) (snd (absorb_after i j s l)) r \<Longrightarrow> P j s l r"
    and before_i: "\<And>j s l r. absorbable i j l \<Longrightarrow> v_end (slots l ! j) = v_start (slots l ! i) \<Longrightarrow>
      P 1 (fst (absorb_before i j s l)) (snd (absorb_before i j s l)) r \<Longrightarrow> P j s l r"
  shows "P j s l (merge_scan i j s l)"
proof -
  have "i = i' \<longrightarrow> v_used (slots l ! i') \<longrightarrow> P j s l (merge_scan i' j s l)" for i'
  proof (induction i' j s l rule: merge_scan.induct)
    case (1 i' j s l)
    let ?a = "slots l ! i'" and ?b = "slots l ! j"
    show ?case
    proof (intro impI)
      assume i': "i = i'" and u: "v_used ?a"
      consider "\<not> (i' < vma_capacity l \<and> j < vma_capacity l)"
        | "i' < vma_capacity l \<and> j < vma_capacity l" "i' = j \<or> \<not> v_used ?b"
        | "i' < vma_capacity l \<and> j < vma_capacity l" "\<not> (i' = j \<or> \<not> v_used ?b)" "v_end ?a = v_start ?b \<and> compatible ?a ?b"
        | "i' < vma_capacity l \<and> j < vma_capacity l" "\<not> (i' = j \<or> \<not> v_used ?b)" "\<not> (v_end ?a = v_start ?b \<and> compatible ?a ?b)"
          "v_end ?b = v_start ?a \<and> compatible ?a ?b"
        | "i' < vma_capacity l \<and> j < vma_capacity l" "\<not> (i' = j \<or> \<not> v_used ?b)" "\<not> (v_end ?a = v_start ?b \<and> compatible ?a ?b)"
          "\<not> (v_end ?b = v_start ?a \<and> compatible ?a ?b)"
        by blast
      then show "P j s l (merge_scan i' j s l)"
      proof cases
        case 1
        then have "merge_scan i' j s l = (s, l)" by (subst merge_scan.simps) auto
        then show ?thesis using stop[of l j s] 1 i' u by (simp add: vma_capacity_def)
      next
        case c: 2
        then have "merge_scan i' j s l = merge_scan i' (j + 1) s l" by (subst merge_scan.simps) simp
        moreover have "P (j + 1) s l (merge_scan i' (j + 1) s l)"
          using 1(1)[OF c(1) refl refl c(2)] i' u by blast
        moreover have "i = j \<or> \<not> v_used ?b" using c(2) i' by blast
        ultimately show ?thesis using skip[of l j s "merge_scan i' (j + 1) s l"] c(1) i' u
          by (simp only: vma_capacity_def) blast
      next
        case c: 3
        then have ab: "absorbable i j l" using i' u by (auto simp: absorbable_def vma_capacity_def)
        have "merge_scan i' j s l = merge_scan i' 1 (fst (absorb_after i' j s l)) (snd (absorb_after i' j s l))"
          using c by (subst merge_scan.simps) simp
        moreover have "P 1 (fst (absorb_after i' j s l)) (snd (absorb_after i' j s l))
            (merge_scan i' 1 (fst (absorb_after i' j s l)) (snd (absorb_after i' j s l)))"
          using 1(2)[OF c(1) refl refl c(2,3)] i' absorbable_used(1)[OF ab, of s] by simp
        ultimately show ?thesis using after_i[OF ab, of s] c(3) i' by simp
      next
        case c: 4
        then have ab: "absorbable i j l" using i' u by (auto simp: absorbable_def vma_capacity_def)
        have "merge_scan i' j s l = merge_scan i' 1 (fst (absorb_before i' j s l)) (snd (absorb_before i' j s l))"
          using c by (subst merge_scan.simps) simp
        moreover have "P 1 (fst (absorb_before i' j s l)) (snd (absorb_before i' j s l))
            (merge_scan i' 1 (fst (absorb_before i' j s l)) (snd (absorb_before i' j s l)))"
          using 1(3)[OF c(1) refl refl c(2,3,4)] i' absorbable_used(2)[OF ab, of s] by simp
        ultimately show ?thesis using before_i[OF ab, of s] c(4) i' by simp
      next
        case c: 5
        then have "merge_scan i' j s l = merge_scan i' (j + 1) s l" by (subst merge_scan.simps) auto
        moreover have "P (j + 1) s l (merge_scan i' (j + 1) s l)"
          using 1(4)[OF c(1) refl refl c(2,3,4)] i' u by blast
        ultimately show ?thesis using skip[of l j s "merge_scan i' (j + 1) s l"] c i' u
          by (simp only: vma_capacity_def) blast
      qed
    qed
  qed
  from this[of i] show ?thesis using u by blast
qed

lemma merge_scan_preserves:
  assumes "v_used (slots l ! i)" "Q s l"
    and "\<And>j s l. Q s l \<Longrightarrow> absorbable i j l \<Longrightarrow> v_end (slots l ! i) = v_start (slots l ! j) \<Longrightarrow>
      Q (fst (absorb_after i j s l)) (snd (absorb_after i j s l))"
    and "\<And>j s l. Q s l \<Longrightarrow> absorbable i j l \<Longrightarrow> v_end (slots l ! j) = v_start (slots l ! i) \<Longrightarrow>
      Q (fst (absorb_before i j s l)) (snd (absorb_before i j s l))"
  shows "Q (fst (merge_scan i j s l)) (snd (merge_scan i j s l))"
proof -
  have "Q s l \<longrightarrow> Q (fst (merge_scan i j s l)) (snd (merge_scan i j s l))"
    using assms(1)
  proof (induction rule: merge_scan_induct)
    case (after_i j s l r)
    then show ?case using assms(3)[of s l j] by blast
  next
    case (before_i j s l r)
    then show ?case using assms(4)[of s l j] by blast
  qed simp_all
  then show ?thesis using assms(2) by simp
qed

lemma merge_from_preserves:
  assumes "Q s l" "merge_from is s l = (s', l')"
    and "\<And>i j s l. Q s l \<Longrightarrow> absorbable i j l \<Longrightarrow> v_end (slots l ! i) = v_start (slots l ! j) \<Longrightarrow>
      Q (fst (absorb_after i j s l)) (snd (absorb_after i j s l))"
    and "\<And>i j s l. Q s l \<Longrightarrow> absorbable i j l \<Longrightarrow> v_end (slots l ! j) = v_start (slots l ! i) \<Longrightarrow>
      Q (fst (absorb_before i j s l)) (snd (absorb_before i j s l))"
  shows "Q s' l'"
  using assms(1,2)
proof (induction "is" arbitrary: s l)
  case (Cons i "is")
  obtain s1 l1 where r: "merge_scan i 0 s l = (s1, l1)" by fastforce
  show ?case
  proof (cases "v_used (slots l ! i)")
    case True
    have "Q (fst (merge_scan i 0 s l)) (snd (merge_scan i 0 s l))"
      by (rule merge_scan_preserves[of l i Q s, OF True Cons.prems(1)]) (rule assms(3,4); assumption)+
    then have "Q s1 l1" by (simp add: r)
    then show ?thesis using Cons.IH[of s1 l1] Cons.prems(2) True r by simp
  qed (use Cons in simp)
qed simp

lemma merge_adjacent_view:
  assumes "merge_adjacent s l = (s', l')" "areas_ok (slots l)"
  shows "areas_ok (slots l')" "view (slots l') = view (slots l)"
proof -
  let ?Q = "\<lambda>s (l' :: vma_list). areas_ok (slots l') \<and> view (slots l') = view (slots l)"
  have "?Q s' l'"
    by (rule merge_from_preserves[of ?Q s l, OF _ assms(1)[unfolded merge_adjacent_def]])
      (simp_all add: assms(2) absorbable_def absorb_view)
  then show "areas_ok (slots l')" "view (slots l') = view (slots l)" by simp_all
qed

lemma merge_adjacent_steps:
  assumes "merge_adjacent s l = (s', l')"
  shows "steps s l s' l'" "chunk_pa l' = chunk_pa l"
proof -
  let ?Q = "\<lambda>s1 l1. steps s l s1 l1 \<and> chunk_pa l1 = chunk_pa l"
  have a: "?Q (fst (absorb_after i j s1 l1)) (snd (absorb_after i j s1 l1))"
    and b: "?Q (fst (absorb_before i j s1 l1)) (snd (absorb_before i j s1 l1))"
    if "?Q s1 l1" "absorbable i j l1" for i j s1 l1
    using that steps_trans[OF _ absorb_steps(1), of s l s1 l1 i j] steps_trans[OF _ absorb_steps(2), of s l s1 l1 i j]
    by (simp_all add: absorbable_def absorb_slots)
  have "?Q s' l'"
    by (rule merge_from_preserves[of ?Q s l, OF _ assms(1)[unfolded merge_adjacent_def]])
      (simp, rule a, assumption+, rule b, assumption+)
  then show "steps s l s' l'" "chunk_pa l' = chunk_pa l" by simp_all
qed

text \<open>
  Merging is complete: no used area has a used compatible neighbour afterwards. The scan
  restarts at index 1 after a merge, which is enough because the area at index 0 is merged
  with all its neighbours first and stays so.
\<close>

definition touching :: "vma \<Rightarrow> vma \<Rightarrow> bool" where
  "touching a b \<longleftrightarrow> v_used a \<and> v_used b \<and> compatible a b \<and> (v_end a = v_start b \<or> v_end b = v_start a)"

definition closed_at :: "nat \<Rightarrow> vma list \<Rightarrow> bool" where
  "closed_at i vs \<longleftrightarrow> (\<forall>j < length vs. j \<noteq> i \<longrightarrow> \<not> touching (vs ! i) (vs ! j))"

lemma touching_union:
  assumes "attrs x = attrs a" "attrs a = attrs b" "v_used a" "v_used b"
    and "v_start x = v_start a \<and> v_end x = v_end b \<or> v_start x = v_start b \<and> v_end x = v_end a"
    and "touching c x"
  shows "touching c a \<or> touching c b"
  using assms by (auto simp: touching_def compatible_attrs)

lemma closed_at_merge:
  assumes "closed_at k vs" "k < length vs" "k \<noteq> i" "i < length vs" "j < length vs" "i \<noteq> j"
    and "attrs x = attrs (vs ! i)" "attrs (vs ! i) = attrs (vs ! j)" "v_used (vs ! i)" "v_used (vs ! j)"
    and "v_start x = v_start (vs ! i) \<and> v_end x = v_end (vs ! j) \<or>
         v_start x = v_start (vs ! j) \<and> v_end x = v_end (vs ! i)"
    and "\<not> v_used y"
  shows "closed_at k (vs[i := x, j := y])"
  unfolding closed_at_def
proof (intro allI impI)
  fix m assume m: "m < length (vs[i := x, j := y])" "m \<noteq> k"
  have kx: "\<not> touching (vs ! k) x" if "k \<noteq> j"
    using touching_union[OF assms(7,8,9,10,11)] assms(1,3,4,5) that by (auto simp: closed_at_def)
  have un: "\<not> touching y v" "\<not> touching v y" for v using assms(12) by (simp_all add: touching_def)
  have km: "\<not> touching (vs ! k) (vs ! m)" using assms(1) m by (simp add: closed_at_def)
  have "vs[i := x, j := y] ! k = (if k = j then y else vs ! k)"
    "vs[i := x, j := y] ! m = (if m = j then y else if m = i then x else vs ! m)"
    using assms(2,3,4,5) m by (simp_all add: nth_list_update)
  then show "\<not> touching (vs[i := x, j := y] ! k) (vs[i := x, j := y] ! m)"
    using kx km un by presburger
qed

lemma closed_at_absorb:
  assumes "closed_at k (slots l)" "k < length (slots l)" "k \<noteq> i" "absorbable i j l"
  shows "v_end (slots l ! i) = v_start (slots l ! j) \<Longrightarrow> closed_at k (slots (snd (absorb_after i j s l)))"
    and "v_end (slots l ! j) = v_start (slots l ! i) \<Longrightarrow> closed_at k (slots (snd (absorb_before i j s l)))"
proof -
  have a: "i < length (slots l)" "j < length (slots l)" "i \<noteq> j" "v_used (slots l ! i)" "v_used (slots l ! j)"
    "attrs (slots l ! i) = attrs (slots l ! j)"
    using assms(4) by (simp_all add: absorbable_def compatible_attrs)
  show "closed_at k (slots (snd (absorb_after i j s l)))" "closed_at k (slots (snd (absorb_before i j s l)))"
    unfolding absorb_slots(1,2)[OF a(1,2,3,5)]
    by (rule closed_at_merge[OF assms(1,2,3) a(1,2,3) _ a(6,4,5)]; simp)+
qed

lemma merge_scan_closed:
  assumes "v_used (slots l ! i)" "i < length (slots l)"
    and "\<forall>k < i. closed_at k (slots l)" "\<forall>k < j. k \<noteq> i \<longrightarrow> k < length (slots l) \<longrightarrow> \<not> touching (slots l ! i) (slots l ! k)"
  shows "\<forall>k \<le> i. closed_at k (slots (snd (merge_scan i j s l)))"
proof -
  let ?pre = "\<lambda>j l. i < length (slots l) \<and> (\<forall>k < i. closed_at k (slots l)) \<and>
    (\<forall>k < j. k \<noteq> i \<longrightarrow> k < length (slots l) \<longrightarrow> \<not> touching (slots l ! i) (slots l ! k))"
  have start: "?pre 1 l'" if "i < length (slots l')" "\<forall>k < i. closed_at k (slots l')" for l'
    using that by (auto simp: closed_at_def touching_def compatible_attrs)
  have "?pre j l \<longrightarrow> (\<forall>k \<le> i. closed_at k (slots (snd (merge_scan i j s l))))"
    using assms(1)
  proof (induction rule: merge_scan_induct)
    case (stop j s l)
    then show ?case by (auto simp: closed_at_def order.order_iff_strict)
  next
    case (skip j s l r)
    then show ?case by (auto simp: touching_def less_Suc_eq)
  next
    case (after_i j s l r)
    show ?case
    proof
      assume p: "?pre j l"
      have "\<forall>k < i. closed_at k (slots (snd (absorb_after i j s l)))"
        using p closed_at_absorb(1)[OF _ _ _ after_i(1,2)] by simp
      with p have "?pre 1 (snd (absorb_after i j s l))" by (intro start) simp_all
      then show "\<forall>k \<le> i. closed_at k (slots (snd r))" using after_i(3) by blast
    qed
  next
    case (before_i j s l r)
    show ?case
    proof
      assume p: "?pre j l"
      have "\<forall>k < i. closed_at k (slots (snd (absorb_before i j s l)))"
        using p closed_at_absorb(2)[OF _ _ _ before_i(1,2)] by simp
      with p have "?pre 1 (snd (absorb_before i j s l))" by (intro start) simp_all
      then show "\<forall>k \<le> i. closed_at k (slots (snd r))" using before_i(3) by blast
    qed
  qed
  then show ?thesis using assms by blast
qed

lemma merge_scan_length:
  "v_used (slots l ! i) \<Longrightarrow> length (slots (snd (merge_scan i j s l))) = length (slots l)"
  by (rule merge_scan_preserves[of l i "\<lambda>s l'. length (slots l') = length (slots l)"]) simp_all

lemma merge_from_closed:
  assumes "i \<le> n" "n = length (slots l)" "\<forall>k < i. closed_at k (slots l)" "merge_from [i..<n] s l = (s', l')"
  shows "length (slots l') = n \<and> (\<forall>k < n. closed_at k (slots l'))"
  using assms
proof (induction "n - i" arbitrary: i s l)
  case (Suc d)
  then have i: "i < n" "[i..<n] = i # [Suc i..<n]" by (simp_all add: upt_conv_Cons)
  obtain s1 l1 where r: "merge_scan i 0 s l = (s1, l1)" by fastforce
  show ?case
  proof (cases "v_used (slots l ! i)")
    case True
    have "i < length (slots l)" using i Suc.prems(2) by simp
    then have "\<forall>k \<le> i. closed_at k (slots l1)"
      using merge_scan_closed[OF True _ Suc.prems(3), of 0 s] r by simp
    then have c: "\<forall>k < Suc i. closed_at k (slots l1)" by (simp add: less_Suc_eq_le)
    have len: "n = length (slots l1)" using merge_scan_length[OF True, of 0 s] Suc.prems(2) r by simp
    have "merge_from [Suc i..<n] s1 l1 = (s', l')" using Suc.prems(4) i True r by simp
    from Suc.hyps(1)[OF _ _ len c this] show ?thesis using Suc.hyps(2) i by simp
  next
    case False
    then have "closed_at i (slots l)" by (simp add: closed_at_def touching_def)
    then have c: "\<forall>k < Suc i. closed_at k (slots l)" using Suc.prems(3) by (simp add: less_Suc_eq)
    have "merge_from [Suc i..<n] s l = (s', l')" using Suc.prems(4) i False by simp
    from Suc.hyps(1)[OF _ _ Suc.prems(2) c this] show ?thesis using Suc.hyps(2) i by simp
  qed
qed simp

lemma merge_adjacent_closed:
  assumes "merge_adjacent s l = (s', l')"
  shows "\<forall>k < length (slots l'). closed_at k (slots l')"
  using merge_from_closed[of 0 "length (slots l)" l s s' l'] assms
  by (simp add: merge_adjacent_def vma_capacity_def)

subsection \<open>Building a list from parts\<close>

lemma used_eta: "v_used v \<Longrightarrow> v\<lparr>v_used := True\<rparr> = v"
  by (cases v) simp

lemma add_all_steps:
  assumes "add_all s l ps = (ok, s', l')"
  shows "steps s l s' l' \<and> (\<not> ok \<longrightarrow> l' = vma_list_init)"
  using assms
proof (induction ps arbitrary: s l)
  case (Cons p ps)
  obtain ok1 s1 l1 where r: "add_raw_vma s l p = (ok1, s1, l1)" by (metis prod_cases3)
  note st = add_raw_vma_steps[OF r]
  show ?case
  proof (cases ok1)
    case True
    then have "add_all s1 l1 ps = (ok, s', l')" using Cons.prems r by simp
    from Cons.IH[OF this] show ?thesis using st steps_trans by blast
  next
    case False
    then have "\<not> ok" "vma_list_destroy s1 l1 = (s', l')" using Cons.prems r by simp_all
    then show ?thesis using vma_list_destroy_steps[of s1 l1 s' l'] st steps_trans by blast
  qed
qed simp

lemma view_Cons: "view (v # vs) va = (if covers v va then Some (attrs v) else view vs va)"
  by (simp add: view_def)

lemma add_all_view:
  assumes "add_all s l ps = (True, s', l')" "areas_ok (slots l)" "areas_ok ps" "\<forall>p \<in> set ps. v_used p"
    and "\<And>va. view ps va \<noteq> None \<Longrightarrow> view (slots l) va = None"
  shows "areas_ok (slots l') \<and>
    view (slots l') = (\<lambda>va. case view ps va of None \<Rightarrow> view (slots l) va | Some a \<Rightarrow> Some a)"
  using assms
proof (induction ps arbitrary: s l)
  case (Cons p ps)
  obtain ok1 s1 l1 where r: "add_raw_vma s l p = (ok1, s1, l1)" by (metis prod_cases3)
  then have ok1 and rec: "add_all s1 l1 ps = (True, s', l')" using Cons.prems(1) by (cases ok1; auto)+
  have up: "p\<lparr>v_used := True\<rparr> = p" using Cons.prems(4) used_eta by simp
  have free: "view (slots l) va = None" if "covers (p\<lparr>v_used := True\<rparr>) va" for va
    using Cons.prems(5)[of va] that by (simp add: up view_Cons)
  note a = add_raw_vma_view[OF r[unfolded eqTrueI[OF \<open>ok1\<close>]] Cons.prems(2) free, unfolded up]
  have ps: "areas_ok ps" "\<And>q va. q \<in> set ps \<Longrightarrow> covers p va \<Longrightarrow> \<not> covers q va"
    using Cons.prems(3) by (auto simp: areas_ok_def apart_def)
  have p_ps: "view ps va = None" if "covers p va" for va using ps(2) that by (auto simp: view_None)
  have "areas_ok (slots l') \<and>
      view (slots l') = (\<lambda>va. case view ps va of None \<Rightarrow> view (slots l1) va | Some a \<Rightarrow> Some a)"
  proof (rule Cons.IH[OF rec a(1) ps(1)])
    show "\<forall>p \<in> set ps. v_used p" using Cons.prems(4) by simp
    show "view (slots l1) va = None" if "view ps va \<noteq> None" for va
      using that p_ps[of va] Cons.prems(5)[of va] by (auto simp: a(2) view_Cons)
  qed
  then show ?case using p_ps by (auto simp: a(2) view_Cons fun_eq_iff split: option.split)
qed simp

lemma concat_parts:
  assumes "areas_ok vs"
    and "\<And>v. v \<in> set vs \<Longrightarrow> areas_ok (f v)"
    and "\<And>v va. v \<in> set vs \<Longrightarrow> view (f v) va = (if covers v va then g va (attrs v) else None)"
  shows "areas_ok (concat (map f vs)) \<and> (\<forall>va. view (concat (map f vs)) va = Option.bind (view vs va) (g va))"
  using assms
proof (induction vs)
  case Nil
  then show ?case by (simp add: areas_ok_def)
next
  case (Cons v vs)
  have vs: "areas_ok vs" and ap: "\<And>w va. w \<in> set vs \<Longrightarrow> covers v va \<Longrightarrow> \<not> covers w va"
    using Cons.prems(1) by (auto simp: areas_ok_def apart_def)
  have IH: "areas_ok (concat (map f vs))" "\<And>va. view (concat (map f vs)) va = Option.bind (view vs va) (g va)"
    using Cons.IH[OF vs] Cons.prems(2,3) by auto
  have v_vs: "view vs va = None" if "covers v va" for va using ap that by (auto simp: view_None)
  have fv: "areas_ok (f v)" "\<And>va. view (f v) va = (if covers v va then g va (attrs v) else None)"
    using Cons.prems(2,3) by auto
  have "apart p q" if "p \<in> set (f v)" "q \<in> set (concat (map f vs))" for p q
  proof -
    have "covers v va" if "covers p va" for va
      using fv(2)[of va] that \<open>p \<in> set (f v)\<close> by (auto simp: view_None split: if_splits)
    moreover have "view vs va \<noteq> None" if "covers q va" for va
    proof -
      have "view (concat (map f vs)) va \<noteq> None"
        using that \<open>q \<in> set (concat (map f vs))\<close> unfolding view_None by blast
      then show ?thesis using IH(2)[of va] by (cases "view vs va") auto
    qed
    ultimately show ?thesis using v_vs unfolding apart_def by blast
  qed
  then have "areas_ok (concat (map f (v # vs)))"
    using IH(1) fv(1) by (auto simp: areas_ok_def sorted_wrt_append)
  moreover have "view (concat (map f (v # vs))) va = Option.bind (view (v # vs) va) (g va)" for va
    using v_vs[of va] by (auto simp: view_append fv(2) IH(2) view_Cons split: option.split)
  ultimately show ?case by blast
qed

subsection \<open>The exported operations\<close>

definition in_range :: "u64 \<Rightarrow> u64 \<Rightarrow> u64 \<Rightarrow> bool" where
  "in_range start end va \<longleftrightarrow> start \<le> va \<and> va < end"

lemma remove_parts_ok:
  assumes "area_ok v" "start < end"
  shows "areas_ok (remove_parts start end v)"
    and "view (remove_parts start end v) va =
      (if covers v va then if in_range start end va then None else Some (attrs v) else None)"
    and "p \<in> set (remove_parts start end v) \<Longrightarrow> v_used p"
  using assms
  by (auto simp: remove_parts_def overlaps_def view_Cons covers_def areas_ok_def apart_def area_ok_def in_range_def
      split: if_splits)

lemma protect_parts_ok:
  assumes "area_ok v" "start < end"
  shows "areas_ok (protect_parts start end prot v)"
    and "view (protect_parts start end prot v) va = (if covers v va
      then Some (if in_range start end va then (attrs v)\<lparr>a_prot := prot\<rparr> else attrs v) else None)"
    and "p \<in> set (protect_parts start end prot v) \<Longrightarrow> v_used p"
  using assms
  by (auto simp: protect_parts_def overlaps_def view_Cons covers_def areas_ok_def apart_def area_ok_def in_range_def
      attrs_def split: if_splits)

lemma vma_overlaps_view:
  assumes "areas_ok (slots l)" "start < end"
  shows "vma_overlaps l start end \<longleftrightarrow> (\<exists>va. in_range start end va \<and> view (slots l) va \<noteq> None)"
proof
  assume "vma_overlaps l start end"
  then obtain v where v: "v \<in> set (slots l)" "v_used v" "start < v_end v" "v_start v < end"
    using assms(2) by (auto simp: vma_overlaps_def overlaps_def list_ex_iff split: if_splits)
  then have "v_start v < v_end v" using assms(1) by (auto simp: areas_ok_def list_all_iff area_ok_def)
  then have "in_range start end (max start (v_start v))" "covers v (max start (v_start v))"
    using v assms(2) by (auto simp: in_range_def covers_def)
  then show "\<exists>va. in_range start end va \<and> view (slots l) va \<noteq> None" using v(1) view_None by blast
next
  assume "\<exists>va. in_range start end va \<and> view (slots l) va \<noteq> None"
  then obtain va v where "in_range start end va" "v \<in> set (slots l)" "covers v va"
    unfolding view_None by blast
  then have "v_used v \<and> overlaps start end (v_start v) (v_end v)"
    by (auto simp: in_range_def covers_def overlaps_def)
  then show "vma_overlaps l start end"
    using \<open>v \<in> set (slots l)\<close> by (auto simp: vma_overlaps_def list_ex_iff)
qed

definition spec_insert :: "u64 \<Rightarrow> u64 \<Rightarrow> 'a \<Rightarrow> (u64 \<Rightarrow> 'a option) \<Rightarrow> u64 \<Rightarrow> 'a option" where
  "spec_insert start end a M = (\<lambda>va. if in_range start end va then Some a else M va)"

definition spec_remove :: "u64 \<Rightarrow> u64 \<Rightarrow> (u64 \<Rightarrow> 'a option) \<Rightarrow> u64 \<Rightarrow> 'a option" where
  "spec_remove start end M = (\<lambda>va. if in_range start end va then None else M va)"

definition spec_update :: "u64 \<Rightarrow> u64 \<Rightarrow> ('a \<Rightarrow> 'a) \<Rightarrow> (u64 \<Rightarrow> 'a option) \<Rightarrow> u64 \<Rightarrow> 'a option" where
  "spec_update start end f M = (\<lambda>va. if in_range start end va then map_option f (M va) else M va)"

text \<open>The common end of both insertions: a fresh area in the slot found, then merging.\<close>

lemma insert_area:
  assumes a: "alloc_slot s l = (Some i, s1, l1)" and x: "v_used x" "v_start x < v_end x"
    and free: "\<not> vma_overlaps l (v_start x) (v_end x)"
    and m: "merge_adjacent (vfs_calls (retain_calls x) s1) (l1\<lparr>slots := (slots l1)[i := x]\<rparr>) = (s', l')"
  shows "steps s l s' l'"
    and "areas_ok (slots l) \<Longrightarrow> areas_ok (slots l') \<and>
      view (slots l') = spec_insert (v_start x) (v_end x) (attrs x) (view (slots l))"
proof -
  obtain n where n: "steps s l s1 l1" "i < length (slots l1)" "\<not> v_used (slots l1 ! i)"
    "slots l1 = slots l @ replicate n zero_vma"
    using alloc_slot_Some[OF a] by auto
  have "steps s1 l1 (vfs_calls (retain_calls x) s1) (l1\<lparr>slots := (slots l1)[i := x]\<rparr>)"
    by (rule put_slot_steps[OF n(2,3)]) (use retain_calls_net[of x x] x in auto)
  then show "steps s l s' l'" using n(1) merge_adjacent_steps(1)[OF m] steps_trans by blast
  assume ok: "areas_ok (slots l)"
  have cov: "covers x va \<longleftrightarrow> in_range (v_start x) (v_end x) va" for va
    using x by (simp add: covers_def in_range_def)
  note g = view_grown[OF ok n(4)]
  have xok: "area_ok x" using x by (simp add: area_ok_def)
  have nx: "view (slots l1) va = None" if "covers x va" for va
    using free that vma_overlaps_view[OF ok x(2)] unfolding g(2) cov by blast
  note p = put_area[OF g(1) n(2,3) xok nx]
  have "areas_ok ((slots l1)[i := x])"
    "view ((slots l1)[i := x]) = spec_insert (v_start x) (v_end x) (attrs x) (view (slots l))"
    using p by (simp_all add: fun_eq_iff spec_insert_def cov g(2))
  then show "areas_ok (slots l') \<and> view (slots l') = spec_insert (v_start x) (v_end x) (attrs x) (view (slots l))"
    using merge_adjacent_view[OF m] by simp
qed

text \<open>A failed insertion changes no address, even when it added an empty chunk.\<close>

lemma insert_failed:
  assumes "alloc_slot s l = (None, s', l')"
  shows "steps s l s' l'"
    and "areas_ok (slots l) \<Longrightarrow> areas_ok (slots l') \<and> view (slots l') = view (slots l)"
  using alloc_slot_None[OF assms] view_grown[of l l'] by auto

lemma vma_insert_cases:
  assumes "vma_insert s l start end prot flags type = (ok, s', l')"
  obtains (refused) "\<not> ok" "start \<ge> end \<or> vma_overlaps l start end" "s' = s" "l' = l"
  | (full) "\<not> ok" "alloc_slot s l = (None, s', l')"
  | (inserted) i s1 l1 where "ok" "start < end" "\<not> vma_overlaps l start end" "alloc_slot s l = (Some i, s1, l1)"
      "merge_adjacent s1 (l1\<lparr>slots := (slots l1)[i := zero_vma\<lparr>v_used := True, v_start := start,
             v_end := end, v_prot := prot, v_flags := flags, v_type := type\<rparr>]\<rparr>) = (s', l')"
proof -
  obtain o1 s1 l1 where a: "alloc_slot s l = (o1, s1, l1)" by (metis prod_cases3)
  show ?thesis
  proof (cases "start \<ge> end \<or> vma_overlaps l start end")
    case True
    then show ?thesis using assms refused by (auto simp: vma_insert_def split: if_splits)
  next
    case False
    then show ?thesis
      using assms a full inserted by (cases o1) (auto simp: vma_insert_def add_raw_def)
  qed
qed

definition anon_attrs :: "u32 \<Rightarrow> u32 \<Rightarrow> vma_type \<Rightarrow> vma_attrs" where
  "anon_attrs prot flags type = \<lparr>a_prot = prot, a_flags = flags, a_type = type, a_file = None\<rparr>"

lemma vma_insert_spec:
  assumes "vma_insert s l start end prot flags type = (ok, s', l')" "type \<noteq> VMA_FILE"
  shows "steps s l s' l'"
    and "areas_ok (slots l) \<Longrightarrow> areas_ok (slots l')"
    and "areas_ok (slots l) \<Longrightarrow> view (slots l') = (if ok
      then spec_insert start end (anon_attrs prot flags type) (view (slots l)) else view (slots l))"
    and "ok \<Longrightarrow> start < end \<and> \<not> vma_overlaps l start end"
proof -
  let ?x = "zero_vma\<lparr>v_used := True, v_start := start, v_end := end, v_prot := prot, v_flags := flags, v_type := type\<rparr>"
  have x: "retain_calls ?x = []" "attrs ?x = anon_attrs prot flags type"
    using assms(2) by (simp_all add: retain_calls_def attrs_def anon_attrs_def)
  have "steps s l s' l' \<and> (areas_ok (slots l) \<longrightarrow> areas_ok (slots l') \<and> view (slots l') = (if ok
      then spec_insert start end (anon_attrs prot flags type) (view (slots l)) else view (slots l))) \<and>
      (ok \<longrightarrow> start < end \<and> \<not> vma_overlaps l start end)"
    using assms(1)
  proof (cases rule: vma_insert_cases)
    case full
    then show ?thesis using insert_failed by auto
  next
    case (inserted i s1 l1)
    then show ?thesis using insert_area[OF inserted(4), of ?x s' l'] x by simp
  qed simp
  then show "steps s l s' l'" "areas_ok (slots l) \<Longrightarrow> areas_ok (slots l')"
    "areas_ok (slots l) \<Longrightarrow> view (slots l') = (if ok
      then spec_insert start end (anon_attrs prot flags type) (view (slots l)) else view (slots l))"
    "ok \<Longrightarrow> start < end \<and> \<not> vma_overlaps l start end" by blast+
qed

lemma vma_insert_file_spec:
  assumes "vma_insert_file s l start end prot flags node fs off sz = (ok, s', l')"
  shows "steps s l s' l'"
    and "areas_ok (slots l) \<Longrightarrow> areas_ok (slots l')"
    and "areas_ok (slots l) \<Longrightarrow> \<not> ok \<Longrightarrow> view (slots l') = view (slots l)"
    and "ok \<Longrightarrow> start < end \<and> \<not> vma_overlaps l start end \<and>
      (\<exists>n. node = Some n \<and> \<not> is_dir n \<and> device n = RAMFS_DEV_NONE)"
    and "areas_ok (slots l) \<Longrightarrow> ok \<Longrightarrow> view (slots l') = spec_insert start end \<lparr>a_prot = prot, a_flags = flags,
      a_type = VMA_FILE, a_file = Some (node_key (the node), fs, off, sz)\<rparr> (view (slots l))"
proof -
  have "steps s l s' l' \<and> (areas_ok (slots l) \<longrightarrow> areas_ok (slots l') \<and> (if ok then
      view (slots l') = spec_insert start end \<lparr>a_prot = prot, a_flags = flags,
        a_type = VMA_FILE, a_file = Some (node_key (the node), fs, off, sz)\<rparr> (view (slots l))
      else view (slots l') = view (slots l))) \<and>
      (ok \<longrightarrow> start < end \<and> \<not> vma_overlaps l start end \<and>
        (\<exists>n. node = Some n \<and> \<not> is_dir n \<and> device n = RAMFS_DEV_NONE))"
  proof (cases node)
    case (Some n)
    let ?x = "zero_vma\<lparr>v_used := True, v_start := start, v_end := end, v_prot := prot,
      v_flags := flags, v_type := VMA_FILE, v_file_node := n, v_file_start := fs, v_file_offset := off,
      v_file_size := sz\<rparr>"
    obtain o1 s1 l1 where a: "alloc_slot s l = (o1, s1, l1)" by (metis prod_cases3)
    show ?thesis
    proof (cases "start \<ge> end \<or> is_dir n \<or> device n \<noteq> RAMFS_DEV_NONE \<or> vma_overlaps l start end")
      case True
      then have "\<not> ok" "s' = s" "l' = l" using assms Some by (auto simp: vma_insert_file_def split: if_splits)
      then show ?thesis by simp
    next
      case g: False
      show ?thesis
      proof (cases o1)
        case None
        then have "\<not> ok" "alloc_slot s l = (None, s', l')"
          using assms Some g a by (auto simp: vma_insert_file_def)
        then show ?thesis using insert_failed by auto
      next
        case i: (Some i)
        have "merge_adjacent (vfs_calls (retain_calls ?x) s1) (l1\<lparr>slots := (slots l1)[i := ?x]\<rparr>) = (s', l')" "ok"
          using assms Some g a i by (auto simp: vma_insert_file_def Let_def retain_calls_def)
        then show ?thesis
          using insert_area[OF a[unfolded i], of ?x s' l'] g Some by (auto simp: attrs_def)
      qed
    qed
  qed (use assms in \<open>auto simp: vma_insert_file_def\<close>)
  then show "steps s l s' l'" "areas_ok (slots l) \<Longrightarrow> areas_ok (slots l')"
    "areas_ok (slots l) \<Longrightarrow> \<not> ok \<Longrightarrow> view (slots l') = view (slots l)"
    "ok \<Longrightarrow> start < end \<and> \<not> vma_overlaps l start end \<and>
      (\<exists>n. node = Some n \<and> \<not> is_dir n \<and> device n = RAMFS_DEV_NONE)"
    "areas_ok (slots l) \<Longrightarrow> ok \<Longrightarrow> view (slots l') = spec_insert start end \<lparr>a_prot = prot, a_flags = flags,
      a_type = VMA_FILE, a_file = Some (node_key (the node), fs, off, sz)\<rparr> (view (slots l))"
    by (auto split: if_splits)
qed

text \<open>
  Replacing a list by one built from its parts: pages and file references move from the old
  list to the new one.
\<close>

lemma replace_steps:
  assumes "steps s vma_list_init s1 next" "vma_list_destroy s1 l = (s', x)"
  shows "steps s l s' next"
  unfolding steps_def
proof
  assume vr: "vma_res s l"
  then have init: "vma_res s vma_list_init" by (simp add: vma_res_def vma_list_init_def)
  then have n: "vma_res s1 next" "others s1 next = refs s" "books s1 next = books s vma_list_init"
    using assms(1) by (auto simp: steps_def others_def vma_list_init_def)
  have refs1: "refs s1 q = (if q \<in> set (chunk_pa next) then 1 else refs s q)" for q
    using n(1) fun_cong[OF n(2), of q] by (auto simp: others_def vma_res_def split: if_splits)
  have new: "refs s q = 0" if "q \<in> set (chunk_pa next)" for q
    using fun_cong[OF n(2), of q] that by (simp add: others_def)
  have disj: "set (chunk_pa l) \<inter> set (chunk_pa next) = {}"
    using vr new by (auto simp: vma_res_def)
  have "vma_res s1 l" using vr n(1) disj by (auto simp: vma_res_def refs1)
  then have d: "vma_res s' vma_list_init" "others s' vma_list_init = others s1 l"
    "books s' vma_list_init = books s1 l"
    using vma_list_destroy_steps[OF assms(2)] by (simp_all add: steps_def)
  have refs': "refs s' q = (if q \<in> set (chunk_pa l) then 0 else refs s1 q)" for q
    using fun_cong[OF d(2), of q] by (simp add: others_def vma_list_init_def)
  have "vma_res s' next"
    using n(1) d(1) disj by (auto simp: vma_res_def refs')
  moreover have "others s' next = others s l"
    using disj new by (auto simp: others_def fun_eq_iff refs' refs1)
  moreover have "books s' next = books s l"
    using d(3) n(3) by (auto simp: books_def fun_eq_iff vma_list_init_def)
  ultimately show "vma_res s' next \<and> others s' next = others s l \<and> books s' next = books s l" by blast
qed

lemma failed_build_steps:
  assumes "steps s vma_list_init s' vma_list_init"
  shows "steps s l s' l"
  using assms by (auto simp: steps_def vma_res_def others_def books_def vma_list_init_def fun_eq_iff)

text \<open>Rebuilding a list through a part function, as removal and protection do.\<close>

definition rebuild :: "(vma \<Rightarrow> vma list) \<Rightarrow> vma_sys \<Rightarrow> vma_list \<Rightarrow> bool \<times> vma_sys \<times> vma_list" where
  "rebuild f s l =
     (case add_all s vma_list_init (concat (map f (slots l))) of
        (False, s, next) \<Rightarrow> (False, s, l)
      | (True, s, next) \<Rightarrow>
          let (s, next) = merge_adjacent s next;
              (s, _) = vma_list_destroy s l
          in (True, s, next))"

lemma rebuild_eqs:
  "vma_remove s l start end = (if start \<ge> end then (False, s, l) else rebuild (remove_parts start end) s l)"
  "vma_protect s l start end prot =
     (if start \<ge> end then (False, s, l) else rebuild (protect_parts start end prot) s l)"
  by (simp_all add: vma_remove_def vma_protect_def rebuild_def)

lemma rebuild_cases:
  assumes "rebuild f s l = (ok, s', l')"
  obtains (failed) n where "\<not> ok" "add_all s vma_list_init (concat (map f (slots l))) = (False, s', n)" "l' = l"
  | (built) s1 n1 s2 x where "ok" "add_all s vma_list_init (concat (map f (slots l))) = (True, s1, n1)"
      "merge_adjacent s1 n1 = (s2, l')" "vma_list_destroy s2 l = (s', x)"
proof -
  obtain ok1 s1 n1 where a: "add_all s vma_list_init (concat (map f (slots l))) = (ok1, s1, n1)"
    by (metis prod_cases3)
  obtain s2 n2 where m: "merge_adjacent s1 n1 = (s2, n2)" by fastforce
  obtain s3 x where d: "vma_list_destroy s2 l = (s3, x)" by fastforce
  show ?thesis
  proof (cases ok1)
    case True
    then have "ok" "l' = n2" "s' = s3" using assms a m d by (simp_all add: rebuild_def)
    then show ?thesis using a m d True by (intro built[of s1 n1 s2 x]) simp_all
  next
    case False
    then have "\<not> ok" "l' = l" "s' = s1" using assms a by (simp_all add: rebuild_def)
    then show ?thesis using a False by (intro failed[of n1]) simp_all
  qed
qed

lemma rebuild_steps:
  assumes "rebuild f s l = (ok, s', l')"
  shows "steps s l s' l'"
  using assms
proof (cases rule: rebuild_cases)
  case (failed n)
  then show ?thesis using add_all_steps[OF failed(2)] failed_build_steps by blast
next
  case (built s1 n1 s2 x)
  have "steps s vma_list_init s2 l'"
    using add_all_steps[OF built(2)] merge_adjacent_steps(1)[OF built(3)] steps_trans by blast
  then show ?thesis using replace_steps[OF _ built(4)] by blast
qed

lemma rebuild_view:
  assumes r: "rebuild f s l = (ok, s', l')" and ok: "areas_ok (slots l)"
    and f: "\<And>v. area_ok v \<Longrightarrow> areas_ok (f v)" "\<And>v p. area_ok v \<Longrightarrow> p \<in> set (f v) \<Longrightarrow> v_used p"
      "\<And>v va. area_ok v \<Longrightarrow> view (f v) va = (if covers v va then g va (attrs v) else None)"
  shows "areas_ok (slots l') \<and>
    view (slots l') = (if ok then \<lambda>va. Option.bind (view (slots l) va) (g va) else view (slots l))"
  using r
proof (cases rule: rebuild_cases)
  case (failed n)
  then show ?thesis using ok by simp
next
  case (built s1 n1 s2 x)
  have each: "area_ok v" if "v \<in> set (slots l)" for v
    using ok that by (simp add: areas_ok_def list_all_iff)
  let ?ps = "concat (map f (slots l))"
  have "areas_ok ?ps \<and> (\<forall>va. view ?ps va = Option.bind (view (slots l) va) (g va))"
    by (rule concat_parts[OF ok]) (use f(1,3) each in auto)
  then have ps: "areas_ok ?ps" "view ?ps = (\<lambda>va. Option.bind (view (slots l) va) (g va))"
    by (auto simp: fun_eq_iff)
  have "areas_ok (slots n1) \<and> view (slots n1) = (\<lambda>va. case view ?ps va of None \<Rightarrow> view (slots vma_list_init) va
      | Some a \<Rightarrow> Some a)"
    by (rule add_all_view[OF built(2) _ ps(1)])
      (use f(2) each in \<open>auto simp: vma_list_init_def areas_ok_def\<close>)
  then have n1: "areas_ok (slots n1)" "view (slots n1) = view ?ps"
    by (auto simp: vma_list_init_def fun_eq_iff split: option.split)
  then show ?thesis using merge_adjacent_view[OF built(3)] built(1) ps(2) by simp
qed

lemma vma_remove_view:
  assumes "vma_remove s l start end = (ok, s', l')" "areas_ok (slots l)"
  shows "areas_ok (slots l') \<and>
    view (slots l') = (if ok then spec_remove start end (view (slots l)) else view (slots l))"
proof (cases "end \<le> start")
  case True
  then show ?thesis using assms by (simp add: rebuild_eqs)
next
  case False
  have bind: "Option.bind x (\<lambda>a. if c then None else Some a) = (if c then None else x)" for c and x :: "'b option"
    by (cases x) auto
  have r: "rebuild (remove_parts start end) s l = (ok, s', l')" using assms(1) False by (simp add: rebuild_eqs)
  have "areas_ok (slots l') \<and> view (slots l') = (if ok then \<lambda>va. Option.bind (view (slots l) va)
      (\<lambda>a. if in_range start end va then None else Some a) else view (slots l))"
  proof (rule rebuild_view[OF r assms(2)])
    fix v va assume v: "area_ok v"
    have lt: "start < end" using False by simp
    show "areas_ok (remove_parts start end v)" by (rule remove_parts_ok(1)[OF v lt])
    show "v_used p" if "p \<in> set (remove_parts start end v)" for p by (rule remove_parts_ok(3)[OF v lt that])
    show "view (remove_parts start end v) va = (if covers v va then if in_range start end va then None else Some (attrs v) else None)"
      by (simp add: remove_parts_ok(2)[OF v lt])
  qed
  then show ?thesis by (simp add: spec_remove_def bind)
qed

lemma vma_protect_view:
  assumes "vma_protect s l start end prot = (ok, s', l')" "areas_ok (slots l)"
  shows "areas_ok (slots l') \<and> view (slots l') =
    (if ok then spec_update start end (a_prot_update (\<lambda>_. prot)) (view (slots l)) else view (slots l))"
proof (cases "end \<le> start")
  case True
  then show ?thesis using assms by (simp add: rebuild_eqs)
next
  case False
  have bind: "Option.bind x (\<lambda>a. Some (if c then f a else a)) = (if c then map_option f x else x)"
    for c f and x :: "'b option"
    by (cases x) auto
  have r: "rebuild (protect_parts start end prot) s l = (ok, s', l')" using assms(1) False by (simp add: rebuild_eqs)
  have "areas_ok (slots l') \<and> view (slots l') = (if ok then \<lambda>va. Option.bind (view (slots l) va)
      (\<lambda>a. Some (if in_range start end va then a_prot_update (\<lambda>_. prot) a else a)) else view (slots l))"
  proof (rule rebuild_view[OF r assms(2)])
    fix v va assume v: "area_ok v"
    have lt: "start < end" using False by simp
    show "areas_ok (protect_parts start end prot v)" by (rule protect_parts_ok(1)[OF v lt])
    show "v_used p" if "p \<in> set (protect_parts start end prot v)" for p by (rule protect_parts_ok(3)[OF v lt that])
    show "view (protect_parts start end prot v) va = (if covers v va then Some (if in_range start end va then a_prot_update (\<lambda>_. prot) (attrs v) else attrs v) else None)"
      by (simp add: protect_parts_ok(2)[OF v lt])
  qed
  then show ?thesis by (simp add: spec_update_def bind)
qed

lemma remove_protect_steps:
  "vma_remove s l start end = (ok, s', l') \<Longrightarrow> steps s l s' l'"
  "vma_protect s l start end prot = (ok, s', l') \<Longrightarrow> steps s l s' l'"
  unfolding rebuild_eqs by (cases "end \<le> start"; simp add: rebuild_steps)+

lemma vma_clone_spec:
  assumes "vma_clone s src = (ok, s', dst)"
  shows "steps s vma_list_init s' dst"
    and "\<not> ok \<Longrightarrow> dst = vma_list_init"
    and "areas_ok (slots src) \<Longrightarrow> ok \<Longrightarrow> areas_ok (slots dst) \<and> view (slots dst) = view (slots src)"
proof -
  note st = add_all_steps[OF assms[unfolded vma_clone_def]]
  show "steps s vma_list_init s' dst" "\<not> ok \<Longrightarrow> dst = vma_list_init" using st by auto
  assume a: "areas_ok (slots src)" and ok: "ok"
  let ?ps = "filter v_used (slots src)"
  have p: "areas_ok ?ps" using a by (auto simp: areas_ok_def list_all_iff sorted_wrt_filter)
  have v: "view ?ps va = view (slots src) va" for va
    by (rule view_eqI[OF p a]) (auto simp: covers_def)
  have "areas_ok (slots dst) \<and> view (slots dst) = (\<lambda>va. case view ?ps va of None \<Rightarrow> view (slots vma_list_init) va
      | Some a \<Rightarrow> Some a)"
    by (rule add_all_view[OF _ _ p])
      (use assms ok in \<open>auto simp: vma_clone_def vma_list_init_def areas_ok_def\<close>)
  then show "areas_ok (slots dst) \<and> view (slots dst) = view (slots src)"
    by (auto simp: v vma_list_init_def fun_eq_iff split: option.split)
qed

subsection \<open>Growing an area downwards\<close>

lemma widen_area:
  assumes ok: "areas_ok vs" and i: "i < length vs" and x: "area_ok x" "attrs x = attrs (vs ! i)"
    and cov: "\<And>va. covers x va \<longleftrightarrow> covers (vs ! i) va \<or> R va"
    and free: "\<And>va. R va \<Longrightarrow> view vs va = None"
  shows "areas_ok (vs[i := x])"
    and "view (vs[i := x]) va = (if R va then Some (attrs x) else view vs va)"
proof -
  have apart: "apart x (vs ! j)" if "j < length vs" "j \<noteq> i" for j
  proof -
    have "apart (vs ! i) (vs ! j)" using ok i that by (simp add: areas_ok_nth)
    moreover have "\<not> covers (vs ! j) va" if "R va" for va
      using free[OF that] \<open>j < length vs\<close> by (simp add: view_None)
    ultimately show ?thesis unfolding apart_def cov by blast
  qed
  show ok': "areas_ok (vs[i := x])"
    unfolding areas_ok_nth length_list_update
  proof (intro conjI allI impI)
    fix j assume "j < length vs"
    then show "area_ok (vs[i := x] ! j)" using ok x(1) by (cases "j = i") (auto simp: areas_ok_nth)
  next
    fix j k assume "j < length vs" "k < length vs" "j \<noteq> k"
    then show "apart (vs[i := x] ! j) (vs[i := x] ! k)"
      using ok apart[of j] apart[of k] apart_sym[of x]
      by (cases "j = i"; cases "k = i") (simp_all add: areas_ok_nth)
  qed
  show "view (vs[i := x]) va = (if R va then Some (attrs x) else view vs va)"
  proof (cases "R va")
    case True
    then show ?thesis using view_nth[OF ok', of i va] i cov[of va] by simp
  next
    case False
    have "(\<exists>v \<in> set (vs[i := x]). covers v va \<and> attrs v = a) = (\<exists>v \<in> set vs. covers v va \<and> attrs v = a)" for a
      using False i x(2) cov[of va] by (simp add: ex_set_update ex_set_split[of i vs])
    then show ?thesis using view_eqI[OF ok' ok] False by simp
  qed
qed

lemma vma_grow_down_cases:
  assumes "vma_grow_down l page fl = (ok, l', out)"
  obtains (refused) "\<not> ok" "l' = l" "out = None"
  | (grown) i where "ok" "i < length (slots l)" "v_used (slots l ! i)" "page < v_start (slots l ! i)"
      "v_flags (slots l ! i) AND fl = fl" "(v_start (slots l ! i) - page) div PAGE_SIZE \<le> MAX_GROWDOWN_PAGES"
      "\<not> vma_overlaps l page (v_start (slots l ! i))"
      "l' = l\<lparr>slots := (slots l)[i := (slots l ! i)\<lparr>v_start := page\<rparr>]\<rparr>"
      "out = Some ((slots l ! i)\<lparr>v_start := page\<rparr>)" "page AND (PAGE_SIZE - 1) = 0"
proof -
  let ?F = "find (\<lambda>i. \<not> (\<not> v_used (slots l ! i) \<or> page \<ge> v_start (slots l ! i) \<or>
             v_flags (slots l ! i) AND fl \<noteq> fl)) [0..<vma_capacity l]"
  show ?thesis
  proof (cases "page AND (PAGE_SIZE - 1) = 0 \<and> ?F \<noteq> None")
    case False
    then have "\<not> ok \<and> l' = l \<and> out = None" using assms by (auto simp: vma_grow_down_def split: option.splits if_splits)
    then show ?thesis using refused by blast
  next
    case True
    then obtain i where F: "?F = Some i" by auto
    then have i: "i < length (slots l)" "v_used (slots l ! i)" "page < v_start (slots l ! i)"
      "v_flags (slots l ! i) AND fl = fl"
      by (auto simp: find_Some_iff vma_capacity_def)
    show ?thesis
    proof (cases "(v_start (slots l ! i) - page) div PAGE_SIZE = 0 \<or>
        (v_start (slots l ! i) - page) div PAGE_SIZE > MAX_GROWDOWN_PAGES \<or> vma_overlaps l page (v_start (slots l ! i))")
      case c: True
      then have "\<not> ok \<and> l' = l \<and> out = None"
        using assms True F by (auto simp: vma_grow_down_def Let_def split: if_splits)
      then show ?thesis using refused by blast
    next
      case c: False
      then have "ok" "l' = l\<lparr>slots := (slots l)[i := (slots l ! i)\<lparr>v_start := page\<rparr>]\<rparr>"
        "out = Some ((slots l ! i)\<lparr>v_start := page\<rparr>)"
        using assms True F by (simp_all add: vma_grow_down_def Let_def)
      then show ?thesis using grown[of i] i c True by (simp add: not_less)
    qed
  qed
qed

lemma vma_grow_down_view:
  assumes "vma_grow_down l page fl = (True, l', Some v)" "areas_ok (slots l)"
  shows "\<exists>old. page < old \<and> v_start v = page \<and> v_flags v AND fl = fl \<and>
    (old - page) div PAGE_SIZE \<le> MAX_GROWDOWN_PAGES \<and>
    (\<forall>va. in_range page old va \<longrightarrow> view (slots l) va = None) \<and>
    view (slots l) old = Some (attrs v) \<and>
    areas_ok (slots l') \<and> view (slots l') = spec_insert page old (attrs v) (view (slots l))"
  using assms(1)
proof (cases rule: vma_grow_down_cases)
  case (grown i)
  let ?v = "slots l ! i"
  have av: "v_start ?v < v_end ?v" using assms(2) grown(2,3) by (simp add: areas_ok_nth area_ok_def)
  have v: "v = ?v\<lparr>v_start := page\<rparr>" using grown(9) by simp
  have x: "area_ok v" "attrs v = attrs ?v" using grown(4) av by (auto simp: v area_ok_def)
  have cov: "covers v va \<longleftrightarrow> covers ?v va \<or> in_range page (v_start ?v) va" for va
    using grown(3,4) av by (auto simp: v covers_def in_range_def)
  have free: "view (slots l) va = None" if "in_range page (v_start ?v) va" for va
    using vma_overlaps_view[OF assms(2) grown(4)] grown(7) that by blast
  have "view (slots l) (v_start ?v) = Some (attrs v)"
    unfolding x(2) using grown(3) av by (intro view_nth[OF assms(2) grown(2)]) (simp add: covers_def)
  moreover have "areas_ok (slots l') \<and> view (slots l') = spec_insert page (v_start ?v) (attrs v) (view (slots l))"
    using widen_area[OF assms(2) grown(2) x cov free] unfolding grown(8) spec_insert_def fun_eq_iff by (simp add: v)
  ultimately show ?thesis using grown free by (intro exI[of _ "v_start ?v"]) (simp add: v)
qed simp

lemma vma_grow_down_steps:
  assumes "vma_grow_down l page fl = (ok, l', out)"
  shows "steps s l s l'" and "areas_ok (slots l) \<Longrightarrow> areas_ok (slots l')"
proof -
  show "steps s l s l'"
    using assms
  proof (cases rule: vma_grow_down_cases)
    case (grown i)
    then show ?thesis
      by (auto simp: steps_def vma_res_def others_def books_def fun_eq_iff refs_update file_ref_def shared_ref_def
          shared_writable_def)
  qed simp
  assume ok: "areas_ok (slots l)"
  show "areas_ok (slots l')"
    using assms
  proof (cases rule: vma_grow_down_cases)
    case (grown i)
    have "vma_grow_down l page fl = (True, l', Some ((slots l ! i)\<lparr>v_start := page\<rparr>))"
      using assms grown(1,9) by simp
    then show ?thesis using vma_grow_down_view[OF _ ok] by blast
  qed (use ok in simp)
qed

end
