(* ===== verification/Vma_Properties.thy ===== *)
theory Vma_Properties
  imports Vma_Ops Pmm_Properties
begin

text \<open>
  The properties of the area list: every operation refines the corresponding operation on
  the address view, no operation leaks a page or a file reference, merging is complete,
  and the queries answer what the view says.
\<close>

subsection \<open>Operations as data\<close>

datatype vma_op =
    Insert u64 u64 u32 u32 vma_type
  | Insert_File u64 u64 u32 u32 vfs_node u64 u64 u64
  | Remove u64 u64
  | Protect u64 u64 u32

text \<open>The system calls insert plain areas and stacks with \<^verbatim>\<open>vma_insert\<close>, never files.\<close>

fun op_ok :: "vma_op \<Rightarrow> bool" where
  "op_ok (Insert start end prot flags type) = (type \<noteq> VMA_FILE)"
| "op_ok _ = True"

fun run_op :: "vma_op \<Rightarrow> vma_sys \<Rightarrow> vma_list \<Rightarrow> bool \<times> vma_sys \<times> vma_list" where
  "run_op (Insert start end prot flags type) s l = vma_insert s l start end prot flags type"
| "run_op (Insert_File start end prot flags n fs off sz) s l =
     vma_insert_file s l start end prot flags (Some n) fs off sz"
| "run_op (Remove start end) s l = vma_remove s l start end"
| "run_op (Protect start end prot) s l = vma_protect s l start end prot"

fun spec_op :: "vma_op \<Rightarrow> (u64 \<Rightarrow> vma_attrs option) \<Rightarrow> u64 \<Rightarrow> vma_attrs option" where
  "spec_op (Insert start end prot flags type) M = spec_insert start end (anon_attrs prot flags type) M"
| "spec_op (Insert_File start end prot flags n fs off sz) M =
     spec_insert start end \<lparr>a_prot = prot, a_flags = flags, a_type = VMA_FILE,
       a_file = Some (node_key n, fs, off, sz)\<rparr> M"
| "spec_op (Remove start end) M = spec_remove start end M"
| "spec_op (Protect start end prot) M = spec_update start end (a_prot_update (\<lambda>_. prot)) M"

lemma run_op_steps:
  assumes "op_ok op" "run_op op s l = (ok, s', l')"
  shows "steps s l s' l'"
  using assms vma_insert_spec(1) vma_insert_file_spec(1) remove_protect_steps by (cases op) auto

lemma run_op_view:
  assumes "op_ok op" "areas_ok (slots l)" "run_op op s l = (ok, s', l')"
  shows "areas_ok (slots l') \<and> view (slots l') = (if ok then spec_op op (view (slots l)) else view (slots l))"
proof (cases op)
  case (Insert start en prot flags type)
  then show ?thesis
    using assms vma_insert_spec(2,3)[of s l start en prot flags type ok s' l'] by simp
next
  case (Insert_File start en prot flags n fs off sz)
  then show ?thesis
    using assms vma_insert_file_spec(2,3,5)[of s l start en prot flags "Some n" fs off sz ok s' l'] by simp
next
  case (Remove start en)
  then show ?thesis using assms vma_remove_view[of s l start en ok s' l'] by simp
next
  case (Protect start en prot)
  then show ?thesis using assms vma_protect_view[of s l start en prot ok s' l'] by simp
qed

fun run_ops :: "vma_op list \<Rightarrow> vma_sys \<Rightarrow> vma_list \<Rightarrow> vma_sys \<times> vma_list" where
  "run_ops [] s l = (s, l)"
| "run_ops (op # ops) s l = (case run_op op s l of (ok, s, l) \<Rightarrow> run_ops ops s l)"

lemma run_ops_steps:
  assumes "list_all op_ok ops" "run_ops ops s l = (s', l')"
  shows "steps s l s' l'"
  using assms
proof (induction ops arbitrary: s l)
  case (Cons op ops)
  obtain ok s1 l1 where r: "run_op op s l = (ok, s1, l1)" by (metis prod_cases3)
  have "steps s l s1 l1" using run_op_steps[OF _ r] Cons.prems(1) by simp
  moreover have "steps s1 l1 s' l'" using Cons.IH[of s1 l1] Cons.prems r by simp
  ultimately show ?case by (rule steps_trans)
qed simp

lemma find_unique:
  assumes "areas_ok vs"
  shows "find (\<lambda>v. covers v va) vs = Some v \<longleftrightarrow> v \<in> set vs \<and> covers v va"
proof
  assume "find (\<lambda>v. covers v va) vs = Some v"
  then show "v \<in> set vs \<and> covers v va" by (auto simp: find_Some_iff)
next
  assume "v \<in> set vs \<and> covers v va"
  then obtain i where i: "i < length vs" "vs ! i = v" "covers (vs ! i) va" by (auto simp: in_set_conv_nth)
  show "find (\<lambda>v. covers v va) vs = Some v"
    unfolding find_Some_iff
  proof (intro exI[of _ i] conjI allI impI)
    fix j assume "j < i"
    then have "apart (vs ! i) (vs ! j)" using assms i(1) by (simp add: areas_ok_nth)
    then show "\<not> covers (vs ! j) va" using i(3) by (auto simp: apart_def)
  qed (use i in simp_all)
qed

subsection \<open>A concrete list\<close>

text \<open>One chunk, at the first page the demo allocator hands out, with one area in it.\<close>

definition demo_sys :: vma_sys where
  "demo_sys = \<lparr>vs_machine = fst (pmm_alloc_zero_page \<lparr>mpmm = demo_pmm, phys = (\<lambda>_. 0)\<rparr>),
     vma_hhdm_offset = 0xffff000000000000, vs_calls = []\<rparr>"

definition demo_area :: vma where
  "demo_area = zero_vma\<lparr>v_used := True, v_start := 0x1000, v_end := 0x3000, v_prot := 3, v_flags := 2\<rparr>"

definition demo_list :: vma_list where
  "demo_list = \<lparr>slots = demo_area # replicate 9 zero_vma, chunk_pa = [0x100000]\<rparr>"

lemma demo_res: "vma_res demo_sys demo_list"
  using demo_alloc_refs demo_alloc
  by (simp add: vma_res_def demo_sys_def demo_list_def pmm_alloc_zero_page_fst VMAS_PER_CHUNK_def VMA_MAX_CHUNKS_def)

lemma demo_areas: "areas_ok (slots demo_list)"
  by (auto simp: demo_list_def areas_ok_def area_ok_def list_all_iff demo_area_def zero_vma_def apart_def covers_def
      sorted_wrt_iff_nth_less nth_Cons split: nat.splits)

lemma demo_slots:
  "slots demo_list = [demo_area, zero_vma, zero_vma, zero_vma, zero_vma, zero_vma, zero_vma, zero_vma,
     zero_vma, zero_vma]"
  by (simp add: demo_list_def eval_nat_numeral)

lemma demo_alloc_slot: "alloc_slot s demo_list = (Some 1, s, demo_list)"
  by (simp add: alloc_slot.simps vma_capacity_def demo_slots upt_rec_numeral demo_area_def)

definition demo_grown :: vma_list where
  "demo_grown = demo_list\<lparr>slots := [demo_area\<lparr>v_end := 0x5000\<rparr>, zero_vma\<lparr>v_start := 0x3000, v_end := 0x5000,
     v_prot := 3, v_flags := 2\<rparr>, zero_vma, zero_vma, zero_vma, zero_vma, zero_vma, zero_vma, zero_vma, zero_vma]\<rparr>"

lemma demo_insert:
  "vma_insert s demo_list 0x3000 0x5000 3 2 VMA_ANON = (True, s, demo_grown)"
proof -
  have "\<not> vma_overlaps demo_list 0x3000 0x5000"
    by (simp add: vma_overlaps_def demo_slots demo_area_def overlaps_def)
  moreover have "merge_adjacent s (demo_list\<lparr>slots := (slots demo_list)[1 := zero_vma\<lparr>v_used := True, v_start := 0x3000,
      v_end := 0x5000, v_prot := 3, v_flags := 2, v_type := VMA_ANON\<rparr>]\<rparr>) = (s, demo_grown)"
    by (simp add: merge_adjacent_def vma_capacity_def demo_slots upt_rec_numeral merge_scan.simps demo_area_def
        compatible_def absorb_after_def release_vma_def zero_vma_def demo_grown_def Let_def)
  ultimately show ?thesis
    by (simp add: vma_insert_def add_raw_def demo_alloc_slot)
qed

text \<open>Two compatible areas with a gap.\<close>

definition demo_pair :: vma_list where
  "demo_pair = demo_list\<lparr>slots := [demo_area, demo_area\<lparr>v_start := 0x4000, v_end := 0x5000\<rparr>]\<rparr>"

subsection \<open>Properties\<close>

text \<open>
  C7. Each operation on the list refines its operation on the address view. From a list of
  disjoint areas, insertion, file insertion, removal and protection leave a list of disjoint
  areas; when they return true every address in the range has its new attributes, is
  unmapped, or has the new protection, and every other address keeps what it had; when they
  return false no address changes.
\<close>

theorem vma_ops_refine:
  assumes "op_ok op" "areas_ok (slots l)" "run_op op s l = (ok, s', l')"
  shows "areas_ok (slots l') \<and>
    view (slots l') = (if ok then spec_op op (view (slots l)) else view (slots l))"
  by (rule run_op_view[OF assms])

theorem vma_ops_refine_witness:
  "run_op (Insert 0x3000 0x5000 3 2 VMA_ANON) demo_sys demo_list = (True, demo_sys, demo_grown) \<and>
   areas_ok (slots demo_grown) \<and>
   view (slots demo_grown) = spec_insert 0x3000 0x5000 (anon_attrs 3 2 VMA_ANON) (view (slots demo_list))"
  using vma_ops_refine[of "Insert 0x3000 0x5000 3 2 VMA_ANON" demo_list demo_sys True demo_sys demo_grown]
  by (simp add: demo_areas demo_insert)

text \<open>
  C8. Nothing leaks. Run any operations on an empty list, whether they succeed or fail, and
  destroy it: every physical page has the reference count it had before, and for every file
  the retain and release calls, and the shared-writable notes, cancel out.
\<close>

theorem vma_ops_no_leak:
  assumes "pmm_wf (mpmm (vs_machine s))" "list_all op_ok ops"
    and "run_ops ops s vma_list_init = (s1, l1)" "vma_list_destroy s1 l1 = (s2, l2)"
  shows "refs s2 = refs s \<and> net_refs k (vs_calls s2) = net_refs k (vs_calls s) \<and>
    net_shared k (vs_calls s2) = net_shared k (vs_calls s)"
proof -
  have "steps s vma_list_init s2 vma_list_init"
    using run_ops_steps[OF assms(2,3)] vma_list_destroy_steps(2)[OF assms(4)] steps_trans by blast
  moreover have "vma_res s vma_list_init" using assms(1) by (simp add: vma_res_def vma_list_init_def)
  ultimately have "others s2 vma_list_init = others s vma_list_init" "books s2 vma_list_init = books s vma_list_init"
    by (simp_all add: steps_def)
  then show ?thesis
    by (auto simp: others_def books_def vma_list_init_def dest: fun_cong[of _ _ k])
qed

theorem vma_ops_no_leak_witness:
  "\<exists>s1 l1 s2 l2. run_ops [Insert 0x1000 0x3000 3 2 VMA_ANON, Protect 0x2000 0x3000 1, Remove 0 0x2000]
       demo_sys vma_list_init = (s1, l1) \<and> vma_list_destroy s1 l1 = (s2, l2) \<and> refs s2 = refs demo_sys"
proof -
  let ?ops = "[Insert 0x1000 0x3000 3 2 VMA_ANON, Protect 0x2000 0x3000 1, Remove 0 0x2000]"
  obtain s1 l1 where r: "run_ops ?ops demo_sys vma_list_init = (s1, l1)" by fastforce
  obtain s2 l2 where d: "vma_list_destroy s1 l1 = (s2, l2)" by fastforce
  have "pmm_wf (mpmm (vs_machine demo_sys))" using demo_res by (simp add: vma_res_def)
  from vma_ops_no_leak[OF this _ r d] have "refs s2 = refs demo_sys" by simp
  with r d show ?thesis by blast
qed

text \<open>
  C9. Merging is complete: whatever list \<^verbatim>\<open>merge_adjacent\<close> starts from, no two different
  used areas of its result are compatible neighbours. The restart of the inner loop at index
  1 rather than 0 loses nothing.
\<close>

theorem merge_adjacent_complete:
  assumes "merge_adjacent s l = (s', l')" "i < length (slots l')" "j < length (slots l')" "i \<noteq> j"
    and "v_used (slots l' ! i)" "v_used (slots l' ! j)" "compatible (slots l' ! i) (slots l' ! j)"
  shows "v_end (slots l' ! i) \<noteq> v_start (slots l' ! j)"
  using merge_adjacent_closed[OF assms(1)] assms(2-) by (auto simp: closed_at_def touching_def)

theorem merge_adjacent_complete_witness:
  "\<exists>s' l'. merge_adjacent demo_sys demo_pair = (s', l') \<and> v_used (slots l' ! 0) \<and> v_used (slots l' ! 1) \<and>
     v_end (slots l' ! 1) \<noteq> v_start (slots l' ! 0)"
proof -
  have m: "merge_adjacent demo_sys demo_pair = (demo_sys, demo_pair)"
    by (simp add: merge_adjacent_def vma_capacity_def demo_pair_def upt_rec_numeral merge_scan.simps demo_area_def
        compatible_def zero_vma_def Let_def)
  have "v_end (slots demo_pair ! 1) \<noteq> v_start (slots demo_pair ! 0)"
    by (rule merge_adjacent_complete[OF m])
      (simp_all add: demo_pair_def demo_area_def compatible_def zero_vma_def)
  with m show ?thesis by (auto simp: demo_pair_def demo_area_def)
qed

text \<open>
  C10. A clone has the view of its source. \<^verbatim>\<open>vma_clone\<close> either returns true with a list of
  disjoint areas that gives every address the source's attributes, or returns false with an
  empty list; in both cases only the clone's own chunk pages and file references are new.
\<close>

theorem vma_clone_same_view:
  assumes "pmm_wf (mpmm (vs_machine s))" "areas_ok (slots src)" "vma_clone s src = (ok, s', dst)"
  shows "(if ok then areas_ok (slots dst) \<and> view (slots dst) = view (slots src) else dst = vma_list_init) \<and>
    vma_res s' dst \<and> others s' dst = refs s \<and>
    net_refs k (vs_calls s') = net_refs k (vs_calls s) + file_refs k (slots dst)"
proof -
  note c = vma_clone_spec[OF assms(3)]
  have v: "if ok then areas_ok (slots dst) \<and> view (slots dst) = view (slots src) else dst = vma_list_init"
    using c(2,3) assms(2) by simp
  have "vma_res s vma_list_init" using assms(1) by (simp add: vma_res_def vma_list_init_def)
  then have st: "vma_res s' dst" "others s' dst = others s vma_list_init" "books s' dst = books s vma_list_init"
    using c(1) by (simp_all add: steps_def)
  have "others s' dst = refs s" using st(2) by (simp add: others_def vma_list_init_def)
  moreover have "net_refs k (vs_calls s') = net_refs k (vs_calls s) + file_refs k (slots dst)"
    using fun_cong[OF st(3), of k] by (simp add: books_def vma_list_init_def)
  ultimately show ?thesis using v st(1) by blast
qed

theorem vma_clone_same_view_witness:
  "\<exists>ok s' dst. vma_clone demo_sys demo_list = (ok, s', dst) \<and> vma_res s' dst \<and>
     (if ok then view (slots dst) 0x2000 = Some (attrs demo_area) else dst = vma_list_init)"
proof -
  obtain ok s' dst where c: "vma_clone demo_sys demo_list = (ok, s', dst)" by (metis prod_cases3)
  have wf: "pmm_wf (mpmm (vs_machine demo_sys))" using demo_res by (simp add: vma_res_def)
  have "view (slots demo_list) 0x2000 = Some (attrs demo_area)"
    by (simp add: view_def demo_slots covers_def demo_area_def)
  with vma_clone_same_view[OF wf demo_areas c] c show ?thesis by (auto split: if_splits)
qed

text \<open>
  C11. Lookups agree with the view. In a list of disjoint areas, \<^verbatim>\<open>vma_lookup\<close> finds an
  area exactly for the mapped addresses, and it is the one area that contains the address;
  \<^verbatim>\<open>vma_overlaps\<close> reports an overlap exactly when some address of a non-empty range is
  mapped.
\<close>

theorem vma_lookup_view:
  assumes "areas_ok (slots l)"
  shows "map_option attrs (vma_lookup l va) = view (slots l) va \<and>
    (vma_lookup l va = Some v \<longleftrightarrow> v \<in> set (slots l) \<and> covers v va) \<and>
    (start < end \<longrightarrow>
      (vma_overlaps l start end \<longleftrightarrow> (\<exists>va. start \<le> va \<and> va < end \<and> vma_lookup l va \<noteq> None)))"
proof -
  have f: "vma_lookup l va = find (\<lambda>v. covers v va) (slots l)" for va
    by (simp add: vma_lookup_def covers_def)
  have v: "map_option attrs (vma_lookup l va) = view (slots l) va" for va by (simp add: f view_def)
  have "vma_lookup l va = Some v \<longleftrightarrow> v \<in> set (slots l) \<and> covers v va"
    unfolding f by (rule find_unique[OF assms])
  moreover have "start < end \<longrightarrow>
      (vma_overlaps l start end \<longleftrightarrow> (\<exists>va. start \<le> va \<and> va < end \<and> vma_lookup l va \<noteq> None))"
    by (simp add: vma_overlaps_view[OF assms] in_range_def flip: v)
  ultimately show ?thesis using v by blast
qed

theorem vma_lookup_view_witness:
  "vma_lookup demo_list 0x2fff = Some demo_area \<and> \<not> vma_overlaps demo_list 0x3000 0x4000"
  using vma_lookup_view[OF demo_areas, of "0x2fff" demo_area "0x3000" "0x4000"]
  by (auto simp: demo_slots covers_def demo_area_def vma_lookup_def)

text \<open>
  C12. Stack growth. When \<^verbatim>\<open>vma_grow_down\<close> returns true, an area that has the required
  flags now starts at the page, at most 2048 pages below where it started; the addresses in
  between were unmapped and now have the area's attributes, and no other address changes.
  When it returns false the list is unchanged.
\<close>

theorem vma_grow_down_spec:
  assumes "areas_ok (slots l)" "vma_grow_down l page fl = (ok, l', out)"
  shows "if ok then \<exists>old v. out = Some v \<and> page < old \<and> v_start v = page \<and> v_flags v AND fl = fl \<and>
        (old - page) div PAGE_SIZE \<le> MAX_GROWDOWN_PAGES \<and>
        (\<forall>va. page \<le> va \<and> va < old \<longrightarrow> view (slots l) va = None) \<and>
        view (slots l) old = Some (attrs v) \<and> areas_ok (slots l') \<and>
        view (slots l') = spec_insert page old (attrs v) (view (slots l))
    else l' = l"
proof (cases ok)
  case True
  then obtain v where v: "out = Some v" using assms(2) by (auto elim: vma_grow_down_cases)
  then have "vma_grow_down l page fl = (True, l', Some v)" using assms(2) True by simp
  from vma_grow_down_view[OF this assms(1)] show ?thesis using True v unfolding in_range_def by auto
next
  case False
  then show ?thesis using assms(2) by (auto elim: vma_grow_down_cases)
qed

theorem vma_grow_down_spec_witness:
  "\<exists>l' v old. vma_grow_down demo_list 0 2 = (True, l', Some v) \<and> v_start v = 0 \<and>
     view (slots l') = spec_insert 0 old (attrs v) (view (slots demo_list))"
proof -
  have "vma_grow_down demo_list 0 2 =
      (True, demo_list\<lparr>slots := (slots demo_list)[0 := demo_area\<lparr>v_start := 0\<rparr>]\<rparr>, Some (demo_area\<lparr>v_start := 0\<rparr>))"
    by (simp add: vma_grow_down_def demo_slots vma_capacity_def upt_rec_numeral demo_area_def PAGE_SIZE_def
        MAX_GROWDOWN_PAGES_def vma_overlaps_def overlaps_def)
  from this vma_grow_down_spec[OF demo_areas this] show ?thesis by auto
qed

end
