(* ===== verification/Kstr.thy ===== *)
theory Kstr
  imports Spore_Prelude "HOL-Library.Sublist"
begin

text \<open>
  C strings and the helpers of \<^verbatim>\<open>kernel/src/include/kstr.h\<close> and
  \<^verbatim>\<open>kernel/src/lib/mem.c\<close>. A C string is the list of its characters before the
  terminating NUL; a character array holds such a string, and copying into it replaces what
  the array held. A byte buffer is a list of bytes.
\<close>

type_synonym cstr = string

fun str_eq :: "cstr \<Rightarrow> cstr \<Rightarrow> bool" where
  "str_eq (a # as) (b # bs) = (if a \<noteq> b then False else str_eq as bs)"
| "str_eq [] [] = True"
| "str_eq (a # as) [] = False"
| "str_eq [] (b # bs) = False"

fun starts_with :: "cstr \<Rightarrow> cstr \<Rightarrow> bool" where
  "starts_with s [] = True"
| "starts_with [] (p # ps) = False"
| "starts_with (c # s) (p # ps) = (if c \<noteq> p then False else starts_with s ps)"

text \<open>What \<^verbatim>\<open>copy_cstr\<close> leaves in the array \<open>dst\<close> of \<open>cap\<close> characters.\<close>

definition copy_cstr :: "cstr \<Rightarrow> nat \<Rightarrow> cstr option \<Rightarrow> cstr" where
  "copy_cstr dst cap src =
     (if cap = 0 then dst else case src of None \<Rightarrow> [] | Some s \<Rightarrow> take (cap - 1) s)"

fun base_name_loop :: "cstr \<Rightarrow> cstr \<Rightarrow> cstr" where
  "base_name_loop base [] = base"
| "base_name_loop base (c # p) = base_name_loop (if c = CHR ''/'' \<and> p \<noteq> [] then p else base) p"

definition base_name :: "cstr option \<Rightarrow> cstr" where
  "base_name path = (let base = (case path of None \<Rightarrow> [] | Some s \<Rightarrow> s) in base_name_loop base base)"

definition kstrlen :: "cstr \<Rightarrow> nat" where
  "kstrlen s = length s"

text \<open>The character at an index of a C string, the terminator included.\<close>

definition char_at :: "cstr \<Rightarrow> nat \<Rightarrow> char" where
  "char_at s i = (if i < length s then s ! i else CHR 0x00)"

definition kmemset :: "u8 list \<Rightarrow> int \<Rightarrow> nat \<Rightarrow> u8 list" where
  "kmemset dst value len = replicate len (word_of_int value) @ drop len dst"

definition kmemcpy :: "u8 list \<Rightarrow> u8 list \<Rightarrow> nat \<Rightarrow> u8 list" where
  "kmemcpy dst src len = take len src @ drop len dst"

fun kmemcmp :: "u8 list \<Rightarrow> u8 list \<Rightarrow> nat \<Rightarrow> int" where
  "kmemcmp (a # as) (b # bs) (Suc len) = (if a \<noteq> b then uint a - uint b else kmemcmp as bs len)"
| "kmemcmp as bs len = 0"

lemma str_eq_iff [simp]: "str_eq a b \<longleftrightarrow> a = b"
  by (induction a b rule: str_eq.induct) auto

lemma starts_with_iff: "starts_with s p \<longleftrightarrow> prefix p s"
  by (induction s p rule: starts_with.induct) auto

lemma starts_with_append: "starts_with s p \<longleftrightarrow> (\<exists>r. s = p @ r)"
  by (simp add: starts_with_iff prefix_def)

lemma copy_cstr_bound: "0 < cap \<Longrightarrow> length (copy_cstr dst cap src) < cap"
  by (auto simp: copy_cstr_def split: option.split)

lemma copy_cstr_fits: "length s < cap \<Longrightarrow> copy_cstr dst cap (Some s) = s"
  by (auto simp: copy_cstr_def)

lemma base_name_loop_suffix: "suffix p b \<Longrightarrow> suffix (base_name_loop b p) b"
proof (induction b p rule: base_name_loop.induct)
  case (2 base c p)
  have sub: "suffix p base" using 2(2) by (rule suffix_ConsD)
  show ?case
  proof (cases "c = CHR ''/'' \<and> p \<noteq> []")
    case True
    then have "suffix (base_name_loop p p) p" using 2(1) by simp
    from suffix_order.trans[OF this sub] show ?thesis using True by simp
  next
    case False
    have "(if c = CHR ''/'' \<and> p \<noteq> [] then p else base) = base" by (rule if_not_P[OF False])
    then show ?thesis using 2(1) sub by simp
  qed
qed simp

lemma kmemcmp_eq:
  assumes "length as = length bs"
  shows "kmemcmp as bs (length as) = 0 \<longleftrightarrow> as = bs"
  using assms
proof (induction as bs rule: list_induct2)
  case (Cons a as b bs)
  have "uint a - uint b = 0 \<longleftrightarrow> a = b" by (simp only: diff_eq_eq add_0 word_uint_eq_iff)
  then show ?case using Cons by simp
qed simp

end
