(* ===== verification/Cell.thy ===== *)
theory Cell
  imports Kstr Vma
begin

text \<open>
  The process structures of \<^verbatim>\<open>kernel/src/include/cell.h\<close>: capabilities, CPU budgets,
  signal actions and domains. A pointer into one of the kernel's tables is the index of the
  entry, and NULL is \<^const>\<open>None\<close>; a character array is the string it holds.
\<close>

definition CELL_PATH_MAX :: nat where
  "CELL_PATH_MAX = 256"

definition CELL_FS_RULE_CAP :: nat where
  "CELL_FS_RULE_CAP = 8"

definition MAX_FDS :: nat where
  "MAX_FDS = 64"

definition CELL_FS_READ :: u8 where
  "CELL_FS_READ = 1"

definition CELL_FS_WRITE :: u8 where
  "CELL_FS_WRITE = 2"

definition CELL_FS_EXEC :: u8 where
  "CELL_FS_EXEC = 4"

definition CAP_ENFORCE :: u64 where
  "CAP_ENFORCE = 1"

definition CAP_EGRESS_ENFORCE :: u64 where
  "CAP_EGRESS_ENFORCE = 2"

record fs_rule =
  rule_path :: cstr
  rule_rights :: u8

text \<open>The rules in use: the first \<^verbatim>\<open>fs_rule_count\<close> entries of the array.\<close>

record capability_set =
  syscall_allow :: "u64 list"
  fs_rights :: u64
  cap_flags :: u64
  memory_page_cap :: u64
  max_domains :: u64
  fs_rules :: "fs_rule list"
  egress_ip :: u32
  egress_port :: u16
  egress_proto :: u8
  egress_prefix :: u8

record cpu_budget =
  remaining_ticks :: u64
  max_ticks :: u64

record signal_action =
  sa_handler :: u64
  sa_flags :: u64
  sa_restorer :: u64
  sa_mask :: u64

record domain =
  dom_id :: int
  parent_id :: int
  pgrp_id :: int
  session_id :: int
  dom_refcount :: u16
  dom_used :: bool
  zombie :: bool
  exit_status :: int
  term_signal :: int
  uid :: u32
  euid :: u32
  gid :: u32
  egid :: u32
  start_ticks :: u64
  cpu_ticks :: u64
  minor_faults :: u64
  major_faults :: u64
  unsupported_syscalls :: u64
  last_unsupported_syscall :: u64
  unsupported_ioctls :: u64
  last_unsupported_ioctl :: u64
  dom_mm :: "nat option"
  fds :: "nat option list"
  fd_flags :: "u8 list"
  dom_name :: cstr
  exec_path :: cstr
  argv0 :: cstr
  cmdline :: cstr
  cwd :: cstr
  fs_root :: cstr
  chroot :: cstr
  caps :: capability_set
  budget :: cpu_budget
  signal_actions :: "signal_action list"

text \<open>Zeroed structures, as \<^verbatim>\<open>= {0}\<close> and \<^verbatim>\<open>kmemset\<close> make them.\<close>

definition zero_caps :: capability_set where
  "zero_caps = \<lparr>syscall_allow = replicate 8 0, fs_rights = 0, cap_flags = 0, memory_page_cap = 0,
     max_domains = 0, fs_rules = [], egress_ip = 0, egress_port = 0, egress_proto = 0,
     egress_prefix = 0\<rparr>"

definition zero_action :: signal_action where
  "zero_action = \<lparr>sa_handler = 0, sa_flags = 0, sa_restorer = 0, sa_mask = 0\<rparr>"

definition zero_domain :: domain where
  "zero_domain = \<lparr>dom_id = 0, parent_id = 0, pgrp_id = 0, session_id = 0, dom_refcount = 0,
     dom_used = False, zombie = False, exit_status = 0, term_signal = 0, uid = 0, euid = 0, gid = 0,
     egid = 0, start_ticks = 0, cpu_ticks = 0, minor_faults = 0, major_faults = 0,
     unsupported_syscalls = 0, last_unsupported_syscall = 0, unsupported_ioctls = 0,
     last_unsupported_ioctl = 0, dom_mm = None, fds = replicate MAX_FDS None,
     fd_flags = replicate MAX_FDS 0, dom_name = [], exec_path = [], argv0 = [], cmdline = [],
     cwd = [], fs_root = [], chroot = [], caps = zero_caps,
     budget = \<lparr>remaining_ticks = 0, max_ticks = 0\<rparr>,
     signal_actions = replicate 65 zero_action\<rparr>"

end
