(* ===== verification/Policy.thy ===== *)
theory Policy
  imports Cell Vma_Ops
begin

text \<open>
  Capability policies, \<^verbatim>\<open>kernel/src/proc/policy.c\<close>: parsing of manifests, the subset
  test a second policy must pass, and the checks the system calls make. The current domain,
  \<^verbatim>\<open>cell_current_domain_internal()\<close>, is an argument, and so is its area list.
\<close>

subsection \<open>Manifest parsing\<close>

definition is_digit :: "char \<Rightarrow> bool" where
  "is_digit c \<longleftrightarrow> (of_char CHR ''0'' :: nat) \<le> of_char c \<and> (of_char c :: nat) \<le> of_char CHR ''9''"

definition digit_value :: "char \<Rightarrow> u32" where
  "digit_value c = of_char c - of_char CHR ''0''"

text \<open>The digit loop: the value and the rest of the string, or failure above \<open>max\<close>.\<close>

fun dec_loop :: "cstr \<Rightarrow> u32 \<Rightarrow> u32 \<Rightarrow> (u32 \<times> cstr) option" where
  "dec_loop [] limit value = Some (value, [])"
| "dec_loop (c # p) limit value =
     (if is_digit c
      then let value = value * 10 + digit_value c
           in if value > limit then None else dec_loop p limit value
      else Some (value, c # p))"

definition parse_dec :: "cstr \<Rightarrow> u32 \<Rightarrow> (u32 \<times> cstr) option" where
  "parse_dec cursor limit =
     (if cursor = [] \<or> \<not> is_digit (hd cursor) then None else dec_loop cursor limit 0)"

text \<open>\<^verbatim>\<open>*s++ != c\<close> as a parser step.\<close>

definition expect :: "char \<Rightarrow> cstr \<Rightarrow> cstr option" where
  "expect c s = (if s \<noteq> [] \<and> hd s = c then Some (tl s) else None)"

definition parse_ipv4_port :: "cstr \<Rightarrow> (u32 \<times> u8 \<times> u16) option" where
  "parse_ipv4_port s =
     Option.bind (parse_dec s 255) (\<lambda>(a, s).
     Option.bind (expect CHR ''.'' s) (\<lambda>s.
     Option.bind (parse_dec s 255) (\<lambda>(b, s).
     Option.bind (expect CHR ''.'' s) (\<lambda>s.
     Option.bind (parse_dec s 255) (\<lambda>(c, s).
     Option.bind (expect CHR ''.'' s) (\<lambda>s.
     Option.bind (parse_dec s 255) (\<lambda>(d, s).
     Option.bind (if s \<noteq> [] \<and> hd s = CHR ''/'' then parse_dec (tl s) 32 else Some (32, s))
       (\<lambda>(prefix_value, s).
     Option.bind (expect CHR '':'' s) (\<lambda>s.
     Option.bind (parse_dec s 65535) (\<lambda>(p, s).
       if s \<noteq> [] then None
       else Some (a OR push_bit 8 b OR push_bit 16 c OR push_bit 24 d,
                  ucast prefix_value, ucast p)))))))))))"

subsection \<open>Egress rules\<close>

definition egress_mask :: "u8 \<Rightarrow> u32" where
  "egress_mask pfx = (if pfx = 0 then 0 else drop_bit (32 - unat pfx) 0xffffffff)"

definition egress_match :: "capability_set \<Rightarrow> u8 \<Rightarrow> u32 \<Rightarrow> u16 \<Rightarrow> bool" where
  "egress_match c proto ip port \<longleftrightarrow>
     (if cap_flags c AND CAP_EGRESS_ENFORCE = 0 then True
      else egress_proto c = proto \<and> egress_port c = port \<and>
           (egress_ip c XOR ip) AND egress_mask (egress_prefix c) = 0)"

subsection \<open>The subset test\<close>

definition path_covered :: "fs_rule \<Rightarrow> fs_rule \<Rightarrow> bool" where
  "path_covered requested parent \<longleftrightarrow>
     str_eq (rule_path parent) ''/'' \<or>
     (starts_with (rule_path requested) (rule_path parent) \<and>
      (char_at (rule_path requested) (kstrlen (rule_path parent)) = CHR 0x00 \<or>
       char_at (rule_path requested) (kstrlen (rule_path parent)) = CHR ''/''))"

definition rights_covered :: "fs_rule \<Rightarrow> fs_rule \<Rightarrow> bool" where
  "rights_covered requested parent \<longleftrightarrow> rule_rights requested AND NOT (rule_rights parent) = 0"

definition cidr_subset :: "capability_set \<Rightarrow> capability_set \<Rightarrow> bool" where
  "cidr_subset requested parent \<longleftrightarrow>
     egress_proto parent = egress_proto requested \<and> egress_port parent = egress_port requested \<and>
     egress_prefix parent \<le> egress_prefix requested \<and>
     (egress_ip parent XOR egress_ip requested) AND egress_mask (egress_prefix parent) = 0 \<and>
     (egress_ip requested AND egress_mask (egress_prefix requested) = egress_ip requested \<or>
      egress_prefix requested = 32)"

definition caps_subset :: "capability_set \<Rightarrow> capability_set \<Rightarrow> bool" where
  "caps_subset requested parent \<longleftrightarrow>
     (if list_ex (\<lambda>i. syscall_allow requested ! i AND NOT (syscall_allow parent ! i) \<noteq> 0) [0..<8]
      then False
      else if cap_flags requested AND CAP_EGRESS_ENFORCE \<noteq> 0 \<and>
              cap_flags parent AND CAP_EGRESS_ENFORCE = 0 then True
      else if cap_flags requested AND CAP_EGRESS_ENFORCE \<noteq> 0 \<and> \<not> cidr_subset requested parent
           then False
      else if cap_flags requested AND CAP_EGRESS_ENFORCE = 0 \<and>
              cap_flags parent AND CAP_EGRESS_ENFORCE \<noteq> 0 then False
      else if memory_page_cap parent \<noteq> 0 \<and>
              (memory_page_cap requested = 0 \<or> memory_page_cap requested > memory_page_cap parent)
           then False
      else if fs_rules parent \<noteq> [] then
        list_all (\<lambda>r. list_ex (\<lambda>p. path_covered r p \<and> rights_covered r p) (fs_rules parent))
          (fs_rules requested)
      else True)"

subsection \<open>Building a capability set\<close>

definition cap_allow :: "u64 \<Rightarrow> capability_set \<Rightarrow> capability_set" where
  "cap_allow nr c =
     (if nr < 512
      then c\<lparr>syscall_allow := (syscall_allow c)[unat (nr div 64) :=
               syscall_allow c ! unat (nr div 64) OR push_bit (unat (nr mod 64)) 1]\<rparr>
      else c)"

definition common_syscalls :: "u64 list" where
  "common_syscalls =
     [17, 19, 23, 24, 25, 29, 57, 59, 63, 64, 65, 66, 72, 73, 80, 93, 94, 96, 98, 99, 101,
      103, 48, 113, 115, 123, 124, 134, 135, 144, 146, 160, 161, 172, 173, 174, 175, 176, 177, 178, 179, 198,
      200, 203, 204, 206, 207, 208, 209, 211, 212, 214, 215, 216, 220, 221, 222, 226, 233, 260, 261, 278, 439]"

definition cap_allow_common :: "capability_set \<Rightarrow> capability_set" where
  "cap_allow_common c = fold cap_allow common_syscalls c"

definition file_syscalls :: "u64 list" where
  "file_syscalls = [34, 35, 38, 46, 49, 50, 52, 53, 54, 55, 56, 61, 62, 78, 79, 82, 276]"

definition cap_allow_files :: "capability_set \<Rightarrow> capability_set" where
  "cap_allow_files c = fold cap_allow file_syscalls c"

definition cap_add_fs_rule :: "capability_set \<Rightarrow> cstr \<Rightarrow> u8 \<Rightarrow> capability_set option" where
  "cap_add_fs_rule c path rights =
     (if char_at path 0 \<noteq> CHR ''/'' \<or> length (fs_rules c) \<ge> CELL_FS_RULE_CAP then None
      else Some (c\<lparr>fs_rules := fs_rules c @
        [\<lparr>rule_path = copy_cstr [] CELL_PATH_MAX (Some path), rule_rights = rights\<rparr>]\<rparr>))"

subsection \<open>Checks made by the system calls\<close>

definition path_matches_rule :: "cstr \<Rightarrow> fs_rule \<Rightarrow> bool" where
  "path_matches_rule path rule \<longleftrightarrow>
     (if str_eq (rule_path rule) ''/'' then True
      else starts_with path (rule_path rule) \<and>
        (char_at path (kstrlen (rule_path rule)) = CHR 0x00 \<or>
         char_at path (kstrlen (rule_path rule)) = CHR ''/''))"

definition cell_fs_path_allowed :: "domain option \<Rightarrow> cstr \<Rightarrow> u8 \<Rightarrow> bool" where
  "cell_fs_path_allowed current path rights \<longleftrightarrow>
     (case current of
        None \<Rightarrow> True
      | Some d \<Rightarrow>
        if cap_flags (caps d) AND CAP_ENFORCE = 0 \<or> fs_rules (caps d) = [] then True
        else list_ex (\<lambda>rule. path_matches_rule path rule \<and>
               (rights = 0 \<or> rule_rights rule AND rights = rights)) (fs_rules (caps d)))"

definition cell_syscall_allowed :: "domain option \<Rightarrow> u64 \<Rightarrow> bool" where
  "cell_syscall_allowed current nr \<longleftrightarrow>
     (case current of
        None \<Rightarrow> True
      | Some d \<Rightarrow>
        if cap_flags (caps d) AND CAP_ENFORCE = 0 then True
        else if nr \<ge> 512 then False
        else syscall_allow (caps d) ! unat (nr div 64) AND push_bit (unat (nr mod 64)) 1 \<noteq> 0)"

definition cell_egress_allowed :: "domain option \<Rightarrow> u8 \<Rightarrow> u32 \<Rightarrow> u16 \<Rightarrow> bool" where
  "cell_egress_allowed current proto ip port \<longleftrightarrow>
     (case current of
        None \<Rightarrow> True
      | Some d \<Rightarrow>
        if cap_flags (caps d) AND CAP_EGRESS_ENFORCE = 0 then True
        else egress_match (caps d) proto ip port)"

definition page_count :: "u64 \<Rightarrow> u64 \<Rightarrow> u64" where
  "page_count start end = (if end > start then (end - start) div 4096 else 0)"

definition ranges_overlap :: "u64 \<Rightarrow> u64 \<Rightarrow> u64 \<Rightarrow> u64 \<Rightarrow> bool" where
  "ranges_overlap a_start a_end b_start b_end \<longleftrightarrow> a_start < b_end \<and> b_start < a_end"

definition overlap_pages :: "vma_list option \<Rightarrow> u64 \<Rightarrow> u64 \<Rightarrow> u64" where
  "overlap_pages vmas start end =
     (case vmas of
        None \<Rightarrow> 0
      | Some l \<Rightarrow>
        if end \<le> start then 0
        else fold (\<lambda>v total.
               if \<not> v_used v \<or> \<not> ranges_overlap start end (v_start v) (v_end v) then total
               else total + page_count (if start > v_start v then start else v_start v)
                              (if end < v_end v then end else v_end v)) (slots l) 0)"

definition memory_pages_allowed :: "domain option \<Rightarrow> vma_list option \<Rightarrow> u64 \<Rightarrow> u64 \<Rightarrow> bool" where
  "memory_pages_allowed current vmas removed_pages added_pages \<longleftrightarrow>
     (case current of
        None \<Rightarrow> True
      | Some d \<Rightarrow>
        if memory_page_cap (caps d) = 0 then True
        else case vmas of
          None \<Rightarrow> False
        | Some l \<Rightarrow>
          let current_pages = vma_virtual_pages l;
              base_pages = (if removed_pages > current_pages then 0 else current_pages - removed_pages)
          in added_pages \<le> memory_page_cap (caps d) \<and>
             base_pages \<le> memory_page_cap (caps d) - added_pages)"

definition cell_map_add_allowed :: "domain option \<Rightarrow> vma_list option \<Rightarrow> u64 \<Rightarrow> u64 \<Rightarrow> bool \<Rightarrow> bool" where
  "cell_map_add_allowed current vmas start end replace_existing \<longleftrightarrow>
     (case current of
        None \<Rightarrow> True
      | Some d \<Rightarrow>
        if memory_page_cap (caps d) = 0 then True
        else memory_pages_allowed current vmas
               (if replace_existing then overlap_pages vmas start end else 0) (page_count start end))"

definition cell_map_resize_allowed ::
    "domain option \<Rightarrow> vma_list option \<Rightarrow> u64 \<Rightarrow> u64 \<Rightarrow> u64 \<Rightarrow> u64 \<Rightarrow> bool \<Rightarrow> bool" where
  "cell_map_resize_allowed current vmas old_start old_end new_start new_end replace_new \<longleftrightarrow>
     (case current of
        None \<Rightarrow> True
      | Some d \<Rightarrow>
        if memory_page_cap (caps d) = 0 then True
        else memory_pages_allowed current vmas
               (overlap_pages vmas old_start old_end +
                (if replace_new then overlap_pages vmas new_start new_end else 0))
               (page_count new_start new_end))"

subsection \<open>Applying a manifest\<close>

definition IPPROTO_TCP :: u8 where
  "IPPROTO_TCP = 6"

definition IPPROTO_UDP :: u8 where
  "IPPROTO_UDP = 17"

definition egress_caps :: "capability_set \<Rightarrow> u8 \<Rightarrow> u32 \<times> u8 \<times> u16 \<Rightarrow> capability_set" where
  "egress_caps c proto = (\<lambda>(ip, pfx, port).
     (cap_allow_files c)\<lparr>cap_flags := cap_flags c OR CAP_EGRESS_ENFORCE, egress_proto := proto,
       egress_prefix := pfx, egress_ip := ip AND egress_mask pfx, egress_port := port\<rparr>)"

text \<open>
  The branch of \<^verbatim>\<open>cell_apply_policy\<close> for each manifest: the capabilities and the domain
  with its budget or root set, or the error \<open>-2\<close>.
\<close>

definition manifest_caps :: "cstr \<Rightarrow> capability_set \<Rightarrow> domain \<Rightarrow> (capability_set \<times> domain) option" where
  "manifest_caps manifest c d =
     (if str_eq manifest ''compute-only'' then
        Some (c, d\<lparr>budget := \<lparr>remaining_ticks = 20, max_ticks = 20\<rparr>\<rparr>)
      else if starts_with manifest ''fs:/tmp'' then
        Option.bind (cap_add_fs_rule (cap_allow_files c) ''/tmp'' (CELL_FS_READ OR CELL_FS_WRITE OR CELL_FS_EXEC)) (\<lambda>c.
        Option.bind (cap_add_fs_rule c ''/lib'' (CELL_FS_READ OR CELL_FS_EXEC)) (\<lambda>c.
        Option.bind (cap_add_fs_rule c ''/usr/local/lib'' (CELL_FS_READ OR CELL_FS_EXEC)) (\<lambda>c.
        Option.bind (if starts_with manifest ''fs:/tmp;exec:''
              then cap_add_fs_rule c (drop (length ''fs:/tmp;exec:'') manifest) (CELL_FS_READ OR CELL_FS_EXEC)
              else if \<not> str_eq manifest ''fs:/tmp'' then None else Some c) (\<lambda>c.
        Some (c, d\<lparr>fs_root := ''/tmp''\<rparr>)))))
      else if str_eq manifest ''mem:1'' then Some (c\<lparr>memory_page_cap := 1\<rparr>, d)
      else if str_eq manifest ''net:none'' then
        Some ((cap_allow_files c)\<lparr>cap_flags := cap_flags c OR CAP_EGRESS_ENFORCE, egress_prefix := 32\<rparr>, d)
      else if str_eq manifest ''net:dns'' then
        Some ((cap_allow_files c)\<lparr>cap_flags := cap_flags c OR CAP_EGRESS_ENFORCE, egress_proto := IPPROTO_UDP,
          egress_prefix := 0, egress_port := 53\<rparr>, d)
      else if starts_with manifest ''net:udp:'' then
        Option.bind (parse_ipv4_port (drop 8 manifest)) (\<lambda>r. Some (egress_caps c IPPROTO_UDP r, d))
      else if starts_with manifest ''net:tcp:'' then
        Option.bind (parse_ipv4_port (drop 8 manifest)) (\<lambda>r. Some (egress_caps c IPPROTO_TCP r, d))
      else None)"

definition cell_apply_policy :: "domain option \<Rightarrow> cstr \<Rightarrow> int \<times> domain option" where
  "cell_apply_policy current manifest =
     (case current of
        None \<Rightarrow> (-3, None)
      | Some d \<Rightarrow>
        if str_eq manifest ''bad-manifest'' then (-1, Some d)
        else
          let c = (cap_allow_common zero_caps)\<lparr>cap_flags := CAP_ENFORCE\<rparr>;
              d = d\<lparr>fs_root := ''/''\<rparr>
          in case manifest_caps manifest c d of
               None \<Rightarrow> (-2, Some d)
             | Some (c, d') \<Rightarrow>
               if cap_flags (caps d') AND CAP_ENFORCE \<noteq> 0 \<and> \<not> caps_subset c (caps d')
               then (-1, Some d')
               else (0, Some (d'\<lparr>caps := c\<rparr>)))"

end
