(* ===== verification/Policy_Lemmas.thy ===== *)
theory Policy_Lemmas
  imports Policy
begin

text \<open>
  Properties of the policy checks: what a successful subset test guarantees, where it does
  not, why a policy cannot be replaced afterwards, and the manifest parser.
\<close>

subsection \<open>Path rules\<close>

definition under :: "cstr \<Rightarrow> cstr \<Rightarrow> bool" where
  "under path dir \<longleftrightarrow> dir = ''/'' \<or> (\<exists>rest. path = dir @ rest \<and> (rest = [] \<or> hd rest = CHR ''/''))"

text \<open>No character before the terminator of a C string is NUL.\<close>

definition nul_free :: "cstr \<Rightarrow> bool" where
  "nul_free s \<longleftrightarrow> CHR 0x00 \<notin> set s"

lemma boundary_iff:
  assumes "nul_free s"
  shows "starts_with s p \<and> (char_at s (kstrlen p) = CHR 0x00 \<or> char_at s (kstrlen p) = CHR ''/'') \<longleftrightarrow>
    (\<exists>rest. s = p @ rest \<and> (rest = [] \<or> hd rest = CHR ''/''))"
proof -
  have "char_at (p @ rest) (kstrlen p) = (if rest = [] then CHR 0x00 else hd rest)" for rest
    by (cases rest) (simp_all add: char_at_def kstrlen_def)
  moreover have "hd rest \<noteq> CHR 0x00" if "s = p @ rest" "rest \<noteq> []" for rest
    using assms that by (cases rest) (auto simp: nul_free_def)
  ultimately show ?thesis unfolding starts_with_append by metis
qed

lemma path_matches_rule_iff: "nul_free path \<Longrightarrow> path_matches_rule path rule \<longleftrightarrow> under path (rule_path rule)"
  using boundary_iff[of path "rule_path rule"] by (auto simp: path_matches_rule_def under_def)

lemma path_covered_iff:
  "nul_free (rule_path r) \<Longrightarrow> path_covered r p \<longleftrightarrow> under (rule_path r) (rule_path p)"
  using boundary_iff[of "rule_path r" "rule_path p"] by (auto simp: path_covered_def under_def)

lemma under_trans:
  assumes "under path r" "under r p" "hd p = CHR ''/''" "p \<noteq> []"
  shows "under path p"
proof (cases "p = ''/''")
  case False
  obtain x where x: "r = p @ x" "x = [] \<or> hd x = CHR ''/''" using assms(2) False by (auto simp: under_def)
  show ?thesis
  proof (cases "r = ''/''")
    case True
    then have "p = ''/''" using x assms(4) by (cases p) auto
    then show ?thesis using False by simp
  next
    case r: False
    then obtain y where y: "path = r @ y" "y = [] \<or> hd y = CHR ''/''" using assms(1) by (auto simp: under_def)
    have "path = p @ (x @ y)" "x @ y = [] \<or> hd (x @ y) = CHR ''/''"
      using x y by (auto simp: hd_append)
    then show ?thesis unfolding under_def by blast
  qed
qed (simp add: under_def)

subsection \<open>Rights and masks\<close>

lemma and_not_zero_bits: "(a AND NOT b = (0 :: 'a :: len word)) \<longleftrightarrow> (\<forall>n. bit a n \<longrightarrow> bit b n)"
proof
  assume h: "a AND NOT b = 0"
  show "\<forall>n. bit a n \<longrightarrow> bit b n"
  proof (intro allI impI)
    fix n assume a: "bit a n"
    then have "n < LENGTH('a)" by (rule bit_imp_le_length)
    moreover have "\<not> bit (a AND NOT b) n" using h by simp
    ultimately show "bit b n" using a by (simp add: bit_simps)
  qed
next
  assume "\<forall>n. bit a n \<longrightarrow> bit b n"
  then show "a AND NOT b = 0" by (intro bit_word_eqI) (simp add: bit_simps)
qed

lemma and_eq_bits: "(a AND b = (b :: 'a :: len word)) \<longleftrightarrow> (\<forall>n. bit b n \<longrightarrow> bit a n)"
proof
  assume h: "a AND b = b"
  show "\<forall>n. bit b n \<longrightarrow> bit a n" by (metis h bit_and_iff)
next
  assume "\<forall>n. bit b n \<longrightarrow> bit a n"
  then show "a AND b = b" by (intro bit_word_eqI) (auto simp: bit_simps)
qed

lemma and_zero_bits: "(a AND b = (0 :: 'a :: len word)) \<longleftrightarrow> (\<forall>n. bit b n \<longrightarrow> \<not> bit a n)"
proof
  assume h: "a AND b = 0"
  show "\<forall>n. bit b n \<longrightarrow> \<not> bit a n" by (metis h bit_and_iff bit_0_eq bot_apply bot_bool_def)
next
  assume "\<forall>n. bit b n \<longrightarrow> \<not> bit a n"
  then show "a AND b = 0" by (intro bit_word_eqI) (auto simp: bit_simps)
qed

lemma bit_drop_ones: "bit (drop_bit k (- 1 :: u32)) n \<longleftrightarrow> n + k < 32"
  unfolding bit_drop_bit_eq o_def bit_minus_1_iff possible_bit_word by (simp add: add.commute) linarith

lemma bit_egress_mask: "bit (egress_mask p) n \<longleftrightarrow> n < 32 \<and> n < unat p"
proof (cases "p = 0")
  case False
  have "(0xffffffff :: u32) = - 1" by simp
  then have m: "egress_mask p = drop_bit (32 - unat p) (- 1)" using False by (simp only: egress_mask_def if_False)
  have "bit (egress_mask p) n \<longleftrightarrow> n + (32 - unat p) < 32"
    unfolding m by (rule bit_drop_ones)
  then show ?thesis using False by (auto simp: unat_gt_0)
qed (simp add: egress_mask_def)

subsection \<open>System call bitmaps\<close>

lemma unat_div_mod_64:
  fixes nr :: u64
  shows "unat (nr div 64) = unat nr div 64" "unat (nr mod 64) = unat nr mod 64"
  by (simp_all add: unat_div unat_mod)

lemma syscall_allowed_bit:
  assumes "cap_flags (caps d) AND CAP_ENFORCE \<noteq> 0"
  shows "cell_syscall_allowed (Some d) nr \<longleftrightarrow>
    nr < 512 \<and> bit (syscall_allow (caps d) ! (unat nr div 64)) (unat nr mod 64)"
  using assms and_exp_zero[of "unat nr mod 64" "syscall_allow (caps d) ! (unat nr div 64)"]
  by (auto simp: cell_syscall_allowed_def unat_div_mod_64 push_bit_of_1 not_less)

lemma caps_subset_syscalls:
  assumes "caps_subset r p" "i < 8" "bit (syscall_allow r ! i) n"
  shows "bit (syscall_allow p ! i) n"
proof -
  have "\<not> list_ex (\<lambda>i. syscall_allow r ! i AND NOT (syscall_allow p ! i) \<noteq> 0) [0..<8]"
    using assms(1) by (auto simp: caps_subset_def split: if_splits)
  then have "syscall_allow r ! i AND NOT (syscall_allow p ! i) = 0"
    using assms(2) by (auto simp: list_ex_iff)
  then show ?thesis using assms(3) by (simp add: and_not_zero_bits)
qed

lemma caps_subset_rest:
  assumes "caps_subset r p"
    and "cap_flags r AND CAP_EGRESS_ENFORCE \<noteq> 0 \<longrightarrow> cap_flags p AND CAP_EGRESS_ENFORCE \<noteq> 0"
  shows "cap_flags p AND CAP_EGRESS_ENFORCE \<noteq> 0 \<longrightarrow>
      cap_flags r AND CAP_EGRESS_ENFORCE \<noteq> 0 \<and> cidr_subset r p"
    and "memory_page_cap p \<noteq> 0 \<longrightarrow> memory_page_cap r \<noteq> 0 \<and> memory_page_cap r \<le> memory_page_cap p"
    and "fs_rules p \<noteq> [] \<longrightarrow> (\<forall>x \<in> set (fs_rules r). \<exists>y \<in> set (fs_rules p). path_covered x y \<and> rights_covered x y)"
  using assms by (auto simp: caps_subset_def list_all_iff list_ex_iff not_less split: if_splits)

lemma cidr_subset_match:
  assumes "cidr_subset r p" "egress_match r proto ip port" "cap_flags r AND CAP_EGRESS_ENFORCE \<noteq> 0"
  shows "egress_match p proto ip port"
proof -
  have le: "unat (egress_prefix p) \<le> unat (egress_prefix r)" using assms(1) by (simp add: cidr_subset_def word_le_nat_alt)
  have a: "\<forall>n. bit (egress_mask (egress_prefix p)) n \<longrightarrow> bit (egress_ip p) n = bit (egress_ip r) n"
    using assms(1) by (simp add: cidr_subset_def and_zero_bits bit_simps)
  have b: "\<forall>n. bit (egress_mask (egress_prefix r)) n \<longrightarrow> bit (egress_ip r) n = bit ip n"
  proof -
    have "(egress_ip r XOR ip) AND egress_mask (egress_prefix r) = 0"
      using assms(2,3) by (simp add: egress_match_def)
    then show ?thesis by (simp add: and_zero_bits bit_simps)
  qed
  have "bit (egress_ip p) n = bit ip n" if "bit (egress_mask (egress_prefix p)) n" for n
    using a b le that by (auto simp: bit_egress_mask)
  then have "(egress_ip p XOR ip) AND egress_mask (egress_prefix p) = 0"
    by (simp add: and_zero_bits bit_simps)
  then show ?thesis using assms by (auto simp: cidr_subset_def egress_match_def)
qed

lemma rights_covered_trans:
  assumes "rights_covered x y" "rule_rights x AND rights = rights"
  shows "rule_rights y AND rights = rights"
  using assms unfolding rights_covered_def and_not_zero_bits and_eq_bits by blast

definition rules_ok :: "capability_set \<Rightarrow> bool" where
  "rules_ok c \<longleftrightarrow> (\<forall>r \<in> set (fs_rules c). rule_path r \<noteq> [] \<and> hd (rule_path r) = CHR ''/'' \<and> nul_free (rule_path r))"

lemma caps_subset_paths:
  assumes cov: "\<forall>x \<in> set (fs_rules r). \<exists>y \<in> set (fs_rules p). path_covered x y \<and> rights_covered x y"
    and ok: "rules_ok r" "rules_ok p" "nul_free path"
    and a: "list_ex (\<lambda>rule. path_matches_rule path rule \<and> (rights = 0 \<or> rule_rights rule AND rights = rights)) (fs_rules r)"
  shows "list_ex (\<lambda>rule. path_matches_rule path rule \<and> (rights = 0 \<or> rule_rights rule AND rights = rights)) (fs_rules p)"
proof -
  obtain x where x: "x \<in> set (fs_rules r)" "path_matches_rule path x" "rights = 0 \<or> rule_rights x AND rights = rights"
    using a by (auto simp: list_ex_iff)
  obtain y where y: "y \<in> set (fs_rules p)" "path_covered x y" "rights_covered x y" using cov x(1) by blast
  have "under path (rule_path x)" "under (rule_path x) (rule_path y)"
    using x y ok by (auto simp: path_matches_rule_iff path_covered_iff rules_ok_def)
  then have "under path (rule_path y)" using under_trans y(1) ok(2) by (auto simp: rules_ok_def)
  then have "path_matches_rule path y" by (simp add: path_matches_rule_iff ok(3))
  moreover have "rights = 0 \<or> rule_rights y AND rights = rights" using rights_covered_trans[OF y(3)] x(3) by blast
  ultimately show ?thesis using y(1) by (auto simp: list_ex_iff)
qed

subsection \<open>What a manifest allows\<close>

lemma cap_allow_frame [simp]:
  "cap_flags (cap_allow nr c) = cap_flags c" "length (syscall_allow (cap_allow nr c)) = length (syscall_allow c)"
  "fs_rules (cap_allow nr c) = fs_rules c"
  by (simp_all add: cap_allow_def)

lemma fold_cap_allow_frame [simp]:
  "cap_flags (fold cap_allow ns c) = cap_flags c"
  "length (syscall_allow (fold cap_allow ns c)) = length (syscall_allow c)"
  "fs_rules (fold cap_allow ns c) = fs_rules c"
  by (induction ns arbitrary: c) simp_all

lemma cap_allow_bit:
  assumes "length (syscall_allow c) = 8" "n < 512"
  shows "bit (syscall_allow (cap_allow nr c) ! (n div 64)) (n mod 64) \<longleftrightarrow>
    bit (syscall_allow c ! (n div 64)) (n mod 64) \<or> unat nr = n"
proof (cases "nr < 512")
  case True
  then have u: "unat nr < 512" by (simp add: word_less_nat_alt)
  have b: "bit (push_bit (unat nr mod 64) (1 :: u64)) (n mod 64) \<longleftrightarrow> n mod 64 = unat nr mod 64"
    by (auto simp: bit_exp_iff)
  have "syscall_allow (cap_allow nr c) ! (n div 64) = (if n div 64 = unat nr div 64
      then syscall_allow c ! (n div 64) OR push_bit (unat nr mod 64) 1 else syscall_allow c ! (n div 64))"
    using True u assms by (auto simp: cap_allow_def unat_div_mod_64 nth_list_update)
  moreover have "n = unat nr \<longleftrightarrow> n div 64 = unat nr div 64 \<and> n mod 64 = unat nr mod 64"
    by (metis div_mod_decomp)
  ultimately show ?thesis using b by (auto simp: bit_or_iff)
next
  case False
  then have "unat nr \<noteq> n" using assms(2) by (auto simp: word_less_nat_alt)
  then show ?thesis using False by (simp add: cap_allow_def)
qed

lemma fold_cap_allow_bit:
  assumes "length (syscall_allow c) = 8" "n < 512"
  shows "bit (syscall_allow (fold cap_allow ns c) ! (n div 64)) (n mod 64) \<longleftrightarrow>
    bit (syscall_allow c ! (n div 64)) (n mod 64) \<or> (\<exists>nr \<in> set ns. unat nr = n)"
  using assms(1)
proof (induction ns arbitrary: c)
  case (Cons m ns)
  then show ?case using cap_allow_bit[OF Cons.prems assms(2), of m] by auto
qed simp

definition base_caps :: capability_set where
  "base_caps = (cap_allow_common zero_caps)\<lparr>cap_flags := CAP_ENFORCE\<rparr>"

lemma base_caps_frame [simp]:
  "cap_flags base_caps = CAP_ENFORCE" "length (syscall_allow base_caps) = 8" "fs_rules base_caps = []"
  by (simp_all add: base_caps_def cap_allow_common_def zero_caps_def)

lemma cap_add_fs_rule_frame:
  "cap_add_fs_rule c path rights = Some c' \<Longrightarrow> cap_flags c' = cap_flags c \<and> syscall_allow c' = syscall_allow c"
  by (auto simp: cap_add_fs_rule_def split: if_splits)

lemma manifest_caps_syscalls:
  assumes "manifest_caps manifest c d = Some (c', d')"
  shows "cap_flags c' = cap_flags c \<or> cap_flags c' = cap_flags c OR CAP_EGRESS_ENFORCE"
    and "syscall_allow c' = syscall_allow c \<or> syscall_allow c' = syscall_allow (cap_allow_files c)"
    and "caps d' = caps d"
  using assms
  by (auto simp: manifest_caps_def egress_caps_def cap_allow_files_def bind_eq_Some_conv
      dest!: cap_add_fs_rule_frame split: if_splits)

lemma enforce_bit: "(CAP_ENFORCE AND CAP_ENFORCE \<noteq> 0) \<and> ((CAP_ENFORCE OR CAP_EGRESS_ENFORCE) AND CAP_ENFORCE \<noteq> 0)"
  by (simp add: CAP_ENFORCE_def CAP_EGRESS_ENFORCE_def)

lemma applied_caps:
  assumes "cell_apply_policy current manifest = (0, Some d')"
  shows "cap_flags (caps d') AND CAP_ENFORCE \<noteq> 0"
    and "syscall_allow (caps d') = syscall_allow base_caps \<or>
      syscall_allow (caps d') = syscall_allow (cap_allow_files base_caps)"
proof -
  obtain d where cur: "current = Some d" using assms by (cases current) (auto simp: cell_apply_policy_def)
  obtain c d'' where m: "manifest_caps manifest base_caps (d\<lparr>fs_root := ''/''\<rparr>) = Some (c, d'')" "d' = d''\<lparr>caps := c\<rparr>"
    using assms cur by (auto simp: cell_apply_policy_def base_caps_def Let_def split: if_splits option.splits)
  have "cap_flags c = CAP_ENFORCE \<or> cap_flags c = CAP_ENFORCE OR CAP_EGRESS_ENFORCE"
    using manifest_caps_syscalls(1)[OF m(1)] by simp
  then show "cap_flags (caps d') AND CAP_ENFORCE \<noteq> 0" using enforce_bit m(2) by auto
  show "syscall_allow (caps d') = syscall_allow base_caps \<or>
      syscall_allow (caps d') = syscall_allow (cap_allow_files base_caps)"
    using manifest_caps_syscalls(2)[OF m(1)] m(2) by simp
qed

lemma base_caps_bit:
  assumes "n < 512"
  shows "bit (syscall_allow base_caps ! (n div 64)) (n mod 64) \<longleftrightarrow> (\<exists>nr \<in> set common_syscalls. unat nr = n)"
proof -
  have "bit (syscall_allow zero_caps ! (n div 64)) (n mod 64) = False" "length (syscall_allow zero_caps) = 8"
    using assms by (simp_all add: zero_caps_def)
  then show ?thesis
    using fold_cap_allow_bit[of zero_caps n common_syscalls] assms by (simp add: base_caps_def cap_allow_common_def)
qed

lemma allowed_syscalls:
  assumes "cell_apply_policy current manifest = (0, Some d')"
  shows "nr \<in> set common_syscalls \<Longrightarrow> cell_syscall_allowed (Some d') nr"
    and "cell_syscall_allowed (Some d') nr \<Longrightarrow> nr \<in> set common_syscalls \<union> set file_syscalls"
proof -
  note a = applied_caps[OF assms]
  have files: "bit (syscall_allow (cap_allow_files base_caps) ! (n div 64)) (n mod 64) \<longleftrightarrow>
      (\<exists>nr \<in> set common_syscalls. unat nr = n) \<or> (\<exists>nr \<in> set file_syscalls. unat nr = n)" if "n < 512" for n
    using fold_cap_allow_bit[of base_caps n file_syscalls] base_caps_bit[OF that] that
    by (simp add: cap_allow_files_def)
  have small: "\<forall>nr \<in> set common_syscalls. nr < 512" by (simp add: common_syscalls_def)
  have lt: "unat nr < 512" if "nr < 512" using that by (simp add: word_less_nat_alt)
  show "cell_syscall_allowed (Some d') nr" if "nr \<in> set common_syscalls"
    unfolding syscall_allowed_bit[OF a(1)]
    using that small a(2) base_caps_bit files lt by metis
  show "nr \<in> set common_syscalls \<union> set file_syscalls" if "cell_syscall_allowed (Some d') nr"
    using that a(2) base_caps_bit[OF lt] files[OF lt] unfolding syscall_allowed_bit[OF a(1)]
    by (metis UnI1 UnI2 word_unat_eq_iff)
qed

subsection \<open>Printing and parsing addresses\<close>

fun dec_digits :: "nat \<Rightarrow> nat list" where
  "dec_digits n = (if n < 10 then [n] else dec_digits (n div 10) @ [n mod 10])"

declare dec_digits.simps [simp del]

definition digit_char :: "nat \<Rightarrow> char" where
  "digit_char k = char_of (48 + k)"

definition show_dec :: "nat \<Rightarrow> cstr" where
  "show_dec n = map digit_char (dec_digits n)"

definition show_ipv4_port :: "nat \<Rightarrow> nat \<Rightarrow> nat \<Rightarrow> nat \<Rightarrow> nat \<Rightarrow> nat \<Rightarrow> cstr" where
  "show_ipv4_port a b c d pfx port =
     show_dec a @ ''.'' @ show_dec b @ ''.'' @ show_dec c @ ''.'' @ show_dec d @ ''/'' @ show_dec pfx @
     '':'' @ show_dec port"

definition dec_value :: "nat \<Rightarrow> nat list \<Rightarrow> nat" where
  "dec_value m ds = foldl (\<lambda>m d. m * 10 + d) m ds"

lemma dec_value_simps [simp]:
  "dec_value m [] = m" "dec_value m (d # ds) = dec_value (m * 10 + d) ds"
  by (simp_all add: dec_value_def)

lemma dec_value_ge: "m \<le> dec_value m ds"
proof (induction ds arbitrary: m)
  case (Cons d ds)
  have "m \<le> m * 10 + d" by simp
  also have "\<dots> \<le> dec_value (m * 10 + d) ds" by (rule Cons.IH)
  finally show ?case by simp
qed simp

lemma dec_digits_props: "dec_digits n \<noteq> [] \<and> (\<forall>d \<in> set (dec_digits n). d < 10) \<and> dec_value 0 (dec_digits n) = n"
proof (induction n rule: less_induct)
  case (less n)
  show ?case
  proof (cases "n < 10")
    case True
    then show ?thesis by (simp add: dec_digits.simps)
  next
    case False
    then have "dec_digits n = dec_digits (n div 10) @ [n mod 10]" by (simp add: dec_digits.simps)
    moreover have "dec_value 0 (ds @ [d]) = dec_value 0 ds * 10 + d" for ds d by (simp add: dec_value_def)
    ultimately show ?thesis using less[of "n div 10"] False by auto
  qed
qed

lemma digit_char_props:
  assumes "d < 10"
  shows "is_digit (digit_char d)" "digit_value (digit_char d) = of_nat d"
proof -
  have "(of_char (digit_char d) :: nat) = 48 + d"
    using assms by (simp add: digit_char_def)
  then show "is_digit (digit_char d)" using assms by (simp add: is_digit_def)
  have "(of_char (digit_char d) :: u32) = of_nat (of_char (digit_char d))" by (rule of_nat_of_char [symmetric])
  then show "digit_value (digit_char d) = of_nat d"
    using \<open>of_char (digit_char d) = 48 + d\<close> by (simp add: digit_value_def)
qed

definition stops :: "cstr \<Rightarrow> bool" where
  "stops rest \<longleftrightarrow> rest = [] \<or> \<not> is_digit (hd rest)"

lemma dec_loop_digits:
  assumes "\<forall>d \<in> set ds. d < 10" "dec_value m ds \<le> unat limit" "unat limit \<le> 65535" "stops rest"
  shows "dec_loop (map digit_char ds @ rest) limit (of_nat m) = Some (of_nat (dec_value m ds), rest)"
  using assms(1,2)
proof (induction ds arbitrary: m)
  case Nil
  then show ?case using assms(4) by (cases rest) (auto simp: stops_def)
next
  case (Cons d ds)
  have b: "m * 10 + d \<le> unat limit" using Cons.prems(2) dec_value_ge[of "m * 10 + d" ds] by simp
  have "unat (of_nat k :: u32) = k" if "k \<le> 65535" for k
    using that by (simp add: unat_of_nat take_bit_nat_eq_self)
  from this[of "m * 10 + d"] have "unat (of_nat (m * 10 + d) :: u32) = m * 10 + d" using b assms(3) by linarith
  then have le: "\<not> limit < of_nat (m * 10 + d)" using b by (simp add: word_less_nat_alt)
  have v: "of_nat m * 10 + digit_value (digit_char d) = (of_nat (m * 10 + d) :: u32)"
    using Cons.prems(1) digit_char_props(2) by simp
  have "dec_loop (map digit_char (d # ds) @ rest) limit (of_nat m) =
      dec_loop (map digit_char ds @ rest) limit (of_nat (m * 10 + d))"
    using Cons.prems(1) digit_char_props(1)[of d] le unfolding list.map append.simps dec_loop.simps v Let_def by simp
  also have "\<dots> = Some (of_nat (dec_value (m * 10 + d) ds), rest)" using Cons.IH[of "m * 10 + d"] Cons.prems by (simp del: of_nat_add of_nat_mult)
  finally show ?case by simp
qed

lemma parse_dec_show:
  assumes "n \<le> unat limit" "unat limit \<le> 65535" "stops rest"
  shows "parse_dec (show_dec n @ rest) limit = Some (of_nat n, rest)"
proof -
  note p = dec_digits_props[of n]
  obtain d ds where d: "dec_digits n = d # ds" using p by (cases "dec_digits n") auto
  have "is_digit (hd (show_dec n @ rest))" "show_dec n @ rest \<noteq> []"
    using p d digit_char_props(1)[of d] by (simp_all add: show_dec_def)
  moreover have "dec_loop (show_dec n @ rest) limit 0 = Some (of_nat n, rest)"
    using dec_loop_digits[of "dec_digits n" 0 limit rest] p assms by (simp add: show_dec_def)
  ultimately show ?thesis by (simp add: parse_dec_def)
qed

lemma stops_punctuation [simp]:
  "stops (CHR ''.'' # s)" "stops (CHR ''/'' # s)" "stops (CHR '':'' # s)" "stops []"
  by (simp_all add: stops_def is_digit_def)

lemma parse_show_ipv4_port:
  assumes "a < 256" "b < 256" "c < 256" "d < 256" "pfx \<le> 32" "port < 65536"
  shows "parse_ipv4_port (show_ipv4_port a b c d pfx port) =
    Some (of_nat a OR push_bit 8 (of_nat b) OR push_bit 16 (of_nat c) OR push_bit 24 (of_nat d), of_nat pfx, of_nat port)"
  using assms parse_dec_show[of port 65535 "[]"]
  by (simp add: parse_ipv4_port_def show_ipv4_port_def parse_dec_show expect_def unsigned_of_nat take_bit_nat_eq_self)

subsection \<open>Address blocks\<close>

text \<open>
  An address as a number with the first octet most significant, and the CIDR blocks of such
  numbers. The kernel keeps the first octet in the lowest byte.
\<close>

definition be_addr :: "u32 \<Rightarrow> u32" where
  "be_addr ip = push_bit 24 (take_bit 8 ip) OR push_bit 16 (take_bit 8 (drop_bit 8 ip)) OR
     push_bit 8 (take_bit 8 (drop_bit 16 ip)) OR drop_bit 24 ip"

definition in_block :: "u32 \<Rightarrow> nat \<Rightarrow> u32 \<Rightarrow> bool" where
  "in_block net pfx ip \<longleftrightarrow> drop_bit (32 - pfx) (be_addr net) = drop_bit (32 - pfx) (be_addr ip)"

definition swap_bit :: "nat \<Rightarrow> nat" where
  "swap_bit n = 8 * (3 - n div 8) + n mod 8"

lemma swap_bit_props:
  assumes "n < 32"
  shows "swap_bit n < 32" "swap_bit (swap_bit n) = n" "k \<le> 4 \<Longrightarrow> 32 - 8 * k \<le> n \<longleftrightarrow> swap_bit n < 8 * k"
proof -
  define q where "q = n div 8"
  have q: "q \<le> 3" "n = 8 * q + n mod 8" "n mod 8 < 8" using assms by (simp_all add: q_def)
  then have s: "swap_bit n = 8 * (3 - q) + n mod 8" by (simp add: swap_bit_def q_def)
  show "swap_bit n < 32" using s q by linarith
  have "swap_bit n div 8 = 3 - q" "swap_bit n mod 8 = n mod 8" unfolding s by simp_all
  then show "swap_bit (swap_bit n) = n" using q by (simp add: swap_bit_def[of "swap_bit n"])
  assume k: "k \<le> 4"
  show "32 - 8 * k \<le> n \<longleftrightarrow> swap_bit n < 8 * k"
  proof (cases "4 \<le> q + k")
    case True
    have "32 - 8 * k \<le> n" using True q by linarith
    moreover have "swap_bit n < 8 * k" using True s q by linarith
    ultimately show ?thesis by simp
  next
    case False
    have "\<not> 32 - 8 * k \<le> n" using False q k by linarith
    moreover have "\<not> swap_bit n < 8 * k" using False s q by linarith
    ultimately show ?thesis by simp
  qed
qed

lemma bit_be_addr:
  assumes "n < 32"
  shows "bit (be_addr ip) n \<longleftrightarrow> bit ip (swap_bit n)"
proof -
  have "n div 8 \<in> {0, 1, 2, 3}" using assms by auto
  then consider "n < 8" | "8 \<le> n" "n < 16" | "16 \<le> n" "n < 24" | "24 \<le> n" using assms by linarith
  then show ?thesis
  proof cases
    case 1
    then have "swap_bit n = 24 + n" by (simp add: swap_bit_def)
    then show ?thesis using 1 by (simp add: be_addr_def bit_simps add.commute)
  next
    case 2
    then have "n div 8 = 1" "n mod 8 = n - 8" by (simp_all add: div_nat_eqI mod_if)
    then have "swap_bit n = 16 + (n - 8)" by (simp add: swap_bit_def)
    then show ?thesis using 2 by (auto simp: be_addr_def bit_simps dest: bit_imp_le_length)
  next
    case 3
    then have "n div 8 = 2" by (simp add: div_nat_eqI)
    then have "swap_bit n = 8 + (n - 16)" using div_mult_mod_eq[of n 8] by (simp add: swap_bit_def)
    then show ?thesis using 3 by (auto simp: be_addr_def bit_simps dest: bit_imp_le_length)
  next
    case 4
    then have "n div 8 = 3" using assms by (simp add: div_nat_eqI)
    then have "swap_bit n = n - 24" using div_mult_mod_eq[of n 8] by (simp add: swap_bit_def)
    then show ?thesis using 4 assms by (auto simp: be_addr_def bit_simps dest: bit_imp_le_length)
  qed
qed

lemma drop_bit_eq_iff:
  "drop_bit k a = drop_bit k (b :: u32) \<longleftrightarrow> (\<forall>n < 32. k \<le> n \<longrightarrow> bit a n = bit b n)"
proof
  assume h: "drop_bit k a = drop_bit k b"
  show "\<forall>n < 32. k \<le> n \<longrightarrow> bit a n = bit b n"
  proof (intro allI impI)
    fix n assume "n < 32" "k \<le> n"
    then have "bit (drop_bit k a) (n - k) = bit (drop_bit k b) (n - k)" using h by simp
    then show "bit a n = bit b n" using \<open>k \<le> n\<close> by (simp add: bit_drop_bit_eq)
  qed
next
  assume h: "\<forall>n < 32. k \<le> n \<longrightarrow> bit a n = bit b n"
  have "bit a (k + n) = bit b (k + n)" for n
  proof (cases "k + n < 32")
    case False
    then have "\<not> bit a (k + n)" "\<not> bit b (k + n)" using bit_imp_le_length[of a] bit_imp_le_length[of b] by auto
    then show ?thesis by simp
  qed (use h in simp)
  then show "drop_bit k a = drop_bit k b" by (intro bit_eqI) (simp add: bit_drop_bit_eq)
qed

lemma octet_block:
  assumes "k \<le> 4" "unat pfx = 8 * k"
  shows "(net XOR ip) AND egress_mask pfx = 0 \<longleftrightarrow> in_block net (unat pfx) ip"
proof -
  have "(net XOR ip) AND egress_mask pfx = 0 \<longleftrightarrow> (\<forall>m < 8 * k. bit net m = bit ip m)"
    using assms by (auto simp: and_zero_bits bit_egress_mask bit_xor_iff)
  also have "\<dots> \<longleftrightarrow> (\<forall>n < 32. 32 - 8 * k \<le> n \<longrightarrow> bit net (swap_bit n) = bit ip (swap_bit n))"
  proof
    assume "\<forall>m < 8 * k. bit net m = bit ip m"
    then show "\<forall>n < 32. 32 - 8 * k \<le> n \<longrightarrow> bit net (swap_bit n) = bit ip (swap_bit n)"
      using swap_bit_props(3)[OF _ assms(1)] by blast
  next
    assume h: "\<forall>n < 32. 32 - 8 * k \<le> n \<longrightarrow> bit net (swap_bit n) = bit ip (swap_bit n)"
    show "\<forall>m < 8 * k. bit net m = bit ip m"
    proof (intro allI impI)
      fix m assume m: "m < 8 * k"
      then have "m < 32" using assms(1) by linarith
      note p = swap_bit_props(1,2)[OF this]
      have "32 - 8 * k \<le> swap_bit m" using swap_bit_props(3)[OF p(1) assms(1)] p(2) m by simp
      then show "bit net m = bit ip m" using h p by metis
    qed
  qed
  also have "\<dots> \<longleftrightarrow> in_block net (unat pfx) ip"
    unfolding in_block_def drop_bit_eq_iff assms(2) using bit_be_addr by simp
  finally show ?thesis .
qed

end
