(* ===== verification/Policy_Properties.thy ===== *)
theory Policy_Properties
  imports Policy_Lemmas
begin

lemma apply_policy_eq:
  "cell_apply_policy (Some d) manifest =
     (if manifest = ''bad-manifest'' then (-1, Some d)
      else case manifest_caps manifest base_caps (d\<lparr>fs_root := ''/''\<rparr>) of
             None \<Rightarrow> (-2, Some (d\<lparr>fs_root := ''/''\<rparr>))
           | Some (c, d') \<Rightarrow>
             if cap_flags (caps d') AND CAP_ENFORCE \<noteq> 0 \<and> \<not> caps_subset c (caps d')
             then (-1, Some d') else (0, Some (d'\<lparr>caps := c\<rparr>)))"
  by (simp add: cell_apply_policy_def base_caps_def Let_def)

lemma zero_domain_caps: "cap_flags (caps zero_domain) = 0"
  by (simp add: zero_domain_def zero_caps_def)

text \<open>
  Properties of the capability policies: what the subset test guarantees and where it does not, what a policy confines, and
  the manifest parser and the egress rules it makes.
\<close>

text \<open>The capabilities of the manifest \<^verbatim>\<open>fs:/tmp\<close>, and a narrower request.\<close>

definition tmp_caps :: capability_set where
  "tmp_caps = (cap_allow_files base_caps)\<lparr>fs_rules :=
     [\<lparr>rule_path = ''/tmp'', rule_rights = CELL_FS_READ OR CELL_FS_WRITE OR CELL_FS_EXEC\<rparr>,
      \<lparr>rule_path = ''/lib'', rule_rights = CELL_FS_READ OR CELL_FS_EXEC\<rparr>,
      \<lparr>rule_path = ''/usr/local/lib'', rule_rights = CELL_FS_READ OR CELL_FS_EXEC\<rparr>]\<rparr>"

definition sub_caps :: capability_set where
  "sub_caps = tmp_caps\<lparr>fs_rules := [\<lparr>rule_path = ''/tmp/a'', rule_rights = CELL_FS_READ\<rparr>]\<rparr>"

lemma sub_caps_subset: "caps_subset sub_caps tmp_caps"
  by (simp add: caps_subset_def sub_caps_def tmp_caps_def list_ex_iff CAP_ENFORCE_def CAP_EGRESS_ENFORCE_def path_covered_def
      rights_covered_def char_at_def kstrlen_def CELL_FS_READ_def CELL_FS_WRITE_def CELL_FS_EXEC_def cap_allow_files_def
      base_caps_def cap_allow_common_def)

subsection \<open>Properties\<close>

text \<open>
  C13. The subset test is sound where it tests. When \<^verbatim>\<open>caps_subset\<close> accepts a request
  against a parent, both enforce, the request restricts egress only if the parent does, and
  the request has path rules if the parent has, then the request allows nothing the parent
  denies: no system call, no path with any rights, no destination and no mapping.
\<close>

theorem caps_subset_sound:
  assumes "caps_subset (caps r) (caps p)"
    and "cap_flags (caps r) AND CAP_ENFORCE \<noteq> 0" "cap_flags (caps p) AND CAP_ENFORCE \<noteq> 0"
    and "cap_flags (caps r) AND CAP_EGRESS_ENFORCE \<noteq> 0 \<longrightarrow> cap_flags (caps p) AND CAP_EGRESS_ENFORCE \<noteq> 0"
    and "fs_rules (caps p) \<noteq> [] \<longrightarrow> fs_rules (caps r) \<noteq> []" "rules_ok (caps r)" "rules_ok (caps p)" "nul_free path"
  shows "(cell_syscall_allowed (Some r) nr \<longrightarrow> cell_syscall_allowed (Some p) nr) \<and>
    (cell_fs_path_allowed (Some r) path rights \<longrightarrow> cell_fs_path_allowed (Some p) path rights) \<and>
    (cell_egress_allowed (Some r) proto ip port \<longrightarrow> cell_egress_allowed (Some p) proto ip port) \<and>
    (memory_pages_allowed (Some r) vmas removed added \<longrightarrow> memory_pages_allowed (Some p) vmas removed added)"
proof (intro conjI impI)
  note rest = caps_subset_rest[OF assms(1,4)]
  show "cell_syscall_allowed (Some p) nr" if "cell_syscall_allowed (Some r) nr"
  proof -
    have nr: "nr < 512" and b: "bit (syscall_allow (caps r) ! (unat nr div 64)) (unat nr mod 64)"
      using that unfolding syscall_allowed_bit[OF assms(2)] by blast+
    have "unat nr div 64 < 8" using nr by (simp add: word_less_nat_alt div_less_iff_less_mult)
    then show ?thesis
      unfolding syscall_allowed_bit[OF assms(3)] using nr caps_subset_syscalls[OF assms(1) _ b] by blast
  qed
  show "cell_fs_path_allowed (Some p) path rights" if "cell_fs_path_allowed (Some r) path rights"
    using that rest(3) assms(2,3,5) caps_subset_paths[OF _ assms(6,7,8)]
    by (auto simp: cell_fs_path_allowed_def)
  show "cell_egress_allowed (Some p) proto ip port" if "cell_egress_allowed (Some r) proto ip port"
    using that rest(1) cidr_subset_match by (auto simp: cell_egress_allowed_def)
  show "memory_pages_allowed (Some p) vmas removed added" if "memory_pages_allowed (Some r) vmas removed added"
    using that rest(2)
    by (auto simp: memory_pages_allowed_def Let_def word_le_nat_alt unat_sub split: option.splits if_splits)
qed

theorem caps_subset_sound_witness:
  "cell_fs_path_allowed (Some (zero_domain\<lparr>caps := sub_caps\<rparr>)) ''/tmp/a/b'' CELL_FS_READ \<and>
   cell_fs_path_allowed (Some (zero_domain\<lparr>caps := tmp_caps\<rparr>)) ''/tmp/a/b'' CELL_FS_READ"
proof -
  let ?r = "zero_domain\<lparr>caps := sub_caps\<rparr>" and ?p = "zero_domain\<lparr>caps := tmp_caps\<rparr>"
  have "cap_flags sub_caps = CAP_ENFORCE" "cap_flags tmp_caps = CAP_ENFORCE"
    by (simp_all add: sub_caps_def tmp_caps_def cap_allow_files_def)
  then have f: "cap_flags (caps ?r) AND CAP_ENFORCE \<noteq> 0" "cap_flags (caps ?p) AND CAP_ENFORCE \<noteq> 0"
    "cap_flags (caps ?r) AND CAP_EGRESS_ENFORCE \<noteq> 0 \<longrightarrow> cap_flags (caps ?p) AND CAP_EGRESS_ENFORCE \<noteq> 0"
    using enforce_bit by simp_all
  have ok: "fs_rules (caps ?p) \<noteq> [] \<longrightarrow> fs_rules (caps ?r) \<noteq> []" "rules_ok (caps ?r)" "rules_ok (caps ?p)"
    "nul_free ''/tmp/a/b''"
    by (simp_all add: sub_caps_def tmp_caps_def rules_ok_def nul_free_def)
  have "cell_fs_path_allowed (Some ?r) ''/tmp/a/b'' CELL_FS_READ"
    by (simp add: cell_fs_path_allowed_def path_matches_rule_def sub_caps_def tmp_caps_def char_at_def kstrlen_def)
  with caps_subset_sound[OF _ f ok] sub_caps_subset show ?thesis by simp
qed



text \<open>
  C15. The subset test can be passed by a request that widens. In a domain confined to
  \<^verbatim>\<open>/tmp\<close> and the library directories, \<^verbatim>\<open>cell_apply_policy\<close> accepts
  \<^verbatim>\<open>net:none\<close>, whose capabilities carry no path rule: a path that was denied is allowed
  afterwards. The early return for a request that adds egress enforcement skips the memory
  and path checks, and an empty request passes the path check.
\<close>

definition tmp_domain :: domain where
  "tmp_domain = the (snd (cell_apply_policy (Some zero_domain) ''fs:/tmp''))"

definition widened_domain :: domain where
  "widened_domain = the (snd (cell_apply_policy (Some tmp_domain) ''net:none''))"

theorem policy_widens_paths:
  "fst (cell_apply_policy (Some zero_domain) ''fs:/tmp'') = 0 \<and>
   \<not> cell_fs_path_allowed (Some tmp_domain) ''/etc/passwd'' CELL_FS_READ \<and>
   fst (cell_apply_policy (Some tmp_domain) ''net:none'') = 0 \<and>
   cell_fs_path_allowed (Some widened_domain) ''/etc/passwd'' CELL_FS_READ"
proof -
  have t: "cell_apply_policy (Some zero_domain) ''fs:/tmp'' = (0, Some (zero_domain\<lparr>fs_root := ''/tmp'', caps := tmp_caps\<rparr>))"
    unfolding tmp_caps_def
    by (simp add: apply_policy_eq manifest_caps_def cap_add_fs_rule_def copy_cstr_def char_at_def CELL_PATH_MAX_def
        CELL_FS_RULE_CAP_def cap_allow_files_def zero_domain_caps)
  then have td: "tmp_domain = zero_domain\<lparr>fs_root := ''/tmp'', caps := tmp_caps\<rparr>" by (simp add: tmp_domain_def)
  have c: "cap_flags tmp_caps = CAP_ENFORCE" "syscall_allow tmp_caps = syscall_allow (cap_allow_files base_caps)"
    by (simp_all add: tmp_caps_def cap_allow_files_def)
  have "\<not> cell_fs_path_allowed (Some tmp_domain) ''/etc/passwd'' CELL_FS_READ"
    using enforce_bit by (simp add: cell_fs_path_allowed_def td c path_matches_rule_def) (simp add: tmp_caps_def)
  moreover have n: "cell_apply_policy (Some tmp_domain) ''net:none'' = (0, Some (tmp_domain\<lparr>fs_root := ''/'', caps :=
      (cap_allow_files base_caps)\<lparr>cap_flags := CAP_ENFORCE OR CAP_EGRESS_ENFORCE, egress_prefix := 32\<rparr>\<rparr>))"
    using enforce_bit
    by (simp add: apply_policy_eq manifest_caps_def caps_subset_def td c list_ex_iff
        CAP_ENFORCE_def CAP_EGRESS_ENFORCE_def)
  ultimately show ?thesis using t
    by (simp add: widened_domain_def cell_fs_path_allowed_def cap_allow_files_def)
qed

text \<open>
  C16. Address blocks of whole octets are matched exactly: for prefix lengths 0, 8, 16, 24
  and 32 an enforced egress rule admits a destination if and only if protocol and port are
  the rule's and the address lies in the CIDR block.
\<close>

theorem egress_match_octet_blocks:
  assumes "cap_flags c AND CAP_EGRESS_ENFORCE \<noteq> 0" "unat (egress_prefix c) \<in> {0, 8, 16, 24, 32}"
  shows "egress_match c proto ip port \<longleftrightarrow>
    egress_proto c = proto \<and> egress_port c = port \<and> in_block (egress_ip c) (unat (egress_prefix c)) ip"
proof -
  obtain k where "k \<le> 4" "unat (egress_prefix c) = 8 * k"
    using assms(2) that[of 0] that[of 1] that[of 2] that[of 3] that[of 4] by auto
  then show ?thesis using assms(1) octet_block by (simp add: egress_match_def)
qed

theorem egress_match_octet_blocks_witness:
  "egress_match (egress_caps base_caps IPPROTO_UDP (0x0002000a, 24, 5555)) IPPROTO_UDP 0x0202000a 5555 \<and>
   in_block 0x0002000a 24 0x0202000a"
proof -
  let ?c = "egress_caps base_caps IPPROTO_UDP (0x0002000a, 24, 5555)"
  have f: "cap_flags ?c AND CAP_EGRESS_ENFORCE \<noteq> 0" "egress_prefix ?c = 24" "egress_ip ?c = 0x0002000a"
    by (simp_all add: egress_caps_def CAP_ENFORCE_def CAP_EGRESS_ENFORCE_def egress_mask_def)
  have "in_block 0x0002000a 24 0x0202000a" by (simp add: in_block_def be_addr_def)
  with egress_match_octet_blocks[OF f(1)] f show ?thesis by (simp add: egress_caps_def)
qed

text \<open>
  C17. Other prefix lengths are matched wrongly. With \<^verbatim>\<open>net:tcp:10.0.16.0/20:80\<close> the
  address 10.0.17.1, which is in the block, is denied, and 10.0.32.0, which is not, is
  allowed: the mask keeps the low bits of the partial octet instead of its high bits.
\<close>

definition tcp20_domain :: domain where
  "tcp20_domain = the (snd (cell_apply_policy (Some zero_domain) ''net:tcp:10.0.16.0/20:80''))"

theorem egress_partial_octet_wrong:
  "fst (cell_apply_policy (Some zero_domain) ''net:tcp:10.0.16.0/20:80'') = 0 \<and>
   in_block 0x0010000a 20 0x0111000a \<and> \<not> cell_egress_allowed (Some tcp20_domain) IPPROTO_TCP 0x0111000a 80 \<and>
   \<not> in_block 0x0010000a 20 0x0020000a \<and> cell_egress_allowed (Some tcp20_domain) IPPROTO_TCP 0x0020000a 80"
proof -
  have "show_ipv4_port 10 0 16 0 20 80 = ''10.0.16.0/20:80''"
    by (simp add: show_ipv4_port_def show_dec_def dec_digits.simps digit_char_def char_of_def bit_Suc_0_iff)
  then have p: "parse_ipv4_port ''10.0.16.0/20:80'' = Some (0x0010000a, 20, 80)"
    using parse_show_ipv4_port[of 10 0 16 0 20 80] by simp
  have a: "cell_apply_policy (Some zero_domain) ''net:tcp:10.0.16.0/20:80'' = (0, Some (zero_domain\<lparr>fs_root := ''/'',
      caps := egress_caps base_caps IPPROTO_TCP (0x0010000a, 20, 80)\<rparr>))"
    by (simp add: apply_policy_eq manifest_caps_def p zero_domain_caps)
  have m: "egress_mask 20 = 0xfffff" by (simp add: egress_mask_def)
  show ?thesis
    using a by (simp add: tcp20_domain_def cell_egress_allowed_def egress_match_def egress_caps_def m in_block_def
        be_addr_def IPPROTO_TCP_def CAP_ENFORCE_def CAP_EGRESS_ENFORCE_def cap_allow_files_def)
qed

text \<open>
  C18. Parsing inverts printing: for all octets, prefix lengths up to 32 and ports, the
  manifest parser reads the printed form back to the address with its first octet lowest,
  the prefix and the port.
\<close>

theorem parse_ipv4_port_roundtrip:
  assumes "a < 256" "b < 256" "c < 256" "d < 256" "pfx \<le> 32" "port < 65536"
  shows "parse_ipv4_port (show_ipv4_port a b c d pfx port) =
    Some (of_nat a OR push_bit 8 (of_nat b) OR push_bit 16 (of_nat c) OR push_bit 24 (of_nat d), of_nat pfx, of_nat port)"
  by (rule parse_show_ipv4_port[OF assms])

theorem parse_ipv4_port_roundtrip_witness:
  "parse_ipv4_port (show_ipv4_port 10 0 2 2 24 5555) = Some (0x0202000a, 24, 5555)"
  using parse_ipv4_port_roundtrip[of 10 0 2 2 24 5555] by simp

end
