(* ===== verification/Phys_Mem.thy ===== *)
theory Phys_Mem
  imports Pmm_Init
begin

text \<open>
  Physical memory as the kernel sees it through the linear map: 64-bit little-endian words
  and runs of bytes in \<open>phys\<close>. A pointer \<^verbatim>\<open>hhdm_offset + pa\<close> of the sources is the
  physical address \<open>pa\<close> here.
\<close>

primrec read_le :: "(u64 \<Rightarrow> u8) \<Rightarrow> nat \<Rightarrow> u64 \<Rightarrow> u64" where
  "read_le ph 0 a = 0"
| "read_le ph (Suc k) a = ucast (ph a) OR push_bit 8 (read_le ph k (a + 1))"

definition read64 :: "(u64 \<Rightarrow> u8) \<Rightarrow> u64 \<Rightarrow> u64" where
  "read64 ph a = read_le ph 8 a"

definition write64 :: "u64 \<Rightarrow> u64 \<Rightarrow> (u64 \<Rightarrow> u8) \<Rightarrow> u64 \<Rightarrow> u8" where
  "write64 a v ph = (\<lambda>x. if x - a < 8 then ucast (drop_bit (8 * unat (x - a)) v) else ph x)"

definition read_bytes :: "(u64 \<Rightarrow> u8) \<Rightarrow> u64 \<Rightarrow> nat \<Rightarrow> u8 list" where
  "read_bytes ph a n = map (\<lambda>i. ph (a + of_nat i)) [0..<n]"

definition write_bytes :: "u64 \<Rightarrow> u8 list \<Rightarrow> (u64 \<Rightarrow> u8) \<Rightarrow> u64 \<Rightarrow> u8" where
  "write_bytes a bs ph = (\<lambda>x. if unat (x - a) < length bs then bs ! unat (x - a) else ph x)"

definition copy_page :: "u64 \<Rightarrow> u64 \<Rightarrow> (u64 \<Rightarrow> u8) \<Rightarrow> u64 \<Rightarrow> u8" where
  "copy_page dst src ph = (\<lambda>x. if x - dst < PAGE_SIZE then ph (src + (x - dst)) else ph x)"

subsection \<open>Word access\<close>

lemma bit_read_le:
  "n < 64 \<Longrightarrow> bit (read_le ph k a) n \<longleftrightarrow> n < 8 * k \<and> bit (ph (a + of_nat (n div 8))) (n mod 8)"
proof (induction k arbitrary: a n)
  case (Suc k)
  show ?case
  proof (cases "n < 8")
    case True
    then show ?thesis using Suc.prems by (simp add: bit_simps)
  next
    case False
    then obtain m where m: "n = m + 8" by (metis le_add_diff_inverse2 not_less)
    have "\<not> bit (ph a) n" using False bit_imp_le_length[of "ph a" n] by auto
    moreover have "n div 8 = Suc (m div 8)" "n mod 8 = m mod 8" by (simp_all add: m)
    ultimately show ?thesis
      using Suc.IH[of m "a + 1"] Suc.prems by (simp add: m bit_simps add.assoc)
  qed
qed simp

lemma bit_read64:
  "bit (read64 ph a) n \<longleftrightarrow> n < 64 \<and> bit (ph (a + of_nat (n div 8))) (n mod 8)"
  using bit_read_le[of n ph 8 a] bit_imp_le_length[of "read64 ph a" n] by (auto simp: read64_def)

lemma read64_cong:
  assumes "\<And>i. i < 8 \<Longrightarrow> ph (a + of_nat i) = ph' (b + of_nat i)"
  shows "read64 ph a = read64 ph' b"
proof (rule bit_eqI)
  fix n
  show "bit (read64 ph a) n = bit (read64 ph' b) n"
    unfolding bit_read64 using assms[of "n div 8"] by (auto simp: less_mult_imp_div_less)
qed

lemma read64_write64 [simp]: "read64 (write64 a v ph) a = v"
proof (rule bit_word_eqI)
  fix n assume n: "n < LENGTH(64)"
  have u: "unat (of_nat (n div 8) :: u64) = n div 8"
    using n by (simp add: unat_of_nat take_bit_nat_eq_self)
  then have "(of_nat (n div 8) :: u64) < 8" using n by (simp add: word_less_nat_alt)
  then show "bit (read64 (write64 a v ph) a) n = bit v n"
    using n u by (simp add: bit_read64 write64_def bit_simps)
qed

text \<open>Aligned words do not overlap.\<close>

definition aligned8 :: "u64 \<Rightarrow> bool" where
  "aligned8 a \<longleftrightarrow> unat a mod 8 = 0"

lemma aligned8_room: "aligned8 b \<Longrightarrow> i < 8 \<Longrightarrow> unat b + i < 18446744073709551616"
proof -
  assume a: "aligned8 b" and i: "i < 8"
  have "unat b < 18446744073709551616" using unat_lt_64[of b] by simp
  then have "unat b div 8 < 2305843009213693952" by (simp add: less_mult_imp_div_less)
  moreover have "unat b = 8 * (unat b div 8)" using a div_mult_mod_eq[of "unat b" 8] by (simp add: aligned8_def)
  ultimately show ?thesis using i by linarith
qed

lemma unat_aligned8_add:
  assumes "aligned8 b" "i < 8"
  shows "unat (b + of_nat i) = unat b + i"
proof -
  have "unat (of_nat i :: u64) = i" using assms(2) by (simp add: unat_of_nat take_bit_nat_eq_self)
  then show ?thesis using aligned8_room[OF assms] by (simp add: unat_plus_if_size word_size)
qed

lemma read64_write64_other:
  assumes "aligned8 a" "aligned8 b" "a \<noteq> b"
  shows "read64 (write64 a v ph) b = read64 ph b"
proof (rule read64_cong)
  fix i :: nat assume i: "i < 8"
  have "\<not> b + of_nat i - a < 8"
  proof
    assume lt: "b + of_nat i - a < 8"
    define k where "k = unat (b + of_nat i - a)"
    have k: "k < 8" using lt by (simp add: k_def word_less_nat_alt)
    have "b + of_nat i = a + of_nat k" by (simp add: k_def)
    then have "unat b + i = unat a + k"
      using unat_aligned8_add[OF assms(2) i] unat_aligned8_add[OF assms(1) k] by metis
    then have "unat a = unat b" using k i assms(1,2) unfolding aligned8_def by presburger
    then show False using assms(3) by (simp add: word_unat_eq_iff)
  qed
  then show "write64 a v ph (b + of_nat i) = ph (b + of_nat i)" by (simp add: write64_def)
qed

end
