(* ===== verification/Vmm.thy ===== *)
theory Vmm
  imports Phys_Mem Vma
begin

text \<open>
  User page tables, \<^verbatim>\<open>kernel/src/mm/vmm.c\<close>: four levels of 512 eight-byte entries, in
  physical memory. A table pointer is the physical address of the table and an entry pointer
  the physical address of the entry; both are what \<^verbatim>\<open>pt_virt\<close> maps through the linear
  map. Translation look-aside buffer maintenance has no effect on this state and is left out.
\<close>

subsection \<open>Entries\<close>

definition PTE_VALID :: u64 where "PTE_VALID = 1"
definition PTE_TABLE :: u64 where "PTE_TABLE = 2"
definition PTE_AF :: u64 where "PTE_AF = 0x400"
definition PTE_SH_INNER :: u64 where "PTE_SH_INNER = 0x300"
definition PTE_AP_MASK :: u64 where "PTE_AP_MASK = 0xc0"
definition PTE_AP_USER_RW :: u64 where "PTE_AP_USER_RW = 0x40"
definition PTE_AP_USER_RO :: u64 where "PTE_AP_USER_RO = 0xc0"
definition PTE_PXN :: u64 where "PTE_PXN = push_bit 53 1"
definition PTE_UXN :: u64 where "PTE_UXN = push_bit 54 1"
definition PTE_COW :: u64 where "PTE_COW = push_bit 55 1"
definition PTE_ADDR_MASK :: u64 where "PTE_ADDR_MASK = 0x0000fffffffff000"

definition VMM_USER_EXEC :: u32 where
  "VMM_USER_EXEC = 4"

datatype vmm_access = VMM_ACCESS_READ | VMM_ACCESS_WRITE | VMM_ACCESS_EXEC

record user_address_space =
  root_pa :: u64
  as_hhdm_offset :: u64
  brk_base :: u64
  brk_current :: u64
  mmap_base :: u64
  asid :: u16

definition pt_index :: "u64 \<Rightarrow> nat \<Rightarrow> nat" where
  "pt_index va shift = unat (drop_bit shift va AND 0x1ff)"

text \<open>The address of entry \<open>i\<close> of the table at \<open>t\<close>.\<close>

definition slot_addr :: "u64 \<Rightarrow> nat \<Rightarrow> u64" where
  "slot_addr t i = t + 8 * of_nat i"

definition get_pte :: "machine \<Rightarrow> u64 \<Rightarrow> u64" where
  "get_pte m p = read64 (phys m) p"

definition set_pte :: "u64 \<Rightarrow> u64 \<Rightarrow> machine \<Rightarrow> machine" where
  "set_pte p e m = m\<lparr>phys := write64 p e (phys m)\<rparr>"

definition checked_add :: "u64 \<Rightarrow> u64 \<Rightarrow> u64 option" where
  "checked_add a b = (if a + b \<ge> a then Some (a + b) else None)"

definition is_leaf_at_level :: "u64 \<Rightarrow> nat \<Rightarrow> bool" where
  "is_leaf_at_level entry level \<longleftrightarrow>
     (if entry AND PTE_VALID = 0 then False else level = 3 \<or> entry AND PTE_TABLE = 0)"

definition is_writable_leaf :: "u64 \<Rightarrow> bool" where
  "is_writable_leaf entry \<longleftrightarrow> entry AND PTE_AP_MASK = PTE_AP_USER_RW"

definition leaf_with_ap :: "u64 \<Rightarrow> u64 \<Rightarrow> u64" where
  "leaf_with_ap entry ap = (entry AND NOT PTE_AP_MASK) OR ap"

definition user_entry_allows :: "u64 \<Rightarrow> vmm_access \<Rightarrow> bool" where
  "user_entry_allows entry access =
     (case access of
        VMM_ACCESS_READ \<Rightarrow> True
      | VMM_ACCESS_WRITE \<Rightarrow> entry AND PTE_AP_MASK = PTE_AP_USER_RW
      | VMM_ACCESS_EXEC \<Rightarrow> entry AND PTE_UXN = 0)"

definition ap_of_flags :: "u32 \<Rightarrow> u64" where
  "ap_of_flags flags = (if flags AND VMM_USER_WRITE \<noteq> 0 then PTE_AP_USER_RW else PTE_AP_USER_RO)"

definition xn_of_flags :: "u32 \<Rightarrow> u64" where
  "xn_of_flags flags = (if flags AND VMM_USER_EXEC \<noteq> 0 then 0 else PTE_UXN)"

subsection \<open>Building tables\<close>

definition vmm_user_init :: "u64 \<Rightarrow> machine \<Rightarrow> (user_address_space option) \<times> machine" where
  "vmm_user_init hhdm m =
     (let (m, root) = pmm_alloc_zero_page m
      in if root = 0 then (None, m)
         else (Some \<lparr>root_pa = root, as_hhdm_offset = hhdm, brk_base = 0, brk_current = 0,
                mmap_base = 0x0000007000000000, asid = 0\<rparr>, m))"

text \<open>The next-level table, or failure.\<close>

definition ensure_table :: "u64 \<Rightarrow> nat \<Rightarrow> machine \<Rightarrow> u64 option \<times> machine" where
  "ensure_table table i m =
     (let entry = get_pte m (slot_addr table i)
      in if entry AND PTE_VALID = 0 then
           let (m, pa) = pmm_alloc_zero_page m
           in if pa = 0 then (None, m)
              else let m = set_pte (slot_addr table i) (pa OR PTE_VALID OR PTE_TABLE) m;
                       entry = get_pte m (slot_addr table i)
                   in if entry AND PTE_TABLE = 0 then (None, m)
                      else (Some (entry AND PTE_ADDR_MASK), m)
         else if entry AND PTE_TABLE = 0 then (None, m)
         else (Some (entry AND PTE_ADDR_MASK), m))"

text \<open>The three nested calls that reach the last-level table of an address.\<close>

definition ensure_l3 :: "user_address_space \<Rightarrow> u64 \<Rightarrow> machine \<Rightarrow> u64 option \<times> machine" where
  "ensure_l3 as va m =
     (case ensure_table (root_pa as) (pt_index va 39) m of
        (None, m) \<Rightarrow> (None, m)
      | (Some l1, m) \<Rightarrow>
        (case ensure_table l1 (pt_index va 30) m of
           (None, m) \<Rightarrow> (None, m)
         | (Some l2, m) \<Rightarrow> ensure_table l2 (pt_index va 21) m))"

definition leaf_entry :: "u64 \<Rightarrow> u32 \<Rightarrow> u64" where
  "leaf_entry pa flags =
     (pa AND PTE_ADDR_MASK) OR PTE_VALID OR PTE_TABLE OR PTE_AF OR PTE_SH_INNER OR ap_of_flags flags OR
     PTE_PXN OR xn_of_flags flags"

definition cow_entry :: "u64 \<Rightarrow> u32 \<Rightarrow> u64" where
  "cow_entry pa flags =
     (pa AND PTE_ADDR_MASK) OR PTE_VALID OR PTE_TABLE OR PTE_AF OR PTE_SH_INNER OR PTE_AP_USER_RO OR
     PTE_PXN OR xn_of_flags flags OR PTE_COW"

definition vmm_map_page :: "user_address_space \<Rightarrow> u64 \<Rightarrow> u64 \<Rightarrow> u32 \<Rightarrow> machine \<Rightarrow> bool \<times> machine" where
  "vmm_map_page as va pa flags m =
     (case ensure_l3 as va m of
        (None, m) \<Rightarrow> (False, m)
      | (Some l3, m) \<Rightarrow> (True, set_pte (slot_addr l3 (pt_index va 12)) (leaf_entry pa flags) m))"

definition vmm_map_page_cow :: "user_address_space \<Rightarrow> u64 \<Rightarrow> u64 \<Rightarrow> u32 \<Rightarrow> machine \<Rightarrow> bool \<times> machine" where
  "vmm_map_page_cow as va pa flags m =
     (case ensure_l3 as va m of
        (None, m) \<Rightarrow> (False, m)
      | (Some l3, m) \<Rightarrow> (True, set_pte (slot_addr l3 (pt_index va 12)) (cow_entry pa flags) m))"

definition vmm_alloc_page :: "user_address_space \<Rightarrow> u64 \<Rightarrow> u32 \<Rightarrow> machine \<Rightarrow> bool \<times> machine" where
  "vmm_alloc_page as va flags m =
     (let (m, pa) = pmm_alloc_zero_page m
      in if pa \<noteq> 0 then vmm_map_page as va pa flags m else (False, m))"

subsection \<open>Walking tables\<close>

definition table_entry :: "u64 \<Rightarrow> bool" where
  "table_entry entry \<longleftrightarrow> entry AND (PTE_VALID OR PTE_TABLE) = PTE_VALID OR PTE_TABLE"

definition user_to_phys_checked :: "user_address_space \<Rightarrow> u64 \<Rightarrow> vmm_access \<Rightarrow> machine \<Rightarrow> u64" where
  "user_to_phys_checked as va access m =
     (let entry = get_pte m (slot_addr (root_pa as) (pt_index va 39))
      in if \<not> table_entry entry then 0
      else let entry = get_pte m (slot_addr (entry AND PTE_ADDR_MASK) (pt_index va 30))
      in if \<not> table_entry entry then 0
      else let entry = get_pte m (slot_addr (entry AND PTE_ADDR_MASK) (pt_index va 21))
      in if \<not> table_entry entry then 0
      else let entry = get_pte m (slot_addr (entry AND PTE_ADDR_MASK) (pt_index va 12))
      in if entry AND PTE_VALID = 0 then 0
      else if \<not> user_entry_allows entry access then 0
      else (entry AND PTE_ADDR_MASK) OR (va AND 0xfff))"

definition leaf_for_va :: "user_address_space \<Rightarrow> u64 \<Rightarrow> machine \<Rightarrow> u64 option" where
  "leaf_for_va as va m =
     (let entry = get_pte m (slot_addr (root_pa as) (pt_index va 39))
      in if \<not> table_entry entry then None
      else let entry = get_pte m (slot_addr (entry AND PTE_ADDR_MASK) (pt_index va 30))
      in if \<not> table_entry entry then None
      else let entry = get_pte m (slot_addr (entry AND PTE_ADDR_MASK) (pt_index va 21))
      in if \<not> table_entry entry then None
      else Some (slot_addr (entry AND PTE_ADDR_MASK) (pt_index va 12)))"

definition vmm_user_to_phys :: "user_address_space \<Rightarrow> u64 \<Rightarrow> machine \<Rightarrow> u64" where
  "vmm_user_to_phys as va m = user_to_phys_checked as va VMM_ACCESS_READ m"

definition vmm_is_mapped :: "user_address_space \<Rightarrow> u64 \<Rightarrow> machine \<Rightarrow> bool" where
  "vmm_is_mapped as va m \<longleftrightarrow>
     (case leaf_for_va as va m of None \<Rightarrow> False | Some pte \<Rightarrow> get_pte m pte AND PTE_VALID \<noteq> 0)"

subsection \<open>Copy on write\<close>

definition vmm_handle_cow_fault :: "user_address_space \<Rightarrow> u64 \<Rightarrow> machine \<Rightarrow> bool \<times> machine" where
  "vmm_handle_cow_fault as va m =
     (case leaf_for_va as va m of
        None \<Rightarrow> (False, m)
      | Some pte \<Rightarrow>
        let old_entry = get_pte m pte; old_pa = old_entry AND PTE_ADDR_MASK
        in if old_entry AND (PTE_VALID OR PTE_COW) \<noteq> PTE_VALID OR PTE_COW then (False, m)
           else if pmm_is_last_ref (mpmm m) old_pa then
             (True, set_pte pte (leaf_with_ap (old_entry AND NOT PTE_COW) PTE_AP_USER_RW) m)
           else
             let (m, new_pa) = pmm_alloc_zero_page m
             in if new_pa = 0 then (False, m)
                else
                  let m = m\<lparr>phys := copy_page new_pa old_pa (phys m)\<rparr>;
                      m = set_pte pte 0 m;
                      new_entry = leaf_with_ap ((old_entry AND NOT PTE_ADDR_MASK AND NOT PTE_COW) OR
                                    (new_pa AND PTE_ADDR_MASK)) PTE_AP_USER_RW;
                      m = set_pte pte new_entry m
                  in (True, free_frame old_pa m))"

text \<open>
  The recursive clone. \<open>level\<close> counts down the levels below: \<open>Suc n\<close> entries of a
  table may point to tables that \<open>clone_table_cow\<close> copies with \<open>n\<close>; at 0, the last
  level, every valid entry is a leaf.
\<close>

fun clone_entries :: "(u64 \<Rightarrow> u64 \<Rightarrow> machine \<Rightarrow> bool \<times> machine) \<Rightarrow> nat \<Rightarrow> u64 \<Rightarrow> u64 \<Rightarrow> nat list \<Rightarrow>
    machine \<Rightarrow> bool \<times> machine" where
  "clone_entries child level dst src [] m = (True, m)"
| "clone_entries child level dst src (i # is) m =
     (let entry = get_pte m (slot_addr src i)
      in if entry AND PTE_VALID = 0 then clone_entries child level dst src is m
      else if is_leaf_at_level entry level then
        (case pmm_share_page (entry AND PTE_ADDR_MASK) (mpmm m) of
           (pm, ok) \<Rightarrow>
           if \<not> ok then (False, m\<lparr>mpmm := pm\<rparr>)
           else let m = m\<lparr>mpmm := pm\<rparr>
             in if is_writable_leaf entry \<or> entry AND PTE_COW \<noteq> 0 then
                  let entry = leaf_with_ap (entry OR PTE_COW) PTE_AP_USER_RO;
                      m = set_pte (slot_addr src i) entry m
                  in clone_entries child level dst src is (set_pte (slot_addr dst i) entry m)
                else clone_entries child level dst src is (set_pte (slot_addr dst i) entry m))
      else
        (case pmm_alloc_zero_page m of
           (m, child_pa) \<Rightarrow>
           if child_pa = 0 then (False, m)
           else let m = set_pte (slot_addr dst i) (child_pa OR PTE_VALID OR PTE_TABLE) m
             in case child child_pa (entry AND PTE_ADDR_MASK) m of
                  (False, m) \<Rightarrow> (False, m)
                | (True, m) \<Rightarrow> clone_entries child level dst src is m))"

primrec clone_table_cow :: "nat \<Rightarrow> u64 \<Rightarrow> u64 \<Rightarrow> machine \<Rightarrow> bool \<times> machine" where
  "clone_table_cow 0 dst_table src_table m =
     clone_entries (\<lambda>d s m. (False, m)) 3 dst_table src_table [0..<512] m"
| "clone_table_cow (Suc n) dst_table src_table m =
     clone_entries (clone_table_cow n) (2 - n) dst_table src_table [0..<512] m"

definition vmm_clone_cow :: "user_address_space \<Rightarrow> u16 \<Rightarrow> machine \<Rightarrow>
    bool \<times> user_address_space option \<times> machine" where
  "vmm_clone_cow src new_asid m =
     (let (m, root) = pmm_alloc_zero_page m
      in if root = 0 then (False, None, m)
         else let dst = src\<lparr>root_pa := root, asid := new_asid\<rparr>;
                  (ok, m) = clone_table_cow 3 root (root_pa src) m
              in (ok, Some dst, m))"

subsection \<open>Ranges\<close>

text \<open>
  The loop \<^verbatim>\<open>for (va = start; va < end; va += PAGE_SIZE)\<close>. It does not end when the
  addition wraps below \<open>end\<close>, and then the result is \<^const>\<open>None\<close>.
\<close>

partial_function (option) range_loop :: "(u64 \<Rightarrow> 's \<Rightarrow> 's) \<Rightarrow> u64 \<Rightarrow> u64 \<Rightarrow> 's \<Rightarrow> 's option" where
  "range_loop f va end s =
     (if va < end then range_loop f (va + PAGE_SIZE) end (f va s) else Some s)"

definition unmap_one :: "user_address_space \<Rightarrow> u64 \<Rightarrow> machine \<Rightarrow> machine" where
  "unmap_one as va m =
     (case leaf_for_va as va m of
        None \<Rightarrow> m
      | Some pte \<Rightarrow>
        if get_pte m pte AND PTE_VALID = 0 then m
        else free_frame (get_pte m pte AND PTE_ADDR_MASK) (set_pte pte 0 m))"

definition vmm_unmap_range :: "user_address_space \<Rightarrow> u64 \<Rightarrow> u64 \<Rightarrow> machine \<Rightarrow> machine option" where
  "vmm_unmap_range as start end m = range_loop (unmap_one as) start end m"

definition protect_entry :: "u32 \<Rightarrow> u64 \<Rightarrow> u64" where
  "protect_entry flags entry =
     (let entry = leaf_with_ap entry (ap_of_flags flags)
      in if flags AND VMM_USER_EXEC \<noteq> 0 then entry AND NOT PTE_UXN else entry OR PTE_UXN)"

definition protect_one :: "user_address_space \<Rightarrow> u32 \<Rightarrow> u64 \<Rightarrow> machine \<Rightarrow> machine" where
  "protect_one as flags va m =
     (case leaf_for_va as va m of
        None \<Rightarrow> m
      | Some pte \<Rightarrow>
        if get_pte m pte AND PTE_VALID = 0 then m else set_pte pte (protect_entry flags (get_pte m pte)) m)"

definition vmm_protect_range :: "user_address_space \<Rightarrow> u64 \<Rightarrow> u64 \<Rightarrow> u32 \<Rightarrow> machine \<Rightarrow> machine option" where
  "vmm_protect_range as start end flags m = range_loop (protect_one as flags) start end m"

definition vmm_mapped_pages_in_range :: "user_address_space \<Rightarrow> u64 \<Rightarrow> u64 \<Rightarrow> machine \<Rightarrow> nat option" where
  "vmm_mapped_pages_in_range as start end m =
     range_loop (\<lambda>va pages. if vmm_is_mapped as va m then pages + 1 else pages) start end 0"

text \<open>Restoring a shared range stops with failure when the two spaces disagree on a page.\<close>

definition restore_one :: "user_address_space \<Rightarrow> user_address_space \<Rightarrow> u32 \<Rightarrow> u64 \<Rightarrow> bool \<times> machine \<Rightarrow>
    bool \<times> machine" where
  "restore_one a b flags va = (\<lambda>(ok, m).
     if \<not> ok then (ok, m) else
     case (leaf_for_va a va m, leaf_for_va b va m) of
       (Some a_pte, Some b_pte) \<Rightarrow>
         if get_pte m a_pte AND PTE_VALID = 0 \<or> get_pte m b_pte AND PTE_VALID = 0 then (True, m)
         else if get_pte m a_pte AND PTE_ADDR_MASK \<noteq> get_pte m b_pte AND PTE_ADDR_MASK then (False, m)
         else
           let a_entry = leaf_with_ap (get_pte m a_pte AND NOT PTE_COW) (ap_of_flags flags);
               b_entry = leaf_with_ap (get_pte m b_pte AND NOT PTE_COW) (ap_of_flags flags);
               a_entry = (a_entry AND NOT PTE_UXN) OR xn_of_flags flags;
               b_entry = (b_entry AND NOT PTE_UXN) OR xn_of_flags flags
           in (True, set_pte b_pte b_entry (set_pte a_pte a_entry m))
     | _ \<Rightarrow> (True, m))"

definition vmm_restore_shared_range :: "user_address_space \<Rightarrow> user_address_space \<Rightarrow> u64 \<Rightarrow> u64 \<Rightarrow> u32 \<Rightarrow>
    machine \<Rightarrow> (bool \<times> machine) option" where
  "vmm_restore_shared_range a b start end flags m =
     (if start \<ge> end then Some (False, m) else range_loop (restore_one a b flags) start end (True, m))"

definition vmm_move_page :: "user_address_space \<Rightarrow> u64 \<Rightarrow> u64 \<Rightarrow> machine \<Rightarrow> bool \<times> machine" where
  "vmm_move_page as old_va new_va m =
     (case leaf_for_va as old_va m of
        None \<Rightarrow> (True, m)
      | Some old_pte \<Rightarrow>
        if get_pte m old_pte AND PTE_VALID = 0 then (True, m)
        else case ensure_l3 as new_va m of
          (None, m) \<Rightarrow> (False, m)
        | (Some l3, m) \<Rightarrow>
          let new_pte = slot_addr l3 (pt_index new_va 12)
          in if get_pte m new_pte AND PTE_VALID \<noteq> 0 then (False, m)
             else (True, set_pte old_pte 0 (set_pte new_pte (get_pte m old_pte) m)))"

subsection \<open>Destruction\<close>

fun destroy_entries :: "(u64 \<Rightarrow> machine \<Rightarrow> machine) \<Rightarrow> nat \<Rightarrow> u64 \<Rightarrow> nat list \<Rightarrow> machine \<Rightarrow> machine" where
  "destroy_entries child level table [] m = m"
| "destroy_entries child level table (i # is) m =
     (let entry = get_pte m (slot_addr table i); pa = entry AND PTE_ADDR_MASK
      in if entry AND PTE_VALID = 0 then destroy_entries child level table is m
         else if is_leaf_at_level entry level then destroy_entries child level table is (free_frame pa m)
         else destroy_entries child level table is (child pa m))"

primrec destroy_table :: "nat \<Rightarrow> u64 \<Rightarrow> machine \<Rightarrow> machine" where
  "destroy_table 0 table_pa m =
     free_frame table_pa (destroy_entries (\<lambda>pa m. m) 3 table_pa [0..<512] m)"
| "destroy_table (Suc n) table_pa m =
     free_frame table_pa (destroy_entries (destroy_table n) (2 - n) table_pa [0..<512] m)"

definition vmm_destroy :: "user_address_space \<Rightarrow> machine \<Rightarrow> user_address_space \<times> machine" where
  "vmm_destroy as m =
     (if root_pa as \<noteq> 0 then (as\<lparr>root_pa := 0\<rparr>, destroy_table 3 (root_pa as) m) else (as, m))"

subsection \<open>Copying to and from user memory\<close>

text \<open>
  The pages from \<open>page\<close> to \<open>last\<close>, both page aligned and in order, that the
  page loops visit.
\<close>

definition pages_between :: "u64 \<Rightarrow> u64 \<Rightarrow> u64 list" where
  "pages_between page to = map (\<lambda>i. page + of_nat i * PAGE_SIZE) [0..<unat ((to - page) div PAGE_SIZE) + 1]"

definition page_base :: "u64 \<Rightarrow> u64" where
  "page_base va = va AND NOT (PAGE_SIZE - 1)"

definition vmm_user_range_accessible :: "user_address_space \<Rightarrow> u64 \<Rightarrow> nat \<Rightarrow> vmm_access \<Rightarrow> machine \<Rightarrow> bool" where
  "vmm_user_range_accessible as va len access m \<longleftrightarrow>
     (if len = 0 then True
      else case checked_add va (of_nat (len - 1)) of
        None \<Rightarrow> False
      | Some end \<Rightarrow>
        list_all (\<lambda>page. user_to_phys_checked as page access m \<noteq> 0) (pages_between (page_base va) (page_base end)))"

text \<open>The first loop of \<^verbatim>\<open>vmm_copy_to_user\<close>: make every page writable or fail.\<close>

fun fault_pages :: "user_address_space \<Rightarrow> u64 list \<Rightarrow> machine \<Rightarrow> bool \<times> machine" where
  "fault_pages as [] m = (True, m)"
| "fault_pages as (page # ps) m =
     (if user_to_phys_checked as page VMM_ACCESS_WRITE m = 0 then
        (case vmm_handle_cow_fault as page m of
           (False, m) \<Rightarrow> (False, m)
         | (True, m) \<Rightarrow> fault_pages as ps m)
      else fault_pages as ps m)"

text \<open>Bytes from an address to the end of its page.\<close>

definition page_room :: "u64 \<Rightarrow> nat" where
  "page_room va = 4096 - unat (va AND (PAGE_SIZE - 1))"

lemma page_room_pos [simp]: "0 < page_room va"
proof -
  have "unat (va AND (PAGE_SIZE - 1)) \<le> unat (PAGE_SIZE - 1)"
    by (simp add: word_and_le1 flip: word_le_nat_alt)
  then show ?thesis by (simp add: page_room_def PAGE_SIZE_def)
qed

function copy_out :: "user_address_space \<Rightarrow> u64 \<Rightarrow> u8 list \<Rightarrow> machine \<Rightarrow> bool \<times> machine" where
  "copy_out as va [] m = (True, m)"
| "copy_out as va (b # bs) m =
     (let chunk = min (page_room va) (length (b # bs));
          pa = user_to_phys_checked as va VMM_ACCESS_WRITE m
      in if pa = 0 then
           (case vmm_handle_cow_fault as va m of
              (False, m) \<Rightarrow> (False, m)
            | (True, m) \<Rightarrow>
              let pa = user_to_phys_checked as va VMM_ACCESS_WRITE m
              in if pa = 0 then (False, m)
                 else copy_out as (va + of_nat chunk) (drop chunk (b # bs))
                        (m\<lparr>phys := write_bytes pa (take chunk (b # bs)) (phys m)\<rparr>))
         else copy_out as (va + of_nat chunk) (drop chunk (b # bs))
                (m\<lparr>phys := write_bytes pa (take chunk (b # bs)) (phys m)\<rparr>))"
  by pat_completeness auto
termination
  by (relation "measure (\<lambda>(as, va, bs, m). length bs)") auto

definition vmm_copy_to_user :: "user_address_space \<Rightarrow> u64 \<Rightarrow> u8 list \<Rightarrow> machine \<Rightarrow> bool \<times> machine" where
  "vmm_copy_to_user as dst src m =
     (if src = [] then (True, m)
      else case checked_add dst (of_nat (length src - 1)) of
        None \<Rightarrow> (False, m)
      | Some end \<Rightarrow>
        (case fault_pages as (pages_between (page_base dst) (page_base end)) m of
           (False, m) \<Rightarrow> (False, m)
         | (True, m) \<Rightarrow> copy_out as dst src m))"

function copy_in :: "user_address_space \<Rightarrow> u64 \<Rightarrow> nat \<Rightarrow> machine \<Rightarrow> u8 list option" where
  "copy_in as va len m =
     (if len = 0 then Some []
      else let chunk = min (page_room va) len;
               pa = user_to_phys_checked as va VMM_ACCESS_READ m
           in if pa = 0 then None
              else map_option (\<lambda>bs. read_bytes (phys m) pa chunk @ bs)
                     (copy_in as (va + of_nat chunk) (len - chunk) m))"
  by pat_completeness auto
termination
  by (relation "measure (\<lambda>(as, va, len, m). len)") auto

text \<open>The bytes read, or failure.\<close>

definition vmm_copy_from_user :: "user_address_space \<Rightarrow> u64 \<Rightarrow> nat \<Rightarrow> machine \<Rightarrow> u8 list option" where
  "vmm_copy_from_user as src len m =
     (if len = 0 then Some []
      else case checked_add src (of_nat (len - 1)) of
        None \<Rightarrow> None
      | Some end \<Rightarrow>
        if \<not> vmm_user_range_accessible as src len VMM_ACCESS_READ m then None else copy_in as src len m)"

definition vmm_tcr_with_ttbr0 :: "u64 \<Rightarrow> u64" where
  "vmm_tcr_with_ttbr0 tcr =
     (let clear = 0x3f OR push_bit 7 1 OR push_bit 8 3 OR push_bit 10 3 OR push_bit 12 3 OR push_bit 14 3 OR push_bit 32 7
      in (tcr AND NOT clear) OR 16 OR push_bit 8 1 OR push_bit 10 1 OR push_bit 12 3 OR push_bit 32 1)"

declare copy_in.simps [simp del] copy_out.simps [simp del]

end
