(* ===== verification/Vmm_Tables.thy ===== *)
theory Vmm_Tables
  imports Vmm
begin

text \<open>
  The page tables of an address space as a tree in physical memory, and the map from virtual
  pages to leaf entries it stands for. \<open>pt_wf\<close> says that every table is an allocated page
  and is reached along one path only; every routine that changes an entry or adds a table
  keeps it, and its effect on \<open>pte\<close> is an update of that map.
\<close>

subsection \<open>The bits of an entry\<close>

lemma addr_mask_push: "PTE_ADDR_MASK = push_bit 12 (mask 36)"
  by (simp add: PTE_ADDR_MASK_def push_bit_eq_mult mask_eq_exp_minus_1)

lemma pte_consts:
  "PTE_VALID = push_bit 0 1" "PTE_TABLE = push_bit 1 1" "PTE_AF = push_bit 10 1"
  "PTE_SH_INNER = push_bit 8 1 OR push_bit 9 1" "PTE_AP_MASK = push_bit 6 1 OR push_bit 7 1"
  "PTE_AP_USER_RW = push_bit 6 1" "PTE_AP_USER_RO = push_bit 6 1 OR push_bit 7 1"
  by (simp_all add: PTE_VALID_def PTE_TABLE_def PTE_AF_def PTE_SH_INNER_def PTE_AP_MASK_def
      PTE_AP_USER_RW_def PTE_AP_USER_RO_def push_bit_eq_mult)

lemma bit_one_at: "bit (push_bit k 1 :: u64) i \<longleftrightarrow> i = k \<and> k < 64"
  by (auto simp: bit_simps)

lemma pte_bits:
  "bit PTE_VALID i \<longleftrightarrow> i = 0" "bit PTE_TABLE i \<longleftrightarrow> i = 1" "bit PTE_AF i \<longleftrightarrow> i = 10"
  "bit PTE_SH_INNER i \<longleftrightarrow> i = 8 \<or> i = 9" "bit PTE_AP_MASK i \<longleftrightarrow> i = 6 \<or> i = 7"
  "bit PTE_AP_USER_RW i \<longleftrightarrow> i = 6" "bit PTE_AP_USER_RO i \<longleftrightarrow> i = 6 \<or> i = 7"
  "bit PTE_PXN i \<longleftrightarrow> i = 53" "bit PTE_UXN i \<longleftrightarrow> i = 54" "bit PTE_COW i \<longleftrightarrow> i = 55"
  "bit PTE_ADDR_MASK i \<longleftrightarrow> 12 \<le> i \<and> i < 48"
  unfolding pte_consts addr_mask_push PTE_PXN_def PTE_UXN_def PTE_COW_def bit_or_iff bit_one_at
  by (auto simp: bit_push_bit_iff bit_mask_iff)

lemma and_bit_zero: "(e AND push_bit k 1 = 0) \<longleftrightarrow> \<not> bit (e :: u64) k"
proof
  show "\<not> bit e k" if "e AND push_bit k 1 = 0"
  proof
    assume b: "bit e k"
    then have "k < 64" using bit_imp_le_length[of e k] by simp
    then show False using b arg_cong[OF that, of "\<lambda>w. bit w k"]
      by (simp only: bit_and_iff bit_one_at bit_0_eq bot_fun_def bot_bool_def simp_thms)
  qed
  show "e AND push_bit k 1 = 0" if "\<not> bit e k"
    by (rule bit_word_eqI) (use that in \<open>auto simp only: bit_and_iff bit_one_at bit_0_eq bot_fun_def bot_bool_def\<close>)
qed

lemma valid_bit [simp]: "(e AND PTE_VALID = 0) \<longleftrightarrow> \<not> bit e 0"
  unfolding pte_consts by (rule and_bit_zero)

lemma table_bit [simp]: "(e AND PTE_TABLE = 0) \<longleftrightarrow> \<not> bit e 1"
  unfolding pte_consts by (rule and_bit_zero)

lemma uxn_bit [simp]: "(e AND PTE_UXN = 0) \<longleftrightarrow> \<not> bit e 54"
  unfolding PTE_UXN_def by (rule and_bit_zero)

lemma cow_bit [simp]: "(e AND PTE_COW = 0) \<longleftrightarrow> \<not> bit e 55"
  unfolding PTE_COW_def by (rule and_bit_zero)

lemma and_eq_mask: "(e AND k = k) \<longleftrightarrow> (\<forall>i. bit k i \<longrightarrow> bit (e :: u64) i)"
proof
  show "\<forall>i. bit k i \<longrightarrow> bit e i" if "e AND k = k"
    by (metis that bit_and_iff)
  show "e AND k = k" if "\<forall>i. bit k i \<longrightarrow> bit e i"
    by (rule bit_word_eqI) (use that in \<open>auto simp: bit_and_iff\<close>)
qed

lemma table_entry_bits [simp]: "table_entry e \<longleftrightarrow> bit e 0 \<and> bit e 1"
  by (auto simp: table_entry_def and_eq_mask bit_or_iff pte_bits)

lemma valid_cow_bits [simp]: "(e AND (PTE_VALID OR PTE_COW) = PTE_VALID OR PTE_COW) \<longleftrightarrow> bit e 0 \<and> bit e 55"
  by (auto simp: and_eq_mask bit_or_iff pte_bits)

lemma ap_rw_bits [simp]: "(e AND PTE_AP_MASK = PTE_AP_USER_RW) \<longleftrightarrow> bit e 6 \<and> \<not> bit e 7"
proof
  show "bit e 6 \<and> \<not> bit e 7" if "e AND PTE_AP_MASK = PTE_AP_USER_RW"
    using arg_cong[OF that, of "\<lambda>w. bit w 6"] arg_cong[OF that, of "\<lambda>w. bit w 7"]
    by (simp add: bit_and_iff pte_bits)
  show "e AND PTE_AP_MASK = PTE_AP_USER_RW" if "bit e 6 \<and> \<not> bit e 7"
    by (rule bit_word_eqI) (use that in \<open>auto simp: bit_and_iff pte_bits\<close>)
qed

lemma leaf_entry_bits:
  "bit (leaf_entry pa flags) 0" "bit (leaf_entry pa flags) 1" "\<not> bit (leaf_entry pa flags) 55"
  "bit (leaf_entry pa flags) 6"
  "bit (leaf_entry pa flags) 7 \<longleftrightarrow> flags AND VMM_USER_WRITE = 0"
  "bit (leaf_entry pa flags) 54 \<longleftrightarrow> flags AND VMM_USER_EXEC = 0"
  by (auto simp: leaf_entry_def ap_of_flags_def xn_of_flags_def bit_or_iff bit_and_iff pte_bits)

lemma leaf_entry_addr: "leaf_entry pa flags AND PTE_ADDR_MASK = pa AND PTE_ADDR_MASK"
  by (rule bit_word_eqI)
    (auto simp: leaf_entry_def ap_of_flags_def xn_of_flags_def bit_or_iff bit_and_iff pte_bits)

lemma table_desc:
  "bit (n OR PTE_VALID OR PTE_TABLE) 0" "bit (n OR PTE_VALID OR PTE_TABLE) 1"
  "n AND PTE_ADDR_MASK = n \<Longrightarrow> (n OR PTE_VALID OR PTE_TABLE) AND PTE_ADDR_MASK = n"
proof -
  show "bit (n OR PTE_VALID OR PTE_TABLE) 0" "bit (n OR PTE_VALID OR PTE_TABLE) 1"
    by (simp_all add: bit_or_iff pte_bits)
  assume "n AND PTE_ADDR_MASK = n"
  moreover have "(n OR PTE_VALID OR PTE_TABLE) AND PTE_ADDR_MASK = n AND PTE_ADDR_MASK"
    by (rule bit_word_eqI) (auto simp: bit_or_iff bit_and_iff pte_bits)
  ultimately show "(n OR PTE_VALID OR PTE_TABLE) AND PTE_ADDR_MASK = n" by simp
qed

subsection \<open>Pages of physical memory\<close>

abbreviation mrefs :: "machine \<Rightarrow> u64 \<Rightarrow> u16" where
  "mrefs m \<equiv> pmm_refcount (mpmm m)"

definition page_aligned :: "u64 \<Rightarrow> bool" where
  "page_aligned t \<longleftrightarrow> unat t mod 4096 = 0"

lemma refs_aligned: "mrefs m t \<noteq> 0 \<Longrightarrow> page_aligned t"
  by (auto simp: pmm_refcount_def page_aligned_def page_aligned_iff split: if_splits)

lemma unat_page_add:
  assumes "page_aligned t" "k < 4096"
  shows "unat (t + of_nat k) = unat t + k"
proof -
  have "unat t < 18446744073709551616" using unat_lt_64[of t] by simp
  then have "unat t div 4096 < 4503599627370496" by (simp add: less_mult_imp_div_less)
  moreover have "unat t = 4096 * (unat t div 4096)"
    using assms(1) div_mult_mod_eq[of "unat t" 4096] by (simp add: page_aligned_def)
  ultimately have "unat t + k < 18446744073709551616" using assms(2) by linarith
  moreover have "unat (of_nat k :: u64) = k" using assms(2) by (simp add: unat_of_nat take_bit_nat_eq_self)
  ultimately show ?thesis by (simp add: unat_plus_if_size word_size)
qed

lemma page_split_unique:
  assumes "page_aligned t" "page_aligned n" "k < 4096" "j < 4096" "unat t + k = unat n + j"
  shows "t = n \<and> k = j"
proof -
  have "(unat t + k) mod 4096 = k" "(unat n + j) mod 4096 = j"
    using assms(1-4) by (auto simp: page_aligned_def mod_add_left_eq[symmetric] simp del: mod_add_left_eq)
  then show ?thesis using assms(5) by (simp add: word_unat_eq_iff)
qed

lemma other_page:
  assumes "page_aligned t" "page_aligned n" "t \<noteq> n" "k < 4096"
  shows "\<not> t + of_nat k - n < PAGE_SIZE"
proof
  assume "t + of_nat k - n < PAGE_SIZE"
  define j where "j = unat (t + of_nat k - n)"
  have j: "j < 4096" using \<open>t + of_nat k - n < PAGE_SIZE\<close> by (simp add: j_def word_less_nat_alt PAGE_SIZE_def)
  have "t + of_nat k = n + of_nat j" by (simp add: j_def)
  then have eq: "unat t + k = unat n + j" using unat_page_add assms j by metis
  then show False using page_split_unique[OF assms(1,2,4) j] assms(3) by simp
qed

definition page_eq :: "machine \<Rightarrow> machine \<Rightarrow> u64 \<Rightarrow> bool" where
  "page_eq m m' t \<longleftrightarrow> (\<forall>k < 4096. phys m' (t + of_nat k) = phys m (t + of_nat k))"

lemma slot_addr_add: "slot_addr t i + of_nat j = t + of_nat (8 * i + j)"
  by (simp add: slot_addr_def algebra_simps)

lemma get_pte_page_eq:
  assumes "page_eq m m' t" "i < 512"
  shows "get_pte m' (slot_addr t i) = get_pte m (slot_addr t i)"
  unfolding get_pte_def
  by (rule read64_cong) (use assms in \<open>simp add: slot_addr_add page_eq_def del: of_nat_add of_nat_mult\<close>)

lemma slot_addr_unat:
  assumes "page_aligned t" "i < 512"
  shows "unat (slot_addr t i) = unat t + 8 * i" "aligned8 (slot_addr t i)"
proof -
  show u: "unat (slot_addr t i) = unat t + 8 * i"
    using unat_page_add[OF assms(1), of "8 * i"] slot_addr_add[of t i 0] assms(2) by simp
  have "unat t mod 8 = 0" using assms(1) by (auto simp: page_aligned_def intro: mod_mod_cancel[of 8 4096, THEN subst])
  then show "aligned8 (slot_addr t i)" unfolding aligned8_def u by (simp add: mod_add_eq[symmetric])
qed

lemma slot_addr_inj:
  assumes "page_aligned t" "page_aligned n" "i < 512" "j < 512"
  shows "slot_addr t i = slot_addr n j \<longleftrightarrow> t = n \<and> i = j"
proof
  assume "slot_addr t i = slot_addr n j"
  then have eq: "unat t + 8 * i = unat n + 8 * j" using slot_addr_unat(1) assms by metis
  then show "t = n \<and> i = j" using page_split_unique[OF assms(1,2), of "8 * i" "8 * j"] assms(3,4) by simp
qed simp

lemma get_set_pte:
  assumes "page_aligned t" "page_aligned n" "i < 512" "j < 512"
  shows "get_pte (set_pte (slot_addr t i) e m) (slot_addr n j) =
    (if t = n \<and> i = j then e else get_pte m (slot_addr n j))"
  using assms read64_write64_other[OF slot_addr_unat(2)[of t i] slot_addr_unat(2)[of n j]] slot_addr_inj[of t n i j]
  by (auto simp: get_pte_def set_pte_def)

lemma set_pte_frame [simp]: "mpmm (set_pte p e m) = mpmm m"
  by (simp add: set_pte_def)

lemma page_eq_set_pte:
  assumes "page_aligned t" "page_aligned n" "t \<noteq> n" "i < 512"
  shows "page_eq m (set_pte (slot_addr n i) e m) t"
  unfolding page_eq_def
proof (intro allI impI)
  fix k :: nat assume k: "k < 4096"
  have "\<not> t + of_nat k - slot_addr n i < 8"
  proof
    assume lt: "t + of_nat k - slot_addr n i < 8"
    define j where "j = unat (t + of_nat k - slot_addr n i)"
    have j: "j < 8" using lt by (simp add: j_def word_less_nat_alt)
    have "t + of_nat k - n = of_nat (8 * i + j)"
      using slot_addr_add[of n i j] by (simp add: j_def algebra_simps)
    moreover have "unat (of_nat (8 * i + j) :: u64) = 8 * i + j"
      using j assms(4) unat_of_nat[of "8 * i + j", where 'a=64] by (simp add: take_bit_nat_eq_self del: of_nat_add of_nat_mult)
    ultimately have "t + of_nat k - n < PAGE_SIZE" using j assms(4) by (simp add: word_less_nat_alt PAGE_SIZE_def)
    then show False using other_page[OF assms(1,2,3) k] by simp
  qed
  then show "phys (set_pte (slot_addr n i) e m) (t + of_nat k) = phys m (t + of_nat k)"
    by (simp add: set_pte_def write64_def)
qed

subsection \<open>Frames that fit an entry\<close>

definition phys_ok :: "machine \<Rightarrow> bool" where
  "phys_ok m \<longleftrightarrow> pmm_wf (mpmm m) \<and> tracked_page_count (mpmm m) \<le> 68719476736"

lemma addr_mask_id:
  assumes "page_aligned t" "unat t < 281474976710656"
  shows "t AND PTE_ADDR_MASK = t" "t AND 0xfff = 0"
proof -
  have "t = take_bit 48 t"
    using assms(2) by (simp add: word_unat_eq_iff unsigned_take_bit_eq take_bit_nat_eq_self)
  then have hi: "\<And>i. bit t i \<Longrightarrow> i < 48" by (metis bit_take_bit_iff)
  have "take_bit 12 (unat t) = 0" using assms(1) by (simp add: page_aligned_def take_bit_eq_mod)
  then have lo0: "take_bit 12 t = 0" by (simp add: word_unat_eq_iff unsigned_take_bit_eq)
  then have lo: "\<And>i. bit t i \<Longrightarrow> 12 \<le> i" by (metis bit_0_eq bit_take_bit_iff bot_apply bot_bool_def not_less)
  show "t AND PTE_ADDR_MASK = t"
    by (rule bit_word_eqI) (use hi lo in \<open>auto simp: bit_and_iff pte_bits\<close>)
  have "t AND mask 12 = 0" using lo0 by (simp add: take_bit_eq_mask)
  then show "t AND 0xfff = 0" by (simp add: mask_eq_exp_minus_1)
qed

lemma refs_fit:
  assumes "phys_ok m" "mrefs m t \<noteq> 0"
  shows "unat t < 281474976710656"
proof -
  have "page_of t < tracked_page_count (mpmm m)"
    using assms by (auto simp: phys_ok_def pmm_refcount_def valid_page_def split: if_splits)
  then have "page_of t < 68719476736" using assms(1) by (simp add: phys_ok_def)
  then show ?thesis by (simp add: div_less_iff_less_mult)
qed

lemma zalloc_some:
  assumes "phys_ok m" "pmm_alloc_zero_page m = (m', n)" "n \<noteq> 0"
  shows "phys_ok m'" "mrefs m n = 0" "mrefs m' = (mrefs m)(n := 1)" "phys m' = zero_page n (phys m)"
    "page_aligned n" "n AND PTE_ADDR_MASK = n"
proof -
  have wf: "pmm_wf (mpmm m)" using assms(1) by (simp add: phys_ok_def)
  obtain s p where r: "pmm_alloc_page (mpmm m) = (s, n)" and m': "m' = m\<lparr>mpmm := s, phys := zero_page n (phys m)\<rparr>"
    using assms(2,3) by (auto simp: pmm_alloc_zero_page_def Let_def split: prod.splits if_splits)
  have t: "tracked_page_count s = tracked_page_count (mpmm m)"
    using pmm_alloc_page_took[OF wf r assms(3)] by (auto simp: pages_of_def)
  show ok: "phys_ok m'" using assms(1) pool.alloc_inv[OF wf] assms(2) t by (simp add: phys_ok_def m')
  show "mrefs m n = 0" using pool.alloc_fresh[OF wf] assms(2,3) by simp
  show rf: "mrefs m' = (mrefs m)(n := 1)" using pool.alloc_refs[OF wf] assms(2,3) by simp
  show "phys m' = zero_page n (phys m)" by (simp add: m')
  show al: "page_aligned n" using refs_aligned[of m' n] rf by simp
  show "n AND PTE_ADDR_MASK = n" using addr_mask_id(1)[OF al] refs_fit[OF ok, of n] rf by simp
qed

lemma zalloc_none:
  assumes "phys_ok m" "pmm_alloc_zero_page m = (m', 0)"
  shows "phys_ok m'" "mrefs m' = mrefs m" "phys m' = phys m"
proof -
  have wf: "pmm_wf (mpmm m)" using assms(1) by (simp add: phys_ok_def)
  obtain s where r: "pmm_alloc_page (mpmm m) = (s, 0)" and m': "m' = m\<lparr>mpmm := s\<rparr>"
    using assms(2) by (auto simp: pmm_alloc_zero_page_def Let_def split: prod.splits if_splits)
  show "phys_ok m'"
    using assms(1) pool.alloc_inv[OF wf] assms(2) pmm_alloc_page_none(1)[OF wf] r
    by (simp add: phys_ok_def m' pages_of_def)
  show "mrefs m' = mrefs m" using pool.alloc_none[OF wf] assms(2) by simp
  show "phys m' = phys m" by (simp add: m')
qed

lemma page_eq_zero:
  "page_aligned t \<Longrightarrow> page_aligned n \<Longrightarrow> t \<noteq> n \<Longrightarrow> phys m' = zero_page n (phys m) \<Longrightarrow> page_eq m m' t"
  using other_page by (simp add: page_eq_def zero_page_def)

lemma get_pte_zero:
  assumes "page_aligned n" "i < 512" "phys m' = zero_page n ph"
  shows "get_pte m' (slot_addr n i) = 0"
proof -
  have "get_pte m' (slot_addr n i) = read64 (\<lambda>a. 0) 0"
    unfolding get_pte_def
  proof (rule read64_cong)
    fix j :: nat assume "j < 8"
    then have "unat (of_nat (8 * i + j) :: u64) = 8 * i + j"
      using assms(2) unat_of_nat[of "8 * i + j", where 'a=64] by (simp add: take_bit_nat_eq_self del: of_nat_add of_nat_mult)
    then have "(of_nat (8 * i + j) :: u64) < PAGE_SIZE"
      using \<open>j < 8\<close> assms(2) by (simp add: word_less_nat_alt PAGE_SIZE_def del: of_nat_add of_nat_mult)
    then show "phys m' (slot_addr n i + of_nat j) = 0"
      unfolding slot_addr_add by (simp add: assms(3) zero_page_def del: of_nat_add of_nat_mult)
  qed
  also have "\<dots> = 0" by (rule bit_word_eqI) (simp add: bit_read64)
  finally show ?thesis .
qed

subsection \<open>The tree of tables\<close>

text \<open>The index into the table of level \<open>l\<close>, and the table of that level on the path of an address.\<close>

definition idx :: "u64 \<Rightarrow> nat \<Rightarrow> nat" where
  "idx va l = pt_index va (39 - 9 * l)"

primrec tbl :: "machine \<Rightarrow> u64 \<Rightarrow> u64 \<Rightarrow> nat \<Rightarrow> u64 option" where
  "tbl m r va 0 = Some r"
| "tbl m r va (Suc l) =
     (case tbl m r va l of
        None \<Rightarrow> None
      | Some t \<Rightarrow> let e = get_pte m (slot_addr t (idx va l))
                in if table_entry e then Some (e AND PTE_ADDR_MASK) else None)"

text \<open>The leaf entry of an address; 0, which is not valid, where a table is missing.\<close>

definition pte :: "machine \<Rightarrow> u64 \<Rightarrow> u64 \<Rightarrow> u64" where
  "pte m r va = (case tbl m r va 3 of None \<Rightarrow> 0 | Some t \<Rightarrow> get_pte m (slot_addr t (idx va 3)))"

definition agree :: "nat \<Rightarrow> u64 \<Rightarrow> u64 \<Rightarrow> bool" where
  "agree l va vb \<longleftrightarrow> (\<forall>k < l. idx va k = idx vb k)"

definition pt_wf :: "machine \<Rightarrow> u64 \<Rightarrow> bool" where
  "pt_wf m r \<longleftrightarrow> phys_ok m \<and>
     (\<forall>l va t. l \<le> 3 \<longrightarrow> tbl m r va l = Some t \<longrightarrow> mrefs m t \<noteq> 0) \<and>
     (\<forall>l l' va va' t. l \<le> 3 \<longrightarrow> l' \<le> 3 \<longrightarrow> tbl m r va l = Some t \<longrightarrow> tbl m r va' l' = Some t \<longrightarrow>
        l = l' \<and> agree l va va')"

lemma idx_bound [simp]: "idx va l < 512"
proof -
  have "drop_bit (39 - 9 * l) va AND 0x1ff \<le> (0x1ff :: u64)" by (rule word_and_le1)
  then have "unat (drop_bit (39 - 9 * l) va AND 0x1ff) \<le> 511" by (simp add: word_le_nat_alt)
  then show ?thesis by (simp add: idx_def pt_index_def)
qed

lemma agree_refl [simp]: "agree l va va"
  by (simp add: agree_def)

lemma agree_sym: "agree l va vb \<longleftrightarrow> agree l vb va"
  by (auto simp: agree_def)

lemma agree_Suc: "agree (Suc l) va vb \<longleftrightarrow> agree l va vb \<and> idx va l = idx vb l"
  by (auto simp: agree_def less_Suc_eq)

lemma agree_mono: "agree l va vb \<Longrightarrow> k \<le> l \<Longrightarrow> agree k va vb"
  by (auto simp: agree_def)

lemma agree_trans: "agree l va vb \<Longrightarrow> agree l vb vc \<Longrightarrow> agree l va vc"
  by (simp add: agree_def)

lemma tbl_agree: "agree l va vb \<Longrightarrow> tbl m r va l = tbl m r vb l"
  by (induction l) (auto simp: agree_Suc Let_def split: option.splits)

lemma pte_agree: "agree 4 va vb \<Longrightarrow> pte m r va = pte m r vb"
  using tbl_agree[of 3 va vb m r] agree_Suc[of 3 va vb] by (simp add: pte_def split: option.splits)

lemma tbl_none_mono: "tbl m r va l = None \<Longrightarrow> l \<le> k \<Longrightarrow> tbl m r va k = None"
  by (induction k) (auto simp: le_Suc_eq)

lemma pt_wfD:
  assumes "pt_wf m r"
  shows "phys_ok m" "l \<le> 3 \<Longrightarrow> tbl m r va l = Some t \<Longrightarrow> mrefs m t \<noteq> 0"
    "l \<le> 3 \<Longrightarrow> l' \<le> 3 \<Longrightarrow> tbl m r va l = Some t \<Longrightarrow> tbl m r va' l' = Some t \<Longrightarrow> l = l' \<and> agree l va va'"
  using assms unfolding pt_wf_def by blast+

lemma pt_wf_aligned: "pt_wf m r \<Longrightarrow> l \<le> 3 \<Longrightarrow> tbl m r va l = Some t \<Longrightarrow> page_aligned t"
  using pt_wfD(2) refs_aligned by blast

text \<open>The routines that walk the tables, over the tree.\<close>

lemma idx_levels: "pt_index va 39 = idx va 0" "pt_index va 30 = idx va 1" "pt_index va 21 = idx va 2"
  "pt_index va 12 = idx va 3"
  by (simp_all add: idx_def)

lemma tbl_levels:
  "tbl m r va 1 = (let e = get_pte m (slot_addr r (idx va 0)) in if table_entry e then Some (e AND PTE_ADDR_MASK) else None)"
  "tbl m r va 2 = (case tbl m r va 1 of None \<Rightarrow> None | Some t \<Rightarrow>
     let e = get_pte m (slot_addr t (idx va 1)) in if table_entry e then Some (e AND PTE_ADDR_MASK) else None)"
  "tbl m r va 3 = (case tbl m r va 2 of None \<Rightarrow> None | Some t \<Rightarrow>
     let e = get_pte m (slot_addr t (idx va 2)) in if table_entry e then Some (e AND PTE_ADDR_MASK) else None)"
  by (simp_all only: One_nat_def numeral_2_eq_2 numeral_3_eq_3 tbl.simps option.case)

lemma leaf_for_va_tbl: "leaf_for_va as va m = map_option (\<lambda>t. slot_addr t (idx va 3)) (tbl m (root_pa as) va 3)"
  by (simp add: leaf_for_va_def tbl_levels Let_def idx_levels del: table_entry_bits)

lemma user_to_phys_pte:
  "user_to_phys_checked as va access m =
     (let e = pte m (root_pa as) va
      in if bit e 0 \<and> user_entry_allows e access then (e AND PTE_ADDR_MASK) OR (va AND 0xfff) else 0)"
  by (simp add: user_to_phys_checked_def pte_def tbl_levels Let_def idx_levels del: table_entry_bits)

lemma is_mapped_pte: "vmm_is_mapped as va m \<longleftrightarrow> bit (pte m (root_pa as) va) 0"
  by (auto simp: vmm_is_mapped_def leaf_for_va_tbl pte_def split: option.splits)

text \<open>Changes outside the tables.\<close>

lemma tbl_page_eq:
  assumes "\<And>l t. l < k \<Longrightarrow> tbl m r va l = Some t \<Longrightarrow> page_eq m m' t"
  shows "tbl m' r va k = tbl m r va k"
  using assms
proof (induction k)
  case (Suc k)
  have eq: "tbl m' r va k = tbl m r va k" by (rule Suc.IH) (use Suc.prems less_SucI in blast)
  show ?case
  proof (cases "tbl m r va k")
    case (Some t)
    then have "get_pte m' (slot_addr t (idx va k)) = get_pte m (slot_addr t (idx va k))"
      using Suc.prems[of k t] by (intro get_pte_page_eq) auto
    then show ?thesis using eq Some by simp
  qed (simp add: eq)
qed simp

lemma pte_page_eq:
  assumes "\<And>l t. l \<le> 3 \<Longrightarrow> tbl m r va l = Some t \<Longrightarrow> page_eq m m' t"
  shows "pte m' r va = pte m r va"
proof -
  have "tbl m' r va 3 = tbl m r va 3" by (rule tbl_page_eq) (use assms less_imp_le in blast)
  moreover have "get_pte m' (slot_addr t (idx va 3)) = get_pte m (slot_addr t (idx va 3))"
    if "tbl m r va 3 = Some t" for t using assms[of 3 t] that by (intro get_pte_page_eq) auto
  ultimately show ?thesis by (auto simp: pte_def split: option.splits)
qed

lemma pt_wf_page_eq:
  assumes "pt_wf m r" "\<And>va l t. l \<le> 3 \<Longrightarrow> tbl m r va l = Some t \<Longrightarrow> page_eq m m' t \<and> mrefs m' t \<noteq> 0" "phys_ok m'"
  shows "pt_wf m' r"
proof -
  have eq: "l \<le> 3 \<Longrightarrow> tbl m' r va l = tbl m r va l" for va l
    by (rule tbl_page_eq) (use assms(2) less_imp_le le_trans in blast)
  show ?thesis unfolding pt_wf_def
  proof (intro conjI allI impI)
    show "phys_ok m'" by (rule assms(3))
    show "mrefs m' t \<noteq> 0" if "l \<le> 3" "tbl m' r va l = Some t" for l va t
      using assms(2)[of l va t] that eq by simp
  qed (use pt_wfD(3)[OF assms(1)] eq in metis)+
qed


subsection \<open>Writing an entry\<close>

lemma tbl_set_pte_above:
  assumes "pt_wf m r" "L \<le> 3" "tbl m r va L = Some t" "l \<le> L"
  shows "tbl (set_pte (slot_addr t (idx va L)) e m) r v l = tbl m r v l"
proof (rule tbl_page_eq)
  fix k u assume k: "k < l" and u: "tbl m r v k = Some u"
  have "u \<noteq> t" using pt_wfD(3)[OF assms(1), of k L v u va] k u assms by auto
  then show "page_eq m (set_pte (slot_addr t (idx va L)) e m) u"
    using pt_wf_aligned[OF assms(1), of k v u] pt_wf_aligned[OF assms(1,2,3)] k u assms(2,4)
    by (intro page_eq_set_pte) auto
qed

lemma get_pte_set_pte_path:
  assumes wf: "pt_wf m r" and L: "L \<le> 3" "tbl m r va L = Some t" and l: "l \<le> 3" "tbl m r v l = Some u"
    and no: "\<not> (l = L \<and> agree (Suc L) v va)"
  shows "get_pte (set_pte (slot_addr t (idx va L)) e m) (slot_addr u (idx v l)) = get_pte m (slot_addr u (idx v l))"
proof -
  have "\<not> (t = u \<and> idx va L = idx v l)"
  proof
    assume eq: "t = u \<and> idx va L = idx v l"
    then have "l = L \<and> agree l v va" using pt_wfD(3)[OF wf l(1) L(1) l(2), of va] L(2) by auto
    then show False using eq no by (auto simp: agree_Suc)
  qed
  then show ?thesis using pt_wf_aligned[OF wf L] pt_wf_aligned[OF wf l] by (auto simp: get_set_pte)
qed

lemma tbl_set_pte_off:
  assumes "pt_wf m r" "L \<le> 3" "tbl m r va L = Some t" "\<not> agree (Suc L) v va" "l \<le> 3"
  shows "tbl (set_pte (slot_addr t (idx va L)) e m) r v l = tbl m r v l"
  using assms(5)
proof (induction l)
  case (Suc l)
  then have IH: "tbl (set_pte (slot_addr t (idx va L)) e m) r v l = tbl m r v l" by simp
  show ?case
  proof (cases "tbl m r v l")
    case (Some u)
    then show ?thesis
      using get_pte_set_pte_path[OF assms(1-3), of l v u e] Suc.prems assms(4) IH by simp
  qed (simp add: IH)
qed simp

lemma pte_set_leaf:
  assumes "pt_wf m r" "tbl m r va 3 = Some t"
  shows "pte (set_pte (slot_addr t (idx va 3)) e m) r v = (if agree 4 v va then e else pte m r v)"
proof (cases "tbl m r v 3")
  case (Some u)
  have eq: "tbl (set_pte (slot_addr t (idx va 3)) e m) r v 3 = Some u"
    using tbl_set_pte_above[OF assms(1) _ assms(2)] Some by simp
  show ?thesis
  proof (cases "agree 4 v va")
    case True
    then have "agree 3 v va" "idx v 3 = idx va 3" using agree_Suc[of 3 v va] by simp_all
    then have "u = t" using tbl_agree[of 3 v va m r] Some assms(2) by simp
    then show ?thesis using eq True \<open>idx v 3 = idx va 3\<close> pt_wf_aligned[OF assms(1) _ assms(2)]
      by (simp add: pte_def get_set_pte)
  next
    case False
    then show ?thesis
      using get_pte_set_pte_path[OF assms(1) _ assms(2), of 3 v u e] eq Some by (simp add: pte_def)
  qed
next
  case None
  have "\<not> agree 4 v va" using None assms(2) tbl_agree[of 3 v va m r] agree_mono[of 4 v va 3] by auto
  moreover have "tbl (set_pte (slot_addr t (idx va 3)) e m) r v 3 = None"
    using tbl_set_pte_above[OF assms(1) _ assms(2)] None by simp
  ultimately show ?thesis by (simp add: pte_def None)
qed

lemma pt_wf_same_tbl:
  assumes "pt_wf m r" "\<And>v l. l \<le> 3 \<Longrightarrow> tbl m' r v l = tbl m r v l" "phys_ok m'"
    "\<And>t. mrefs m t \<noteq> 0 \<Longrightarrow> mrefs m' t \<noteq> 0"
  shows "pt_wf m' r"
  using assms(1,3) assms(4) unfolding pt_wf_def by (simp add: assms(2))

lemma phys_ok_set_pte [simp]: "phys_ok (set_pte p e m) = phys_ok m"
  by (simp add: phys_ok_def)

lemma pt_wf_set_leaf:
  assumes "pt_wf m r" "tbl m r va 3 = Some t"
  shows "pt_wf (set_pte (slot_addr t (idx va 3)) e m) r"
  by (rule pt_wf_same_tbl[OF assms(1)])
    (use tbl_set_pte_above[OF assms(1) _ assms(2)] pt_wfD(1)[OF assms(1)] in simp_all)

subsection \<open>Adding a table\<close>

definition is_table :: "machine \<Rightarrow> u64 \<Rightarrow> u64 \<Rightarrow> bool" where
  "is_table m r p \<longleftrightarrow> (\<exists>l v. l \<le> 3 \<and> tbl m r v l = Some p)"

text \<open>
  What the construction of tables may do: the map stays the same, frames in use stay in
  use, and the frames that are not tables keep their contents.
\<close>

definition grew :: "u64 \<Rightarrow> machine \<Rightarrow> machine \<Rightarrow> bool" where
  "grew r m m' \<longleftrightarrow> pt_wf m' r \<and> pte m' r = pte m r \<and>
     (\<forall>p. mrefs m p \<noteq> 0 \<longrightarrow> mrefs m' p = mrefs m p) \<and>
     (\<forall>p. mrefs m p \<noteq> 0 \<longrightarrow> \<not> is_table m r p \<longrightarrow> \<not> is_table m' r p \<and> page_eq m m' p)"

lemma page_eq_refl [simp]: "page_eq m m p"
  by (simp add: page_eq_def)

lemma page_eq_trans: "page_eq m m' p \<Longrightarrow> page_eq m' m'' p \<Longrightarrow> page_eq m m'' p"
  by (simp add: page_eq_def)

lemma grew_refl: "pt_wf m r \<Longrightarrow> grew r m m"
  by (simp add: grew_def)

lemma grew_trans: "grew r m m' \<Longrightarrow> grew r m' m'' \<Longrightarrow> grew r m m''"
  unfolding grew_def by (metis page_eq_trans)

lemma new_table_tbl:
  assumes wf: "pt_wf m r" and L: "L < 3" "tbl m r va L = Some t" and iv: "\<not> table_entry (get_pte m (slot_addr t (idx va L)))"
    and m1: "pmm_alloc_zero_page m = (m1, n)" "n \<noteq> 0"
    and m': "m' = set_pte (slot_addr t (idx va L)) (n OR PTE_VALID OR PTE_TABLE) m1"
    and l: "l \<le> 3"
  shows "tbl m' r v l = (if agree (Suc L) v va \<and> L < l then if l = Suc L then Some n else None else tbl m r v l)"
    "pte m' r v = pte m r v"
proof -
  have ok: "phys_ok m" using wf by (rule pt_wfD)
  note z = zalloc_some[OF ok m1]
  have eq1: "page_eq m m1 p" if "mrefs m p \<noteq> 0" for p
    by (rule page_eq_zero[OF _ z(5) _ z(4)]) (use that z(2) refs_aligned in auto)
  have wf1: "pt_wf m1 r"
    using pt_wf_page_eq[OF wf _ z(1)] eq1 pt_wfD(2)[OF wf] z(3) by (metis fun_upd_apply one_neq_zero)
  have t1: "tbl m1 r v l = tbl m r v l" if "l \<le> 3" for v l
    by (rule tbl_page_eq) (use eq1 pt_wfD(2)[OF wf] that less_imp_le le_trans in blast)
  have L1: "L \<le> 3" "tbl m1 r va L = Some t" using L t1 by simp_all
  have al: "page_aligned t" using pt_wf_aligned[OF wf1 L1] .
  have nt: "t \<noteq> n" using pt_wfD(2)[OF wf _ L(2)] L(1) z(2) by auto
  have en: "get_pte m' (slot_addr n i) = 0" if "i < 512" for i
    using get_set_pte[OF al z(5), of "idx va L" i] get_pte_zero[OF z(5) that z(4)] nt that by (simp add: m')
  have et: "get_pte m' (slot_addr t (idx va L)) = n OR PTE_VALID OR PTE_TABLE"
    using get_set_pte[OF al al, of "idx va L" "idx va L"] by (simp add: m')
  have on: "tbl m' r v (Suc L) = Some n" if a: "agree (Suc L) v va" for v
  proof -
    have "tbl m' r v L = Some t"
      using tbl_set_pte_above[OF wf1 L1, of L "n OR PTE_VALID OR PTE_TABLE" v] tbl_agree[of L v va m1 r] a L1(2)
      by (simp add: m' agree_Suc)
    then show ?thesis using et a table_desc z(6) by (simp add: agree_Suc)
  qed
  have below: "tbl m' r v l = None" if a: "agree (Suc L) v va" and "Suc L < l" for v l
  proof -
    have "tbl m' r v (Suc (Suc L)) = None" using on[OF a] en[of "idx v (Suc L)"]
      by (simp del: tbl.simps(2) add: tbl.simps(2)[of m' r v "Suc L"])
    then show ?thesis using that(2) tbl_none_mono[of m' r v "Suc (Suc L)" l] by simp
  qed
  have before: "tbl m r v l = None" if a: "agree (Suc L) v va" and "L < l" for v l
  proof -
    have "tbl m r v (Suc L) = None" using tbl_agree[OF a, of m r] L(2) iv by (simp add: Let_def)
    then show ?thesis using that(2) tbl_none_mono[of m r v "Suc L" l] by simp
  qed
  have same: "tbl m' r v l = tbl m r v l" if "\<not> agree (Suc L) v va \<or> l \<le> L" "l \<le> 3" for v l
    using that tbl_set_pte_off[OF wf1 L1] tbl_set_pte_above[OF wf1 L1] t1 by (auto simp: m')
  show "tbl m' r v l = (if agree (Suc L) v va \<and> L < l then if l = Suc L then Some n else None else tbl m r v l)"
    using on below[of v l] same[of v l] l by auto
  show "pte m' r v = pte m r v"
  proof (cases "agree (Suc L) v va")
    case True
    have "pte m r v = 0" using before[OF True, of 3] L(1) by (simp add: pte_def)
    moreover have "pte m' r v = 0"
      using on[OF True] below[OF True, of 3] L(1) en by (cases "Suc L = 3") (auto simp: pte_def)
    ultimately show ?thesis by simp
  next
    case False
    then have "tbl m' r v 3 = tbl m r v 3" using same[of v 3] by simp
    moreover have "get_pte m' (slot_addr u (idx v 3)) = get_pte m (slot_addr u (idx v 3))" if u: "tbl m r v 3 = Some u" for u
    proof -
      have "get_pte m' (slot_addr u (idx v 3)) = get_pte m1 (slot_addr u (idx v 3))"
        unfolding m' by (rule get_pte_set_pte_path[OF wf1 L1]) (use u t1 L(1) in auto)
      also have "\<dots> = get_pte m (slot_addr u (idx v 3))"
        using eq1 pt_wfD(2)[OF wf _ u] by (intro get_pte_page_eq) auto
      finally show ?thesis .
    qed
    ultimately show ?thesis by (simp add: pte_def split: option.splits)
  qed
qed

lemma new_table_grew:
  assumes wf: "pt_wf m r" and L: "L < 3" "tbl m r va L = Some t" and iv: "\<not> table_entry (get_pte m (slot_addr t (idx va L)))"
    and m1: "pmm_alloc_zero_page m = (m1, n)" "n \<noteq> 0"
    and m': "m' = set_pte (slot_addr t (idx va L)) (n OR PTE_VALID OR PTE_TABLE) m1"
  shows "grew r m m'" "tbl m' r va (Suc L) = Some n"
proof -
  have ok: "phys_ok m" using wf by (rule pt_wfD)
  note z = zalloc_some[OF ok m1] and new = new_table_tbl[OF assms]
  have rf: "mrefs m' = (mrefs m)(n := 1)" using z(3) by (simp add: m')
  have old: "tbl m' r v l = Some p \<Longrightarrow> l \<le> 3 \<Longrightarrow> tbl m r v l = Some p \<and> p \<noteq> n \<or> p = n \<and> l = Suc L \<and> agree (Suc L) v va"
    for v l p using new(1)[of l v] pt_wfD(2)[OF wf, of l v p] z(2) by (auto split: if_splits)
  have "pt_wf m' r" unfolding pt_wf_def
  proof (intro conjI allI impI)
    show "phys_ok m'" using z(1) by (simp add: m')
    show "mrefs m' p \<noteq> 0" if "l \<le> 3" "tbl m' r v l = Some p" for l v p
      using old[OF that(2,1)] pt_wfD(2)[OF wf that(1)] by (auto simp: rf)
    fix l k v w p assume lk: "l \<le> 3" "k \<le> 3" "tbl m' r v l = Some p" "tbl m' r w k = Some p"
    then have "l = k \<and> agree l v w"
      using old[of v l p] old[of w k p] pt_wfD(3)[OF wf lk(1,2), of v p w] agree_sym agree_trans by metis
    then show "l = k" "agree l v w" by blast+
  qed
  moreover have "pte m' r = pte m r" using new(2)[of 3] by auto
  moreover have "page_eq m m' p" if "mrefs m p \<noteq> 0" "\<not> is_table m r p" for p
  proof -
    have "page_aligned p" using that(1) refs_aligned by blast
    then have "page_eq m m1 p" using page_eq_zero[OF _ z(5) _ z(4)] that(1) z(2) by auto
    moreover have "t \<noteq> p" using that(2) L by (auto simp: is_table_def)
    ultimately show ?thesis
      using page_eq_set_pte[OF \<open>page_aligned p\<close>, of t "idx va L"] pt_wf_aligned[OF wf _ L(2)] L(1) page_eq_trans
      by (auto simp: m')
  qed
  moreover have "\<not> is_table m' r p" if "mrefs m p \<noteq> 0" "\<not> is_table m r p" for p
    using that old z(2) unfolding is_table_def by blast
  ultimately show "grew r m m'" using z(2) by (auto simp: grew_def rf)
  show "tbl m' r va (Suc L) = Some n" using new(1)[of "Suc L" va] L(1) by simp
qed

lemma grew_zalloc_none:
  assumes "pt_wf m r" "pmm_alloc_zero_page m = (m', 0)"
  shows "grew r m m'"
proof -
  note z = zalloc_none[OF pt_wfD(1)[OF assms(1)] assms(2)]
  have pe: "page_eq m m' p" for p by (simp add: page_eq_def z(3))
  then have t: "tbl m' r v l = tbl m r v l" for v l by (intro tbl_page_eq)
  have "pte m' r v = pte m r v" for v using pe by (intro pte_page_eq)
  moreover have "pt_wf m' r" by (rule pt_wf_same_tbl[OF assms(1)]) (simp_all add: t z)
  ultimately show ?thesis by (auto simp: grew_def z is_table_def t pe)
qed

lemma ensure_table_grew:
  assumes wf: "pt_wf m r" and L: "L < 3" "tbl m r va L = Some t" and e: "ensure_table t (idx va L) m = (res, m')"
  shows "grew r m m' \<and> (\<forall>u. res = Some u \<longrightarrow> tbl m' r va (Suc L) = Some u)"
proof (cases "bit (get_pte m (slot_addr t (idx va L))) 0")
  case True
  then show ?thesis using e L grew_refl[OF wf] by (auto simp: ensure_table_def Let_def split: if_splits)
next
  case False
  obtain m1 n where m1: "pmm_alloc_zero_page m = (m1, n)" by fastforce
  show ?thesis
  proof (cases "n = 0")
    case True
    then show ?thesis using e False m1 grew_zalloc_none[OF wf] by (auto simp: ensure_table_def)
  next
    case n: False
    define m2 where "m2 = set_pte (slot_addr t (idx va L)) (n OR PTE_VALID OR PTE_TABLE) m1"
    have nt: "\<not> table_entry (get_pte m (slot_addr t (idx va L)))" using False by simp
    note new = new_table_grew[OF wf L nt m1 n m2_def]
    have g: "get_pte m2 (slot_addr t (idx va L)) = n OR PTE_VALID OR PTE_TABLE"
      using get_set_pte[of t t "idx va L" "idx va L"] pt_wf_aligned[OF wf _ L(2)] L(1) by (simp add: m2_def)
    have "res = Some n \<and> m' = m2"
      using e False m1 n g table_desc[of n] zalloc_some(6)[OF pt_wfD(1)[OF wf] m1 n]
      by (auto simp: ensure_table_def Let_def m2_def)
    then show ?thesis using new by simp
  qed
qed

lemma ensure_l3_grew:
  assumes wf: "pt_wf m (root_pa as)" and e: "ensure_l3 as va m = (res, m')"
  shows "grew (root_pa as) m m'" "res = Some u \<Longrightarrow> tbl m' (root_pa as) va 3 = Some u"
proof -
  let ?r = "root_pa as"
  have next_ok: "pt_wf m' ?r" if "grew ?r m m'" for m m' using that by (simp add: grew_def)
  obtain r1 m1 where e1: "ensure_table ?r (idx va 0) m = (r1, m1)" by fastforce
  have s1: "grew ?r m m1 \<and> (\<forall>u. r1 = Some u \<longrightarrow> tbl m1 ?r va (Suc 0) = Some u)"
    by (rule ensure_table_grew[OF wf _ _ e1]) simp_all
  have "grew ?r m m' \<and> (\<forall>u. res = Some u \<longrightarrow> tbl m' ?r va 3 = Some u)"
  proof (cases r1)
    case None
    then show ?thesis using e e1 s1 by (simp add: ensure_l3_def idx_levels)
  next
    case (Some l1)
    obtain r2 m2 where e2: "ensure_table l1 (idx va 1) m1 = (r2, m2)" by fastforce
    have s2: "grew ?r m1 m2 \<and> (\<forall>u. r2 = Some u \<longrightarrow> tbl m2 ?r va (Suc 1) = Some u)"
      by (rule ensure_table_grew[OF next_ok[OF conjunct1[OF s1]] _ _ e2]) (use s1 Some in \<open>simp_all del: tbl.simps\<close>)
    show ?thesis
    proof (cases r2)
      case None
      then show ?thesis using e e1 e2 s1 s2 Some grew_trans by (auto simp: ensure_l3_def idx_levels)
    next
      case (Some l2)
      then have e3: "ensure_table l2 (idx va 2) m2 = (res, m')"
        using e e1 e2 \<open>r1 = Some l1\<close> by (simp add: ensure_l3_def idx_levels)
      have "grew ?r m2 m' \<and> (\<forall>u. res = Some u \<longrightarrow> tbl m' ?r va (Suc 2) = Some u)"
        by (rule ensure_table_grew[OF next_ok[OF conjunct1[OF s2]] _ _ e3])
          (use s2 Some in \<open>simp_all add: numeral_2_eq_2 del: tbl.simps\<close>)
      then show ?thesis using s1 s2 grew_trans by (metis numeral_2_eq_2 numeral_3_eq_3)
    qed
  qed
  then show "grew ?r m m'" "res = Some u \<Longrightarrow> tbl m' ?r va 3 = Some u" by simp_all
qed

end
