(* ===== verification/Vmm_Ops.thy ===== *)
theory Vmm_Ops
  imports Vmm_Tables
begin

text \<open>
  The operations of \<^verbatim>\<open>vmm.c\<close> on the map from virtual pages to entries: mapping, the copy
  on write fault, unmapping and protecting ranges, and copying from user memory.
\<close>

subsection \<open>Virtual pages\<close>

definition vpage :: "u64 \<Rightarrow> u64" where
  "vpage va = take_bit 36 (drop_bit 12 va)"

lemma pt_index_bits: "pt_index v s = pt_index w s \<longleftrightarrow> (\<forall>i < 9. bit v (s + i) = bit w (s + i))"
proof -
  have m: "x AND 0x1ff = take_bit 9 (x :: u64)" for x by (simp add: take_bit_eq_mask mask_eq_exp_minus_1)
  have "pt_index v s = pt_index w s \<longleftrightarrow> take_bit 9 (drop_bit s v) = take_bit 9 (drop_bit s w)"
    by (simp add: pt_index_def m word_unat_eq_iff)
  also have "\<dots> \<longleftrightarrow> (\<forall>i < 9. bit v (s + i) = bit w (s + i))"
  proof
    show "\<forall>i < 9. bit v (s + i) = bit w (s + i)" if e: "take_bit 9 (drop_bit s v) = take_bit 9 (drop_bit s w)"
    proof (intro allI impI)
      fix i :: nat assume "i < 9"
      then show "bit v (s + i) = bit w (s + i)"
        using arg_cong[OF e, of "\<lambda>x. bit x i"] by (simp add: bit_take_bit_iff bit_drop_bit_eq)
    qed
  qed (rule bit_word_eqI, simp add: bit_take_bit_iff bit_drop_bit_eq, blast)
  finally show ?thesis .
qed

lemma vpage_bits: "vpage v = vpage w \<longleftrightarrow> (\<forall>j < 36. bit v (12 + j) = bit w (12 + j))"
proof
  show "\<forall>j < 36. bit v (12 + j) = bit w (12 + j)" if e: "vpage v = vpage w"
  proof (intro allI impI)
    fix i :: nat assume "i < 36"
    then show "bit v (12 + i) = bit w (12 + i)"
      using arg_cong[OF e, of "\<lambda>x. bit x i"] by (simp add: vpage_def bit_take_bit_iff bit_drop_bit_eq)
  qed
  show "vpage v = vpage w" if "\<forall>j < 36. bit v (12 + j) = bit w (12 + j)"
    unfolding vpage_def by (rule bit_word_eqI) (use that in \<open>auto simp: bit_take_bit_iff bit_drop_bit_eq\<close>)
qed

lemma agree_vpage: "agree 4 v w \<longleftrightarrow> vpage v = vpage w"
proof -
  have "agree 4 v w \<longleftrightarrow> (\<forall>k < 4. \<forall>i < 9. bit v (39 - 9 * k + i) = bit w (39 - 9 * k + i))"
    by (simp add: agree_def idx_def pt_index_bits)
  also have "\<dots> \<longleftrightarrow> (\<forall>j < 36. bit v (12 + j) = bit w (12 + j))"
  proof (rule iffI; intro allI impI)
    fix j :: nat assume a: "\<forall>k < 4. \<forall>i < 9. bit v (39 - 9 * k + i) = bit w (39 - 9 * k + i)" and j: "j < 36"
    have "39 - 9 * (3 - j div 9) + j mod 9 = 12 + j" using j by presburger
    then show "bit v (12 + j) = bit w (12 + j)" using a[rule_format, of "3 - j div 9" "j mod 9"] by simp
  next
    fix k i :: nat assume a: "\<forall>j < 36. bit v (12 + j) = bit w (12 + j)" and k: "k < 4" "i < 9"
    have "12 + (27 - 9 * k + i) = 39 - 9 * k + i" using k by simp
    then show "bit v (39 - 9 * k + i) = bit w (39 - 9 * k + i)"
      using a[rule_format, of "27 - 9 * k + i"] k by simp
  qed
  also have "\<dots> \<longleftrightarrow> vpage v = vpage w" by (rule vpage_bits[symmetric])
  finally show ?thesis .
qed

subsection \<open>Mapping a page\<close>

definition flags_allow :: "u32 \<Rightarrow> vmm_access \<Rightarrow> bool" where
  "flags_allow flags access =
     (case access of
        VMM_ACCESS_READ \<Rightarrow> True
      | VMM_ACCESS_WRITE \<Rightarrow> flags AND VMM_USER_WRITE \<noteq> 0
      | VMM_ACCESS_EXEC \<Rightarrow> flags AND VMM_USER_EXEC \<noteq> 0)"

lemma leaf_entry_allows: "user_entry_allows (leaf_entry pa flags) access = flags_allow flags access"
  by (cases access) (simp_all add: user_entry_allows_def flags_allow_def leaf_entry_bits)

lemma map_leaf_pte:
  assumes wf: "pt_wf m (root_pa as)" and e: "ensure_l3 as va m = (Some l3, m1)"
    and m': "m' = set_pte (slot_addr l3 (pt_index va 12)) e' m1"
  shows "pt_wf m' (root_pa as)" "pte m' (root_pa as) v = (if vpage v = vpage va then e' else pte m (root_pa as) v)"
proof -
  note g = ensure_l3_grew[OF wf e]
  have wf1: "pt_wf m1 (root_pa as)" and p: "pte m1 (root_pa as) = pte m (root_pa as)"
    using g(1) by (simp_all add: grew_def)
  show "pt_wf m' (root_pa as)" using pt_wf_set_leaf[OF wf1 g(2)] by (simp add: m' idx_levels)
  show "pte m' (root_pa as) v = (if vpage v = vpage va then e' else pte m (root_pa as) v)"
    using pte_set_leaf[OF wf1 g(2)] by (simp add: m' idx_levels agree_vpage p)
qed

lemma map_page_pte:
  assumes wf: "pt_wf m (root_pa as)" and r: "vmm_map_page as va pa flags m = (ok, m')"
  shows "pt_wf m' (root_pa as)"
    "pte m' (root_pa as) v = (if ok \<and> vpage v = vpage va then leaf_entry pa flags else pte m (root_pa as) v)"
proof -
  obtain res m1 where e: "ensure_l3 as va m = (res, m1)" by fastforce
  have g: "grew (root_pa as) m m1" using ensure_l3_grew(1)[OF wf e] .
  have "pt_wf m' (root_pa as) \<and>
     pte m' (root_pa as) v = (if ok \<and> vpage v = vpage va then leaf_entry pa flags else pte m (root_pa as) v)"
  proof (cases res)
    case None
    then show ?thesis using r e g by (simp add: vmm_map_page_def grew_def)
  next
    case (Some l3)
    then have "ok" "m' = set_pte (slot_addr l3 (pt_index va 12)) (leaf_entry pa flags) m1"
      using r e by (auto simp: vmm_map_page_def)
    then show ?thesis using map_leaf_pte[OF wf, of va l3 m1 m' "leaf_entry pa flags"] e Some by simp
  qed
  then show "pt_wf m' (root_pa as)"
    "pte m' (root_pa as) v = (if ok \<and> vpage v = vpage va then leaf_entry pa flags else pte m (root_pa as) v)"
    by simp_all
qed

subsection \<open>Frames of the user\<close>

text \<open>No entry of a user page points to a table of the same address space.\<close>

definition leaves_ok :: "machine \<Rightarrow> u64 \<Rightarrow> bool" where
  "leaves_ok m r \<longleftrightarrow> (\<forall>v. bit (pte m r v) 0 \<longrightarrow> \<not> is_table m r (pte m r v AND PTE_ADDR_MASK))"

lemma free_frame_frame [simp]: "phys (free_frame pa m) = phys m" "get_pte (free_frame pa m) p = get_pte m p"
  by (simp_all add: free_frame_def get_pte_def)

lemma tbl_free_frame [simp]: "tbl (free_frame pa m) r v l = tbl m r v l"
  by (induction l) (simp_all add: Let_def split: option.splits)

lemma pte_free_frame [simp]: "pte (free_frame pa m) r v = pte m r v"
  by (simp add: pte_def split: option.splits)

lemma phys_ok_free: "phys_ok m \<Longrightarrow> phys_ok (free_frame pa m)"
  using pmm_free_page_other[of "mpmm m" pa] pmm_free_page_effect(1,4)[of "mpmm m" pa]
  by (cases "mrefs m pa = 0") (simp_all add: phys_ok_def free_frame_def)

lemma free_refs_other: "phys_ok m \<Longrightarrow> q \<noteq> pa \<Longrightarrow> mrefs (free_frame pa m) q = mrefs m q"
  using pmm_free_page_other[of "mpmm m" pa] pmm_free_page_effect(2)[of "mpmm m" pa]
  by (cases "mrefs m pa = 0") (simp_all add: phys_ok_def free_frame_def)

lemma pt_wf_free:
  assumes "pt_wf m r" "\<not> is_table m r pa"
  shows "pt_wf (free_frame pa m) r"
  using assms(1) phys_ok_free[OF pt_wfD(1)[OF assms(1)], of pa] free_refs_other[OF pt_wfD(1)[OF assms(1)], of _ pa] assms(2)
  unfolding pt_wf_def is_table_def tbl_free_frame by metis

lemma is_table_set_leaf:
  assumes "pt_wf m r" "tbl m r va 3 = Some t"
  shows "is_table (set_pte (slot_addr t (idx va 3)) e m) r p = is_table m r p"
  using tbl_set_pte_above[OF assms(1) _ assms(2)] unfolding is_table_def by (metis order_refl)

subsection \<open>The copy on write fault\<close>

definition cow_copy_entry :: "u64 \<Rightarrow> u64 \<Rightarrow> u64" where
  "cow_copy_entry old n =
     leaf_with_ap ((old AND NOT PTE_ADDR_MASK AND NOT PTE_COW) OR (n AND PTE_ADDR_MASK)) PTE_AP_USER_RW"

definition cow_keep_entry :: "u64 \<Rightarrow> u64" where
  "cow_keep_entry old = leaf_with_ap (old AND NOT PTE_COW) PTE_AP_USER_RW"

definition made_writable :: "u64 \<Rightarrow> u64 \<Rightarrow> bool" where
  "made_writable old new \<longleftrightarrow> bit new 0 = bit old 0 \<and> bit new 6 \<and> \<not> bit new 7 \<and> \<not> bit new 55 \<and> bit new 54 = bit old 54"

lemma cow_entries:
  "made_writable old (cow_copy_entry old n)" "made_writable old (cow_keep_entry old)"
  "cow_copy_entry old n AND PTE_ADDR_MASK = n AND PTE_ADDR_MASK"
  "cow_keep_entry old AND PTE_ADDR_MASK = old AND PTE_ADDR_MASK"
proof -
  show "made_writable old (cow_copy_entry old n)" "made_writable old (cow_keep_entry old)"
    by (simp_all add: made_writable_def cow_copy_entry_def cow_keep_entry_def leaf_with_ap_def bit_or_iff bit_and_iff
        bit_not_iff pte_bits)
  show "cow_copy_entry old n AND PTE_ADDR_MASK = n AND PTE_ADDR_MASK"
    by (rule bit_word_eqI) (auto simp: cow_copy_entry_def leaf_with_ap_def bit_or_iff bit_and_iff bit_not_iff pte_bits)
  show "cow_keep_entry old AND PTE_ADDR_MASK = old AND PTE_ADDR_MASK"
    by (rule bit_word_eqI) (auto simp: cow_keep_entry_def leaf_with_ap_def bit_or_iff bit_and_iff bit_not_iff pte_bits)
qed

lemma set_pte_twice [simp]: "set_pte p e (set_pte p e0 m) = set_pte p e m"
  by (simp add: set_pte_def write64_def fun_eq_iff cong: if_cong)

text \<open>Copying into a fresh frame changes no frame in use.\<close>

lemma copy_fresh:
  assumes ok: "phys_ok m" and z: "pmm_alloc_zero_page m = (m1, n)" "n \<noteq> 0" and P: "mrefs m P \<noteq> 0"
    and m2: "m2 = m1\<lparr>phys := copy_page n P (phys m1)\<rparr>"
  shows "phys_ok m2" "mrefs m2 = (mrefs m)(n := 1)" "mrefs m q \<noteq> 0 \<Longrightarrow> page_eq m m2 q"
    "\<And>k. k < 4096 \<Longrightarrow> phys m2 (n + of_nat k) = phys m (P + of_nat k)"
proof -
  note a = zalloc_some[OF ok z]
  show "phys_ok m2" using a(1) by (simp add: m2 phys_ok_def)
  show "mrefs m2 = (mrefs m)(n := 1)" using a(3) by (simp add: m2)
  have pe: "page_eq m m1 q" if "mrefs m q \<noteq> 0" for q
    using page_eq_zero[OF refs_aligned[OF that] a(5) _ a(4)] that a(2) by auto
  show "page_eq m m2 q" if q: "mrefs m q \<noteq> 0"
  proof -
    have "q \<noteq> n" using q a(2) by auto
    then show ?thesis using pe[OF q] other_page[OF refs_aligned[OF q] a(5)] by (simp add: page_eq_def m2 copy_page_def)
  qed
  fix k :: nat assume k: "k < 4096"
  then have "unat (of_nat k :: u64) = k" by (simp add: unat_of_nat take_bit_nat_eq_self)
  then have "(of_nat k :: u64) < PAGE_SIZE" using k by (simp add: word_less_nat_alt PAGE_SIZE_def)
  then show "phys m2 (n + of_nat k) = phys m (P + of_nat k)"
    using pe[OF P] k by (simp add: m2 copy_page_def page_eq_def)
qed

definition cow_resolved :: "u64 \<Rightarrow> u64 \<Rightarrow> machine \<Rightarrow> machine \<Rightarrow> bool" where
  "cow_resolved r va m m' \<longleftrightarrow>
     (let old = pte m r va; new = pte m' r va; P = old AND PTE_ADDR_MASK; Q = new AND PTE_ADDR_MASK
      in bit old 0 \<and> bit old 55 \<and> made_writable old new \<and>
         (\<forall>v. vpage v \<noteq> vpage va \<longrightarrow> pte m' r v = pte m r v) \<and>
         (\<forall>k < 4096. phys m' (Q + of_nat k) = phys m (P + of_nat k)) \<and>
         (\<forall>q. mrefs m q \<noteq> 0 \<longrightarrow> \<not> is_table m r q \<longrightarrow> page_eq m m' q) \<and>
         (\<forall>q. is_table m' r q = is_table m r q) \<and>
         (if mrefs m P = 1 then Q = P \<and> mrefs m' = mrefs m
          else mrefs m Q = 0 \<and> mrefs m' = (mrefs m)(Q := 1, P := mrefs m P - 1)))"

lemma cow_last_ref:
  assumes wf: "pt_wf m (root_pa as)" and t: "tbl m (root_pa as) va 3 = Some t" and old: "old = pte m (root_pa as) va"
    and c: "bit old 0" "bit old 55" "mrefs m (old AND PTE_ADDR_MASK) = 1" "\<not> is_table m (root_pa as) (old AND PTE_ADDR_MASK)"
  shows "cow_resolved (root_pa as) va m (set_pte (slot_addr t (idx va 3)) (cow_keep_entry old) m)"
proof -
  let ?m' = "set_pte (slot_addr t (idx va 3)) (cow_keep_entry old) m"
  have al: "page_aligned t" using pt_wf_aligned[OF wf _ t] by simp
  have tt: "is_table m (root_pa as) t" using t by (auto simp: is_table_def)
  have pe: "page_eq m ?m' q" if "mrefs m q \<noteq> 0" "\<not> is_table m (root_pa as) q" for q
    by (rule page_eq_set_pte[OF refs_aligned[OF that(1)] al]) (use that(2) tt in auto)
  have p: "pte ?m' (root_pa as) v = (if vpage v = vpage va then cow_keep_entry old else pte m (root_pa as) v)" for v
    using pte_set_leaf[OF wf t] by (simp add: agree_vpage)
  show ?thesis unfolding cow_resolved_def Let_def p
    using c pe is_table_set_leaf[OF wf t] cow_entries(2)[of old] by (simp add: old[symmetric] cow_entries(4) page_eq_def)
qed

lemma cow_copy:
  assumes wf: "pt_wf m (root_pa as)" and t: "tbl m (root_pa as) va 3 = Some t" and old: "old = pte m (root_pa as) va"
    and P: "P = old AND PTE_ADDR_MASK" "bit old 0" "bit old 55" "mrefs m P \<noteq> 0" "mrefs m P \<noteq> 1" "\<not> is_table m (root_pa as) P"
    and z: "pmm_alloc_zero_page m = (m1, n)" "n \<noteq> 0"
    and m': "m' = free_frame P (set_pte (slot_addr t (idx va 3)) (cow_copy_entry old n) (m1\<lparr>phys := copy_page n P (phys m1)\<rparr>))"
  shows "pt_wf m' (root_pa as) \<and> cow_resolved (root_pa as) va m m'"
proof -
  let ?r = "root_pa as"
  define m2 where "m2 = m1\<lparr>phys := copy_page n P (phys m1)\<rparr>"
  define m3 where "m3 = set_pte (slot_addr t (idx va 3)) (cow_copy_entry old n) m2"
  note ok = pt_wfD(1)[OF wf]
  note c = copy_fresh[OF ok z P(4) m2_def] and a = zalloc_some[OF ok z]
  have tb: "mrefs m q \<noteq> 0" if "l \<le> 3" "tbl m ?r v l = Some q" for l v q using pt_wfD(2)[OF wf that] .
  have teq: "tbl m2 ?r v l = tbl m ?r v l" if "l \<le> 3" for v l
    by (rule tbl_page_eq) (use c(3) tb that less_imp_le le_trans in blast)
  have peq: "pte m2 ?r v = pte m ?r v" for v by (rule pte_page_eq) (use c(3) tb in blast)
  have wf2: "pt_wf m2 ?r" by (rule pt_wf_same_tbl[OF wf teq c(1)]) (use c(2) in auto)
  have t2: "tbl m2 ?r va 3 = Some t" using teq t by simp
  have wf3: "pt_wf m3 ?r" using pt_wf_set_leaf[OF wf2 t2] by (simp add: m3_def)
  have tab: "is_table m3 ?r q = is_table m ?r q" for q
    using is_table_set_leaf[OF wf2 t2] teq unfolding m3_def is_table_def by metis
  have tt: "is_table m ?r t" using t by (auto simp: is_table_def)
  have n0: "n \<noteq> t" using tb[OF _ t] a(2) by auto
  have al: "page_aligned t" using pt_wf_aligned[OF wf _ t] by simp
  have fin: "m' = free_frame P m3" by (simp add: m' m3_def m2_def)
  have p: "pte m' ?r v = (if vpage v = vpage va then cow_copy_entry old n else pte m ?r v)" for v
    using pte_set_leaf[OF wf2 t2] by (simp add: fin m3_def agree_vpage peq)
  have tab': "is_table m' ?r q = is_table m ?r q" for q using tab by (simp add: fin is_table_def)
  have q: "cow_copy_entry old n AND PTE_ADDR_MASK = n" using a(6) cow_entries(3) by simp
  have rf: "mrefs m' = (mrefs m)(n := 1, P := mrefs m P - 1)"
    using pool.free_refs[of m3 P] wf3 c(2) P(4) a(2) by (auto simp: fin m3_def pt_wf_def phys_ok_def)
  have pn: "page_eq m2 m3 n" unfolding m3_def by (rule page_eq_set_pte[OF a(5) al n0]) simp
  have pq: "page_eq m m' u" if "mrefs m u \<noteq> 0" "\<not> is_table m ?r u" for u
  proof -
    have "page_eq m2 m3 u" unfolding m3_def
      by (rule page_eq_set_pte[OF refs_aligned[OF that(1)] al]) (use that(2) tt in auto)
    then show ?thesis using c(3)[OF that(1)] by (simp add: page_eq_def fin)
  qed
  have "pt_wf m' ?r" using pt_wf_free[OF wf3] P(6) tab by (simp add: fin)
  moreover have "cow_resolved ?r va m m'"
    unfolding cow_resolved_def Let_def p
    using P pq pn c(4) rf a(2) tab' cow_entries(1) by (simp add: old[symmetric] q page_eq_def fin)
  ultimately show ?thesis ..
qed

lemma cow_fault_failed:
  assumes wf: "pt_wf m (root_pa as)" and f: "vmm_handle_cow_fault as va m = (False, m')"
  shows "pt_wf m' (root_pa as) \<and> mrefs m' = mrefs m \<and> phys m' = phys m"
proof -
  obtain m1 n where z: "pmm_alloc_zero_page m = (m1, n)" by fastforce
  have "m' = m \<or> n = 0 \<and> m' = m1"
    using f z by (auto simp: vmm_handle_cow_fault_def Let_def split: option.splits if_splits)
  then show ?thesis
    using wf zalloc_none[OF pt_wfD(1)[OF wf]] grew_zalloc_none[OF wf] z by (auto simp: grew_def)
qed

lemma cow_fault_resolved:
  assumes wf: "pt_wf m (root_pa as)" and f: "vmm_handle_cow_fault as va m = (True, m')"
    and P: "P = pte m (root_pa as) va AND PTE_ADDR_MASK" "mrefs m P \<noteq> 0" "\<not> is_table m (root_pa as) P"
  shows "pt_wf m' (root_pa as) \<and> cow_resolved (root_pa as) va m m'"
proof -
  obtain t where t: "tbl m (root_pa as) va 3 = Some t"
    using f by (cases "tbl m (root_pa as) va 3") (simp_all add: vmm_handle_cow_fault_def leaf_for_va_tbl)
  define old where "old = pte m (root_pa as) va"
  have g: "get_pte m (slot_addr t (idx va 3)) = old" by (simp add: old_def pte_def t)
  have v: "bit old 0" "bit old 55"
    using f by (auto simp: vmm_handle_cow_fault_def leaf_for_va_tbl t g Let_def split: if_splits)
  obtain m1 n where z: "pmm_alloc_zero_page m = (m1, n)" by fastforce
  have P': "P = old AND PTE_ADDR_MASK" by (simp add: P old_def)
  show ?thesis
  proof (cases "mrefs m P = 1")
    case True
    then have "m' = set_pte (slot_addr t (idx va 3)) (cow_keep_entry old) m"
      using f v by (simp add: vmm_handle_cow_fault_def leaf_for_va_tbl t g Let_def pmm_is_last_ref_def P'[symmetric] cow_keep_entry_def)
    then show ?thesis
      using cow_last_ref[OF wf t old_def v] True P(3) pt_wf_set_leaf[OF wf t] by (simp add: P')
  next
    case False
    then have "n \<noteq> 0 \<and> m' = free_frame P (set_pte (slot_addr t (idx va 3)) (cow_copy_entry old n)
        (m1\<lparr>phys := copy_page n P (phys m1)\<rparr>))"
      using f v z by (auto simp: vmm_handle_cow_fault_def leaf_for_va_tbl t g Let_def pmm_is_last_ref_def P'[symmetric]
          cow_copy_entry_def split: if_splits)
    then show ?thesis using cow_copy[OF wf t old_def P' v P(2) False P(3) z] by blast
  qed
qed

end
