(* ===== verification/Vmm_Range.thy ===== *)
theory Vmm_Range
  imports Vmm_Ops
begin

text \<open>
  The loops over a range of addresses: the pages they visit, when they return, and that they are
  then a fold over those pages.
\<close>

subsection \<open>Loops over a range\<close>

definition range_pages :: "u64 \<Rightarrow> u64 \<Rightarrow> u64 list" where
  "range_pages start end =
     map (\<lambda>i. start + of_nat i * PAGE_SIZE) [0..<div_round_up (unat end - unat start) 4096]"

lemma range_pages_step:
  assumes "va < end" "end \<le> 18446744073709547520"
  shows "range_pages va end = va # range_pages (va + PAGE_SIZE) end" "unat (va + PAGE_SIZE) = unat va + 4096"
proof -
  have lt: "unat va < unat end" using assms(1) by (simp add: word_less_nat_alt)
  have le: "unat end \<le> 18446744073709547520" using assms(2) by (simp add: word_le_nat_alt)
  show u: "unat (va + PAGE_SIZE) = unat va + 4096"
    using lt le by (simp add: unat_plus_if_size word_size PAGE_SIZE_def)
  define n where "n = unat end - unat va"
  have n0: "0 < n" using lt by (simp add: n_def)
  have "div_round_up n 4096 = Suc (div_round_up (n - 4096) 4096)"
  proof (cases "n \<le> 4096")
    case True
    then have "(n + 4095) div 4096 = 1" using n0 by (intro div_nat_eqI) simp_all
    then show ?thesis using True by (simp add: div_round_up_def)
  next
    case False
    then obtain k where "n = k + 4096" by (metis le_add_diff_inverse2 nat_le_linear)
    then show ?thesis by (simp add: div_round_up_def)
  qed
  moreover have "unat end - unat (va + PAGE_SIZE) = n - 4096" by (simp add: u n_def)
  ultimately show "range_pages va end = va # range_pages (va + PAGE_SIZE) end"
    unfolding range_pages_def n_def[symmetric]
    by (simp add: upt_conv_Cons map_Suc_upt[symmetric] comp_def algebra_simps del: upt_Suc)
qed

lemma range_loop_fold:
  assumes "end \<le> 18446744073709547520"
  shows "range_loop f va end s = Some (fold f (range_pages va end) s)"
proof (induction "unat end - unat va" arbitrary: va s rule: less_induct)
  case less
  show ?case
  proof (cases "va < end")
    case True
    note st = range_pages_step[OF True assms]
    have "unat end - unat (va + PAGE_SIZE) < unat end - unat va"
      using True st(2) by (simp add: word_less_nat_alt)
    then have "range_loop f (va + PAGE_SIZE) end (f va s) = Some (fold f (range_pages (va + PAGE_SIZE) end) (f va s))"
      by (rule less)
    then show ?thesis using True st(1) by (subst range_loop.simps) simp
  next
    case False
    then have "unat end - unat va = 0" by (simp add: word_less_nat_alt)
    then show ?thesis using False by (subst range_loop.simps) (simp add: range_pages_def div_round_up_def)
  qed
qed

lemma page_aligned_add: "page_aligned va \<Longrightarrow> page_aligned (va + PAGE_SIZE)"
proof -
  assume "page_aligned va"
  moreover have "unat (va + PAGE_SIZE) mod 4096 = (unat va + 4096) mod 4096"
    by (simp add: unat_word_ariths PAGE_SIZE_def mod_mod_cancel)
  ultimately show ?thesis by (simp add: page_aligned_def)
qed

text \<open>From an aligned start towards an end in the last page of the address space it never returns.\<close>

lemma range_loop_diverges:
  assumes "18446744073709547520 < end" "page_aligned va" "va < end"
  shows "range_loop f va end s = None"
proof (cases "range_loop f va end s")
  case (Some y)
  have "18446744073709547520 < end \<longrightarrow> page_aligned va \<longrightarrow> \<not> va < end"
  proof (rule range_loop.raw_induct[OF _ Some, where P = "\<lambda>_ va end _ _.
      18446744073709547520 < end \<longrightarrow> page_aligned va \<longrightarrow> \<not> va < end"], intro impI notI)
    fix rl :: "(u64 \<Rightarrow> 'a \<Rightarrow> 'a) \<Rightarrow> u64 \<Rightarrow> u64 \<Rightarrow> 'a \<Rightarrow> 'a option" and f va "end" s y
    assume IH: "\<And>f va end s y. rl f va end s = Some y \<Longrightarrow>
        18446744073709547520 < end \<longrightarrow> page_aligned va \<longrightarrow> \<not> va < end"
      and st: "(if va < end then rl f (va + PAGE_SIZE) end (f va s) else Some s) = Some y"
      and hi: "18446744073709547520 < end" and al: "page_aligned va" and lt: "va < end"
    have "rl f (va + PAGE_SIZE) end (f va s) = Some y" using st lt by simp
    then have a: "\<not> va + PAGE_SIZE < end" using IH hi page_aligned_add[OF al] by blast
    obtain q where q: "unat (va + PAGE_SIZE) = 4096 * q" using page_aligned_add[OF al] by (auto simp: page_aligned_def)
    have "18446744073709547520 < unat (va + PAGE_SIZE)" using a hi by (simp add: word_less_nat_alt not_less)
    then have "4503599627370495 < q" using q by linarith
    moreover have "q < 4503599627370496" using unat_lt_64[of "va + PAGE_SIZE"] q by simp
    ultimately show False by linarith
  qed
  then show ?thesis using assms by blast
qed

lemma range_loop_returns:
  assumes "page_aligned start"
  shows "range_loop f start end s \<noteq> None \<longleftrightarrow> end \<le> start \<or> end \<le> 0xfffffffffffff000"
proof (cases "end \<le> 0xfffffffffffff000")
  case True
  then show ?thesis using range_loop_fold[of "end" f start s] by simp
next
  case False
  then show ?thesis
    using range_loop_diverges[OF _ assms, of "end" f s] by (cases "start < end") (auto simp: range_loop.simps)
qed

lemma range_loop_rel:
  assumes "range_loop f va end s = Some s'"
    and "\<And>s. P s s" and "\<And>a b c. P a b \<Longrightarrow> P b c \<Longrightarrow> P a c" and "\<And>p s. P s (f p s)"
  shows "P s s'"
proof -
  have "f = f \<longrightarrow> P s s'"
  proof (rule range_loop.raw_induct[OF _ assms(1), where P = "\<lambda>g _ _ s s'. g = f \<longrightarrow> P s s'"], intro impI)
    fix rl g va "end" s y
    assume IH: "\<And>g va end s y. rl g va end s = Some y \<Longrightarrow> g = f \<longrightarrow> P s y"
      and st: "(if va < end then rl g (va + PAGE_SIZE) end (g va s) else Some s) = Some y" and g: "g = f"
    show "P s y"
    proof (cases "va < end")
      case True
      then have "P (g va s) y" using IH[of g "va + PAGE_SIZE" "end" "g va s" y] st g by simp
      then show ?thesis using assms(3,4) g by blast
    qed (use st assms(2) in simp)
  qed
  then show ?thesis by simp
qed

end
