(* ===== verification/Vmm_Properties.thy ===== *)
theory Vmm_Properties
  imports Vmm_Range
begin

text \<open>
  Translation within a page and copies from user memory, and with them the properties of the
  page table operations.
\<close>

subsection \<open>Unmapping and protecting a page\<close>

lemma leaves_ok_set_leaf:
  assumes "pt_wf m r" "tbl m r va 3 = Some t" "leaves_ok m r" "\<not> bit e 0"
  shows "leaves_ok (set_pte (slot_addr t (idx va 3)) e m) r"
  using assms(3,4) by (auto simp: leaves_ok_def pte_set_leaf[OF assms(1,2)] is_table_set_leaf[OF assms(1,2)])

lemma leaves_ok_free [simp]: "leaves_ok (free_frame pa m) r = leaves_ok m r"
  by (simp add: leaves_ok_def is_table_def)

lemma unmap_one_pte:
  assumes wf: "pt_wf m (root_pa as)" and lo: "leaves_ok m (root_pa as)"
  shows "pt_wf (unmap_one as va m) (root_pa as)" "leaves_ok (unmap_one as va m) (root_pa as)"
    "vpage v \<noteq> vpage va \<Longrightarrow> pte (unmap_one as va m) (root_pa as) v = pte m (root_pa as) v"
    "vpage v = vpage va \<Longrightarrow> \<not> bit (pte (unmap_one as va m) (root_pa as) v) 0"
proof -
  let ?r = "root_pa as"
  have "pt_wf (unmap_one as va m) ?r \<and> leaves_ok (unmap_one as va m) ?r \<and>
    (vpage v \<noteq> vpage va \<longrightarrow> pte (unmap_one as va m) ?r v = pte m ?r v) \<and>
    (vpage v = vpage va \<longrightarrow> \<not> bit (pte (unmap_one as va m) ?r v) 0)"
  proof (cases "bit (pte m ?r va) 0")
    case True
    then obtain t where t: "tbl m ?r va 3 = Some t" by (auto simp: pte_def split: option.splits)
    have g: "get_pte m (slot_addr t (idx va 3)) = pte m ?r va" by (simp add: pte_def t)
    have u: "unmap_one as va m = free_frame (pte m ?r va AND PTE_ADDR_MASK) (set_pte (slot_addr t (idx va 3)) 0 m)"
      using True by (simp add: unmap_one_def leaf_for_va_tbl t g)
    have "\<not> is_table m ?r (pte m ?r va AND PTE_ADDR_MASK)" using lo True by (auto simp: leaves_ok_def)
    then show ?thesis
      using pt_wf_free[OF pt_wf_set_leaf[OF wf t]] leaves_ok_set_leaf[OF wf t lo] pte_set_leaf[OF wf t]
      by (simp add: u is_table_set_leaf[OF wf t] agree_vpage)
  next
    case False
    then have "unmap_one as va m = m"
      by (auto simp: unmap_one_def leaf_for_va_tbl pte_def split: option.splits)
    moreover have "pte m ?r v = pte m ?r va" if "vpage v = vpage va"
    by (rule pte_agree) (simp add: agree_vpage that)
    ultimately show ?thesis using wf lo False by simp
  qed
  then show "pt_wf (unmap_one as va m) ?r" "leaves_ok (unmap_one as va m) ?r"
    "vpage v \<noteq> vpage va \<Longrightarrow> pte (unmap_one as va m) ?r v = pte m ?r v"
    "vpage v = vpage va \<Longrightarrow> \<not> bit (pte (unmap_one as va m) ?r v) 0"
    by blast+
qed

lemma unmap_pages_pte:
  assumes "pt_wf m (root_pa as)" "leaves_ok m (root_pa as)"
  shows "pt_wf (fold (unmap_one as) ps m) (root_pa as) \<and> leaves_ok (fold (unmap_one as) ps m) (root_pa as) \<and>
    (vpage v \<notin> vpage ` set ps \<longrightarrow> pte (fold (unmap_one as) ps m) (root_pa as) v = pte m (root_pa as) v) \<and>
    (vpage v \<in> vpage ` set ps \<or> \<not> bit (pte m (root_pa as) v) 0 \<longrightarrow> \<not> bit (pte (fold (unmap_one as) ps m) (root_pa as) v) 0)"
  using assms
proof (induction ps arbitrary: m)
  case (Cons p ps)
  note u = unmap_one_pte[OF Cons.prems, where va = p]
  show ?case using Cons.IH[OF u(1,2)] u(3,4)[where v = v] by (cases "vpage v = vpage p") auto
qed auto

lemma protect_one_pte:
  assumes wf: "pt_wf m (root_pa as)"
  shows "pt_wf (protect_one as flags va m) (root_pa as)" "mpmm (protect_one as flags va m) = mpmm m"
    "pte (protect_one as flags va m) (root_pa as) v =
       (if vpage v = vpage va \<and> bit (pte m (root_pa as) v) 0 then protect_entry flags (pte m (root_pa as) v) else pte m (root_pa as) v)"
proof -
  let ?r = "root_pa as"
  have same: "pte m ?r v = pte m ?r va" if "vpage v = vpage va"
    by (rule pte_agree) (simp add: agree_vpage that)
  have "pt_wf (protect_one as flags va m) ?r \<and> mpmm (protect_one as flags va m) = mpmm m \<and>
    pte (protect_one as flags va m) ?r v =
       (if vpage v = vpage va \<and> bit (pte m ?r v) 0 then protect_entry flags (pte m ?r v) else pte m ?r v)"
  proof (cases "bit (pte m ?r va) 0")
    case True
    then obtain t where t: "tbl m ?r va 3 = Some t" by (auto simp: pte_def split: option.splits)
    have g: "get_pte m (slot_addr t (idx va 3)) = pte m ?r va" by (simp add: pte_def t)
    have u: "protect_one as flags va m = set_pte (slot_addr t (idx va 3)) (protect_entry flags (pte m ?r va)) m"
      using True by (simp add: protect_one_def leaf_for_va_tbl t g)
    then show ?thesis using pt_wf_set_leaf[OF wf t] pte_set_leaf[OF wf t] same True by (simp add: agree_vpage)
  next
    case False
    then have "protect_one as flags va m = m"
      by (auto simp: protect_one_def leaf_for_va_tbl pte_def split: option.splits)
    then show ?thesis using wf False same by auto
  qed
  then show "pt_wf (protect_one as flags va m) ?r" "mpmm (protect_one as flags va m) = mpmm m"
    "pte (protect_one as flags va m) ?r v =
       (if vpage v = vpage va \<and> bit (pte m ?r v) 0 then protect_entry flags (pte m ?r v) else pte m ?r v)"
    by blast+
qed

lemma protect_entry_bits:
  "bit (protect_entry flags e) 0 = bit e 0" "bit (protect_entry flags e) 55 = bit e 55"
  "protect_entry flags e AND PTE_ADDR_MASK = e AND PTE_ADDR_MASK"
  "bit (protect_entry flags e) 6" "bit (protect_entry flags e) 7 \<longleftrightarrow> flags AND VMM_USER_WRITE = 0"
  "bit (protect_entry flags e) 54 \<longleftrightarrow> flags AND VMM_USER_EXEC = 0"
proof -
  show "protect_entry flags e AND PTE_ADDR_MASK = e AND PTE_ADDR_MASK"
    by (rule bit_word_eqI)
      (auto simp: protect_entry_def leaf_with_ap_def ap_of_flags_def Let_def bit_or_iff bit_and_iff bit_not_iff pte_bits)
qed (auto simp: protect_entry_def leaf_with_ap_def ap_of_flags_def Let_def bit_or_iff bit_and_iff bit_not_iff pte_bits)

lemma protect_entry_idem: "protect_entry flags (protect_entry flags e) = protect_entry flags e"
  by (rule bit_word_eqI)
    (auto simp: protect_entry_def leaf_with_ap_def ap_of_flags_def Let_def bit_or_iff bit_and_iff bit_not_iff pte_bits)

lemma protect_pages_pte:
  assumes "pt_wf m (root_pa as)"
  shows "pt_wf (fold (protect_one as flags) ps m) (root_pa as) \<and> mpmm (fold (protect_one as flags) ps m) = mpmm m \<and>
    pte (fold (protect_one as flags) ps m) (root_pa as) v =
      (if vpage v \<in> vpage ` set ps \<and> bit (pte m (root_pa as) v) 0 then protect_entry flags (pte m (root_pa as) v)
       else pte m (root_pa as) v)"
  using assms
proof (induction ps arbitrary: m)
  case (Cons p ps)
  note u = protect_one_pte[OF Cons.prems, where flags = flags and va = p]
  show ?case using Cons.IH[OF u(1)] u(2,3)
    by (cases "vpage v = vpage p"; cases "bit (pte m (root_pa as) v) 0") (auto simp: protect_entry_bits protect_entry_idem)
qed simp

subsection \<open>Addresses of a range\<close>

lemma unat_vpage: "unat v < 281474976710656 \<Longrightarrow> unat (vpage v) = unat v div 4096"
proof -
  assume "unat v < 281474976710656"
  then have "unat v div 4096 < 2 ^ 36" by (simp add: div_less_iff_less_mult)
  then show ?thesis
    by (simp add: vpage_def unsigned_take_bit_eq drop_bit_eq_div unat_div take_bit_nat_eq_self)
qed

lemma range_pages_vpage:
  assumes "page_aligned start" "page_aligned end" "unat end \<le> 281474976710656" "unat v < 281474976710656"
  shows "vpage v \<in> vpage ` set (range_pages start end) \<longleftrightarrow> start \<le> v \<and> v < end"
proof -
  define a b where "a = unat start div 4096" and "b = unat end div 4096"
  have a: "unat start = 4096 * a" and b: "unat end = 4096 * b"
    using assms(1,2) by (auto simp: page_aligned_def a_def b_def)
  have n: "div_round_up (unat end - unat start) 4096 = b - a"
    by (simp add: div_round_up_def a b flip: diff_mult_distrib2)
  have bb: "b \<le> 68719476736" using assms(3) b by simp
  have pg: "unat (start + of_nat i * PAGE_SIZE) = 4096 * (a + i)" "unat (start + of_nat i * PAGE_SIZE) < 281474976710656"
    if "i < b - a" for i
  proof -
    have "unat (of_nat i * PAGE_SIZE) = 4096 * i"
      using that bb by (simp add: unat_word_ariths PAGE_SIZE_def unat_of_nat take_bit_nat_eq_self)
    moreover have "4096 * a + 4096 * i < 18446744073709551616" using that bb by linarith
    ultimately show "unat (start + of_nat i * PAGE_SIZE) = 4096 * (a + i)"
      using a by (simp add: unat_plus_if_size word_size)
    then show "unat (start + of_nat i * PAGE_SIZE) < 281474976710656" using that bb by simp
  qed
  have "vpage v \<in> vpage ` set (range_pages start end) \<longleftrightarrow> (\<exists>i < b - a. vpage v = vpage (start + of_nat i * PAGE_SIZE))"
    by (auto simp: range_pages_def n)
  also have "\<dots> \<longleftrightarrow> (\<exists>i < b - a. unat v div 4096 = a + i)"
    using pg assms(4) by (auto simp: word_unat_eq_iff unat_vpage)
  also have "\<dots> \<longleftrightarrow> a \<le> unat v div 4096 \<and> unat v div 4096 < b"
  proof
    assume h: "a \<le> unat v div 4096 \<and> unat v div 4096 < b"
    then show "\<exists>i < b - a. unat v div 4096 = a + i" by (intro exI[of _ "unat v div 4096 - a"]) auto
  qed auto
  also have "\<dots> \<longleftrightarrow> start \<le> v \<and> v < end"
    by (simp add: word_le_nat_alt word_less_nat_alt a b less_eq_div_iff_mult_less_eq div_less_iff_less_mult mult.commute)
  finally show ?thesis .
qed

subsection \<open>Translation within a page\<close>

lemma page_low_bits: "page_aligned t \<Longrightarrow> n < 12 \<Longrightarrow> \<not> bit t n"
proof -
  assume "page_aligned t" "n < 12"
  then have "take_bit 12 (unat t) = 0" by (simp add: page_aligned_def take_bit_eq_mod)
  then have "take_bit 12 t = 0" by (simp add: word_unat_eq_iff unsigned_take_bit_eq)
  then show ?thesis using \<open>n < 12\<close> bit_take_bit_iff[of 12 t n] by simp
qed

lemma small_bits: "k < 4096 \<Longrightarrow> bit (of_nat k :: u64) n \<Longrightarrow> n < 12"
proof -
  assume "k < 4096" and b: "bit (of_nat k :: u64) n"
  then have "take_bit 12 (of_nat k :: u64) = of_nat k" by (simp add: word_unat_eq_iff unsigned_take_bit_eq unat_of_nat take_bit_nat_eq_self)
  then show ?thesis using b by (metis bit_take_bit_iff)
qed

lemma page_plus:
  assumes "page_aligned t" "k < 4096"
  shows "t + of_nat k = t OR of_nat k" "vpage (t + of_nat k) = vpage t" "(t + of_nat k) AND 0xfff = of_nat k"
proof -
  show e: "t + of_nat k = t OR of_nat k"
    by (rule disjunctive_add) (use page_low_bits[OF assms(1)] small_bits[OF assms(2)] in blast)
  show "vpage (t + of_nat k) = vpage t"
    unfolding vpage_bits e using small_bits[OF assms(2)] by (auto simp: bit_or_iff)
  have "(t OR of_nat k) AND mask 12 = of_nat k"
    by (rule bit_word_eqI) (use page_low_bits[OF assms(1)] small_bits[OF assms(2)] in \<open>auto simp: bit_or_iff bit_and_iff bit_mask_iff\<close>)
  then show "(t + of_nat k) AND 0xfff = of_nat k" unfolding e by (simp add: mask_eq_exp_minus_1)
qed

lemma masked_aligned: "page_aligned (e AND PTE_ADDR_MASK)"
proof -
  have "take_bit 12 (e AND PTE_ADDR_MASK) = 0"
    by (rule bit_word_eqI) (simp add: bit_take_bit_iff bit_and_iff pte_bits)
  then have "unat (take_bit 12 (e AND PTE_ADDR_MASK)) = 0" by simp
  then show ?thesis by (simp add: page_aligned_def take_bit_eq_mod unat_mod)
qed

lemma translate_offset:
  assumes "page_aligned t" "k < 4096" "user_to_phys_checked as t access m \<noteq> 0"
  shows "user_to_phys_checked as (t + of_nat k) access m = user_to_phys_checked as t access m + of_nat k"
    "user_to_phys_checked as (t + of_nat k) access m \<noteq> 0"
proof -
  let ?e = "pte m (root_pa as) t"
  have s: "pte m (root_pa as) (t + of_nat k) = ?e" by (rule pte_agree) (simp add: agree_vpage page_plus(2)[OF assms(1,2)])
  have z: "t AND 0xfff = 0" using page_plus(3)[OF assms(1), of 0] by simp
  have a: "bit ?e 0 \<and> user_entry_allows ?e access"
    using assms(3) by (auto simp: user_to_phys_pte Let_def split: if_splits)
  have f: "user_to_phys_checked as t access m = ?e AND PTE_ADDR_MASK" using a z by (simp add: user_to_phys_pte Let_def)
  show eq: "user_to_phys_checked as (t + of_nat k) access m = user_to_phys_checked as t access m + of_nat k"
    unfolding f using a page_plus(3)[OF assms(1,2)] page_plus(1)[OF masked_aligned assms(2)] s
    by (simp add: user_to_phys_pte Let_def)
  show "user_to_phys_checked as (t + of_nat k) access m \<noteq> 0"
    unfolding eq using assms(3) unat_page_add[OF _ assms(2), of "?e AND PTE_ADDR_MASK"] masked_aligned
    by (simp add: f unat_eq_0[symmetric] del: unat_eq_0)
qed

subsection \<open>Copying from user memory\<close>

lemma page_base_split:
  "page_aligned (page_base va)" "va = page_base va + of_nat (unat va mod 4096)"
  "unat (page_base va) = 4096 * (unat va div 4096)" "page_room va = 4096 - unat va mod 4096"
proof -
  have b: "page_base va = align_down va PAGE_SIZE" by (simp add: page_base_def align_down_def)
  show u: "unat (page_base va) = 4096 * (unat va div 4096)"
    unfolding b by (simp add: unat_align_down_page)
  then show "page_aligned (page_base va)" by (simp add: page_aligned_def)
  then have "unat (page_base va + of_nat (unat va mod 4096)) = unat va"
    using unat_page_add[of "page_base va" "unat va mod 4096"] u by simp
  then show "va = page_base va + of_nat (unat va mod 4096)" by (simp add: word_unat_eq_iff)
  have "va AND (PAGE_SIZE - 1) = take_bit 12 va" by (simp add: PAGE_SIZE_def take_bit_eq_mask mask_eq_exp_minus_1)
  then show "page_room va = 4096 - unat va mod 4096"
    by (simp add: page_room_def unat_mod take_bit_eq_mod)
qed

lemma translate_room:
  assumes "j < page_room va" "user_to_phys_checked as (page_base va) access m \<noteq> 0"
  shows "user_to_phys_checked as (va + of_nat j) access m = user_to_phys_checked as va access m + of_nat j"
    "user_to_phys_checked as va access m \<noteq> 0"
proof -
  let ?o = "unat va mod 4096"
  have j: "?o + j < 4096" using assms(1) by (simp add: page_base_split(4))
  have e: "va + of_nat j = page_base va + of_nat (?o + j)" using page_base_split(2)[of va] by (simp add: add.assoc)
  have o: "?o < 4096" by simp
  show "user_to_phys_checked as va access m \<noteq> 0"
    using translate_offset(2)[OF page_base_split(1) o assms(2)] page_base_split(2)[of va] by simp
  show "user_to_phys_checked as (va + of_nat j) access m = user_to_phys_checked as va access m + of_nat j"
    unfolding e translate_offset(1)[OF page_base_split(1) j assms(2)]
    using translate_offset(1)[OF page_base_split(1) o assms(2)] page_base_split(2)[of va] by (simp add: add.assoc)
qed

lemma copy_in_bytes:
  assumes "\<forall>i < len. user_to_phys_checked as (page_base (va + of_nat i)) VMM_ACCESS_READ m \<noteq> 0"
  shows "copy_in as va len m =
    Some (map (\<lambda>i. phys m (user_to_phys_checked as (va + of_nat i) VMM_ACCESS_READ m)) [0..<len])"
  using assms
proof (induction len arbitrary: va rule: less_induct)
  case (less len)
  show ?case
  proof (cases "len = 0")
    case True
    then show ?thesis by (simp add: copy_in.simps)
  next
    case False
    define chunk where "chunk = min (page_room va) len"
    have c: "0 < chunk" "chunk \<le> len" "chunk \<le> page_room va" using False by (simp_all add: chunk_def)
    have ok: "user_to_phys_checked as (page_base va) VMM_ACCESS_READ m \<noteq> 0" using less.prems[rule_format, of 0] False by simp
    have now: "read_bytes (phys m) (user_to_phys_checked as va VMM_ACCESS_READ m) chunk =
        map (\<lambda>i. phys m (user_to_phys_checked as (va + of_nat i) VMM_ACCESS_READ m)) [0..<chunk]"
      using translate_room(1)[OF _ ok] c(3) by (simp add: read_bytes_def)
    have "copy_in as (va + of_nat chunk) (len - chunk) m =
        Some (map (\<lambda>i. phys m (user_to_phys_checked as (va + of_nat chunk + of_nat i) VMM_ACCESS_READ m)) [0..<len - chunk])"
    proof (rule less.IH)
      show "\<forall>i<len - chunk. user_to_phys_checked as (page_base (va + of_nat chunk + of_nat i)) VMM_ACCESS_READ m \<noteq> 0"
      proof (intro allI impI)
        fix i assume "i < len - chunk"
        then show "user_to_phys_checked as (page_base (va + of_nat chunk + of_nat i)) VMM_ACCESS_READ m \<noteq> 0"
          using less.prems[rule_format, of "chunk + i"] by (simp add: add.assoc)
      qed
    qed (use c in simp)
    moreover have "[0..<len] = [0..<chunk] @ map (\<lambda>i. chunk + i) [0..<len - chunk]"
      using upt_add_eq_append[of 0 chunk "len - chunk"] c(2) by (simp add: map_add_upt add.commute)
    ultimately show ?thesis
      using False translate_room(2)[OF _ ok, of 0]
      by (subst copy_in.simps) (simp add: chunk_def[symmetric] Let_def now comp_def add.assoc)
  qed
qed

lemma pages_between_bytes:
  assumes len: "0 < len" "unat src + len \<le> 18446744073709551616" and e: "end = src + of_nat (len - 1)"
  shows "set (pages_between (page_base src) (page_base end)) = (\<lambda>i. page_base (src + of_nat i)) ` {..<len}"
proof -
  define a b where "a = unat src div 4096" and "b = (unat src + (len - 1)) div 4096"
  have un: "unat (src + of_nat i) = unat src + i" if "i < len" for i
    using that len by (simp add: unat_plus_if_size word_size unat_of_nat take_bit_nat_eq_self)
  have ab: "a \<le> b" by (simp add: a_def b_def div_le_mono)
  have bb: "b < 4503599627370496"
    using len unfolding b_def by (intro less_mult_imp_div_less) simp
  have pe: "unat (page_base end) = 4096 * b" "unat (page_base src) = 4096 * a"
    using un[of "len - 1"] len(1) by (simp_all add: e page_base_split(3) a_def b_def)
  have d: "unat ((page_base end - page_base src) div PAGE_SIZE) = b - a"
    using pe ab by (simp add: unat_div unat_sub_if_size PAGE_SIZE_def flip: diff_mult_distrib2)
  have pg: "unat (page_base src + of_nat i * PAGE_SIZE) = 4096 * (a + i)" if "i \<le> b - a" for i
  proof -
    have i: "a + i < 4503599627370496" using that ab bb by linarith
    then have "unat (of_nat i * PAGE_SIZE :: u64) = 4096 * i"
      by (simp add: unat_word_ariths PAGE_SIZE_def unat_of_nat take_bit_nat_eq_self)
    then show ?thesis using i pe(2) by (simp add: unat_plus_if_size word_size)
  qed
  have bs: "unat (page_base (src + of_nat i)) = 4096 * ((unat src + i) div 4096)" if "i < len" for i
    using un[OF that] by (simp add: page_base_split(3))
  have S: "set (pages_between (page_base src) (page_base end)) = (\<lambda>i. page_base src + of_nat i * PAGE_SIZE) ` {..b - a}"
    by (simp add: pages_between_def d atLeast0LessThan lessThan_Suc_atMost del: upt_Suc)
  show ?thesis unfolding S
  proof (intro set_eqI iffI)
    fix p assume "p \<in> (\<lambda>i. page_base src + of_nat i * PAGE_SIZE) ` {..b - a}"
    then obtain i where i: "i \<le> b - a" "p = page_base src + of_nat i * PAGE_SIZE" by blast
    define j where "j = 4096 * (a + i) - unat src"
    have le: "a + i \<le> b" using i(1) ab by simp
    have "4096 * (a + i) \<le> unat src + (len - 1)" using le unfolding b_def by (metis div_times_less_eq_dividend le_trans mult.commute mult_le_mono2)
    then have j: "j < len" using len(1) by (simp add: j_def)
    have "(unat src + j) div 4096 = a + i"
    proof (cases "i = 0")
      case True
      then have "j = 0" by (simp add: j_def a_def)
      then show ?thesis using True by (simp add: a_def)
    next
      case False
      then have "1 \<le> i" by simp
      moreover obtain k where "unat src = 4096 * a + k" "k < 4096"
        using mult_div_mod_eq[of 4096 "unat src"] unfolding a_def by (metis mod_less_divisor zero_less_numeral)
      ultimately have "unat src \<le> 4096 * (a + i)" using mult_le_mono2[of 1 i 4096] by (simp add: distrib_left)
      then show ?thesis by (simp add: j_def)
    qed
    then have "p = page_base (src + of_nat j)" using pg[OF i(1)] bs[OF j] i(2) by (simp add: word_unat_eq_iff)
    then show "p \<in> (\<lambda>i. page_base (src + of_nat i)) ` {..<len}" using j by blast
  next
    fix p assume "p \<in> (\<lambda>i. page_base (src + of_nat i)) ` {..<len}"
    then obtain j where j: "j < len" "p = page_base (src + of_nat j)" by blast
    define i where "i = (unat src + j) div 4096 - a"
    have "a \<le> (unat src + j) div 4096" "(unat src + j) div 4096 \<le> b" using j(1) by (auto simp: a_def b_def intro!: div_le_mono)
    then have i: "i \<le> b - a" "a + i = (unat src + j) div 4096" by (simp_all add: i_def)
    then have "p = page_base src + of_nat i * PAGE_SIZE" using pg[OF i(1)] bs[OF j(1)] j(2) by (simp add: word_unat_eq_iff)
    then show "p \<in> (\<lambda>i. page_base src + of_nat i * PAGE_SIZE) ` {..b - a}" using i(1) by blast
  qed
qed

lemma checked_add_len:
  assumes "0 < len" "len < 18446744073709551616"
  shows "checked_add src (of_nat (len - 1)) =
    (if unat src + len \<le> 18446744073709551616 then Some (src + of_nat (len - 1)) else None)"
proof -
  have u: "unat (of_nat (len - 1) :: u64) = len - 1"
    using assms unat_of_nat[of "len - 1", where 'a = 64] by (simp add: take_bit_nat_eq_self del: of_nat_diff of_nat_Suc)
  have "src \<le> src + of_nat (len - 1) \<longleftrightarrow> unat src + (len - 1) < 18446744073709551616"
    using u unat_lt_64[of src] assms by (auto simp: word_le_nat_alt unat_plus_if_size word_size)
  also have "\<dots> \<longleftrightarrow> unat src + len \<le> 18446744073709551616" using assms(1) by auto
  finally show ?thesis by (simp add: checked_add_def)
qed

lemma copy_from_user_bytes:
  assumes "len < 18446744073709551616"
  shows "vmm_copy_from_user as src len m =
    (if unat src + len \<le> 18446744073709551616 \<and>
        (\<forall>i < len. user_to_phys_checked as (page_base (src + of_nat i)) VMM_ACCESS_READ m \<noteq> 0) \<or> len = 0
     then Some (map (\<lambda>i. phys m (user_to_phys_checked as (src + of_nat i) VMM_ACCESS_READ m)) [0..<len]) else None)"
proof (cases "len = 0")
  case False
  then have l: "0 < len" by simp
  show ?thesis
  proof (cases "unat src + len \<le> 18446744073709551616")
    case True
    have "vmm_user_range_accessible as src len VMM_ACCESS_READ m \<longleftrightarrow>
        (\<forall>i < len. user_to_phys_checked as (page_base (src + of_nat i)) VMM_ACCESS_READ m \<noteq> 0)"
      using pages_between_bytes[OF l True refl] checked_add_len[OF l assms, of src] True False
      by (auto simp: vmm_user_range_accessible_def list_all_iff)
    then show ?thesis
      using copy_in_bytes[of len as src m] checked_add_len[OF l assms, of src] True False
      by (auto simp: vmm_copy_from_user_def)
  qed (use checked_add_len[OF l assms, of src] False in \<open>simp add: vmm_copy_from_user_def\<close>)
qed (simp add: vmm_copy_from_user_def)

subsection \<open>A new address space\<close>

lemma user_init_pte:
  assumes ok: "phys_ok m" and r: "vmm_user_init hhdm m = (Some as, m')"
  shows "pt_wf m' (root_pa as)" "pte m' (root_pa as) v = 0" "mrefs m' = (mrefs m)(root_pa as := 1)" "phys_ok m'"
    "mrefs m (root_pa as) = 0" "is_table m' (root_pa as) p \<longleftrightarrow> p = root_pa as"
proof -
  obtain root where z: "pmm_alloc_zero_page m = (m', root)" "root \<noteq> 0" and as: "root_pa as = root"
    using r by (auto simp: vmm_user_init_def Let_def split: prod.splits if_splits)
  note a = zalloc_some[OF ok z]
  have e: "get_pte m' (slot_addr root (idx va 0)) = 0" for va by (rule get_pte_zero[OF a(5) _ a(4)]) simp
  have t: "tbl m' root va (Suc l) = None" for va l
    using tbl_none_mono[of m' root va 1 "Suc l"] by (simp add: tbl_levels e)
  have tt: "tbl m' root va l = Some u \<longleftrightarrow> l = 0 \<and> u = root" for va l u using t[of va] by (cases l) auto
  show "pt_wf m' (root_pa as)" using a(1,3) by (simp add: pt_wf_def as tt agree_def)
  show "pte m' (root_pa as) v = 0" using t[of v 2] by (simp add: pte_def as numeral_3_eq_3 numeral_2_eq_2)
  show "mrefs m' = (mrefs m)(root_pa as := 1)" "phys_ok m'" "mrefs m (root_pa as) = 0" using a by (simp_all add: as)
  show "is_table m' (root_pa as) p \<longleftrightarrow> p = root_pa as" by (auto simp: is_table_def as tt)
qed

lemma map_page_cow_pte:
  assumes wf: "pt_wf m (root_pa as)" and r: "vmm_map_page_cow as va pa flags m = (True, m')"
  shows "pt_wf m' (root_pa as)"
    "pte m' (root_pa as) v = (if vpage v = vpage va then cow_entry pa flags else pte m (root_pa as) v)"
    "\<forall>p. mrefs m p \<noteq> 0 \<longrightarrow> mrefs m' p = mrefs m p"
    "\<forall>p. mrefs m p \<noteq> 0 \<longrightarrow> \<not> is_table m (root_pa as) p \<longrightarrow> \<not> is_table m' (root_pa as) p"
proof -
  obtain l3 m1 where e: "ensure_l3 as va m = (Some l3, m1)"
    and m': "m' = set_pte (slot_addr l3 (pt_index va 12)) (cow_entry pa flags) m1"
    using r by (auto simp: vmm_map_page_cow_def split: prod.splits option.splits)
  note g = ensure_l3_grew[OF wf e]
  have wf1: "pt_wf m1 (root_pa as)" using g(1) by (simp add: grew_def)
  show "pt_wf m' (root_pa as)" "pte m' (root_pa as) v = (if vpage v = vpage va then cow_entry pa flags else pte m (root_pa as) v)"
    using map_leaf_pte[OF wf e m'] by blast+
  show "\<forall>p. mrefs m p \<noteq> 0 \<longrightarrow> mrefs m' p = mrefs m p" using g(1) by (simp add: grew_def m')
  show "\<forall>p. mrefs m p \<noteq> 0 \<longrightarrow> \<not> is_table m (root_pa as) p \<longrightarrow> \<not> is_table m' (root_pa as) p"
    using g(1) is_table_set_leaf[OF wf1 g(2)] by (simp add: grew_def m' idx_levels)
qed

lemma cow_entry_bits:
  "bit (cow_entry pa flags) 0" "bit (cow_entry pa flags) 55" "bit (cow_entry pa flags) 7"
  "cow_entry pa flags AND PTE_ADDR_MASK = pa AND PTE_ADDR_MASK"
proof -
  show "cow_entry pa flags AND PTE_ADDR_MASK = pa AND PTE_ADDR_MASK"
    by (rule bit_word_eqI) (auto simp: cow_entry_def xn_of_flags_def bit_or_iff bit_and_iff pte_bits)
qed (auto simp: cow_entry_def xn_of_flags_def bit_or_iff bit_and_iff pte_bits)

subsection \<open>An example\<close>

text \<open>Eight free pages from 1 MiB on, one page below that two address spaces share, and sixteen pages in use below that.\<close>

definition vm_pmm :: pmm where
  "vm_pmm = \<lparr>hhdm_base = 0xffff000000000000, bitmap = [- 1, - 1, - 1, - 1, 0xffffffffffffff00],
     refcounts = replicate 239 0 @ replicate 16 1 @ [2] @ replicate 8 0, tracked_page_count = 264, bitmap_word_count = 5,
     total_page_count = 8, free_page_count = 8, next_free_page = 256,
     metadata_start_page = 0, metadata_page_count = 0,
     stats = \<lparr>alloc_attempts = 0, alloc_successes = 0, alloc_failures = 0, bitmap_words_scanned = 0\<rparr>\<rparr>"

definition vm_machine :: machine where
  "vm_machine = \<lparr>mpmm = vm_pmm, phys = (\<lambda>_. 0)\<rparr>"

definition vm_as :: user_address_space where
  "vm_as = \<lparr>root_pa = 0x100000, as_hhdm_offset = 0, brk_base = 0, brk_current = 0,
     mmap_base = 0x0000007000000000, asid = 0\<rparr>"

definition vm_start :: machine where
  "vm_start = snd (vmm_user_init 0 vm_machine)"

text \<open>The shared page mapped copy on write at 4 MiB.\<close>

definition vm_cow :: machine where
  "vm_cow = snd (vmm_map_page_cow vm_as 0x400000 0xff000 3 vm_start)"

lemma vm_phys_ok: "phys_ok vm_machine"
proof -
  have u: "page_used vm_pmm p \<longleftrightarrow> p < 256" if "p < 264" for p
  proof (cases "p < 256")
    case True
    then have "p div 64 \<in> {0, 1, 2, 3}" by auto
    with True show ?thesis by (auto simp: page_used_def vm_pmm_def)
  next
    case False
    with that have "p \<in> {256, 257, 258, 259, 260, 261, 262, 263}" by auto
    then show ?thesis by (auto simp: page_used_def vm_pmm_def)
  qed
  have "{p. p < 264 \<and> \<not> page_used vm_pmm p} = {256..<264}" using u by auto
  moreover have "\<forall>p < 264. \<not> page_used vm_pmm p \<longrightarrow> (replicate 239 0 @ replicate 16 1 @ [2] @ replicate 8 (0 :: u16)) ! p = 0"
    using u by (auto simp: nth_append nth_Cons')
  ultimately show ?thesis
    by (simp add: phys_ok_def vm_machine_def pmm_wf_def vm_pmm_def[symmetric]) (simp add: vm_pmm_def div_round_up_def)
qed

lemma vm_init: "vmm_user_init 0 vm_machine = (Some vm_as, vm_start)"
proof -
  have "fst (vmm_user_init 0 vm_machine) = Some vm_as" by code_simp
  then show ?thesis by (simp add: vm_start_def prod_eq_iff)
qed

lemma vm_map: "vmm_map_page_cow vm_as 0x400000 0xff000 3 vm_start = (True, vm_cow)"
proof -
  have "fst (vmm_map_page_cow vm_as 0x400000 0xff000 3 vm_start) = True" by code_simp
  then show ?thesis by (simp add: vm_cow_def prod_eq_iff)
qed

lemma vm_shared: "mrefs vm_machine 0xff000 = 2"
  by (simp add: pmm_refcount_def valid_page_def vm_machine_def vm_pmm_def PAGE_SIZE_def nth_append)

lemmas vm_start_facts = user_init_pte[OF vm_phys_ok vm_init]
lemmas vm_cow_facts = map_page_cow_pte[OF vm_start_facts(1) vm_map]

lemma vm_cow_page:
  "mrefs vm_cow 0xff000 = 2" "\<not> is_table vm_cow (root_pa vm_as) 0xff000"
  "pte vm_cow (root_pa vm_as) v = (if vpage v = vpage 0x400000 then cow_entry 0xff000 3 else 0)"
proof -
  have s: "mrefs vm_start 0xff000 = 2" using vm_start_facts(3) vm_shared by (simp add: vm_as_def)
  show "mrefs vm_cow 0xff000 = 2" using vm_cow_facts(3) s by simp
  show "\<not> is_table vm_cow (root_pa vm_as) 0xff000"
    using vm_cow_facts(4) s vm_start_facts(6) by (simp add: vm_as_def)
  show "pte vm_cow (root_pa vm_as) v = (if vpage v = vpage 0x400000 then cow_entry 0xff000 3 else 0)"
    using vm_cow_facts(2) vm_start_facts(2) by simp
qed

lemma vm_cow_addr: "cow_entry 0xff000 3 AND PTE_ADDR_MASK = 0xff000"
  unfolding cow_entry_bits(4) by (simp add: PTE_ADDR_MASK_def)

section \<open>Properties of the user page tables\<close>

text \<open>
  C19: after a successful mapping every address of the page translates to the given frame, for
  exactly the accesses the flags allow; every other page translates as before, for every access.
  A mapping that fails changes no translation. The tables stay well formed.
\<close>

theorem vmm_map_page_translates:
  assumes "pt_wf m (root_pa as)" "vmm_map_page as va pa flags m = (ok, m')"
  shows "pt_wf m' (root_pa as) \<and>
    (\<forall>v access. user_to_phys_checked as v access m' =
       (if ok \<and> vpage v = vpage va
        then if flags_allow flags access then (pa AND PTE_ADDR_MASK) OR (v AND 0xfff) else 0
        else user_to_phys_checked as v access m))"
  using map_page_pte[OF assms]
  by (auto simp: user_to_phys_pte Let_def leaf_entry_bits leaf_entry_addr leaf_entry_allows)

theorem vmm_map_page_translates_witness:
  "user_to_phys_checked vm_as 0x400123 VMM_ACCESS_WRITE (snd (vmm_map_page vm_as 0x400000 0xff000 3 vm_start)) =
     (if fst (vmm_map_page vm_as 0x400000 0xff000 3 vm_start) then 0xff123 else 0)"
  using vmm_map_page_translates[OF vm_start_facts(1), of "0x400000" "0xff000" 3 "fst (vmm_map_page vm_as 0x400000 0xff000 3 vm_start)"
      "snd (vmm_map_page vm_as 0x400000 0xff000 3 vm_start)"] vm_start_facts(2)
  by (simp add: flags_allow_def VMM_USER_WRITE_def PTE_ADDR_MASK_def vpage_def user_to_phys_pte Let_def take_bit_eq_mod)

text \<open>
  C20: a resolved copy on write fault gives the faulting page a writable frame with the same
  contents and no other page a different entry; every frame that was in use and is not a table
  keeps its contents, the old frame included, so no other address space sees the copy, and the
  tables are the same frames. With
  other references to the old frame the new one was free and takes its reference over; with
  none the frame is kept. A fault that is not resolved changes neither memory nor references.
\<close>

theorem vmm_cow_fault_isolates:
  assumes "pt_wf m (root_pa as)" "vmm_handle_cow_fault as va m = (ok, m')"
    "P = pte m (root_pa as) va AND PTE_ADDR_MASK" "mrefs m P \<noteq> 0" "\<not> is_table m (root_pa as) P"
  shows "pt_wf m' (root_pa as) \<and>
    (if ok then cow_resolved (root_pa as) va m m' else mrefs m' = mrefs m \<and> phys m' = phys m)"
  using cow_fault_resolved[OF assms(1) _ assms(3-5)] cow_fault_failed[OF assms(1)] assms(2) by (cases ok) auto

theorem vmm_cow_fault_isolates_witness:
  "(if fst (vmm_handle_cow_fault vm_as 0x400000 vm_cow)
    then mrefs (snd (vmm_handle_cow_fault vm_as 0x400000 vm_cow)) 0xff000 = 1
    else mrefs (snd (vmm_handle_cow_fault vm_as 0x400000 vm_cow)) 0xff000 = 2)"
proof -
  have P: "pte vm_cow (root_pa vm_as) 0x400000 AND PTE_ADDR_MASK = 0xff000"
    by (simp add: vm_cow_page(3) vm_cow_addr)
  show ?thesis
    using vmm_cow_fault_isolates[OF vm_cow_facts(1), of "0x400000" "fst (vmm_handle_cow_fault vm_as 0x400000 vm_cow)"
        "snd (vmm_handle_cow_fault vm_as 0x400000 vm_cow)" "0xff000"] P vm_cow_page(1,2)
    by (auto simp: cow_resolved_def Let_def split: if_splits)
qed

text \<open>
  C21: the page loops of \<^verbatim>\<open>vmm_unmap_range\<close>, \<^verbatim>\<open>vmm_protect_range\<close> and
  \<^verbatim>\<open>vmm_mapped_pages_in_range\<close> return for every page-aligned start if and only if the range is
  empty or ends at least one page below the end of the address space.
\<close>

theorem vmm_range_loops_return:
  assumes "page_aligned start"
  shows "(vmm_unmap_range as start end m \<noteq> None \<longleftrightarrow> end \<le> start \<or> end \<le> 0xfffffffffffff000) \<and>
    (vmm_protect_range as start end flags m \<noteq> None \<longleftrightarrow> end \<le> start \<or> end \<le> 0xfffffffffffff000) \<and>
    (vmm_mapped_pages_in_range as start end m \<noteq> None \<longleftrightarrow> end \<le> start \<or> end \<le> 0xfffffffffffff000)"
  unfolding vmm_unmap_range_def vmm_protect_range_def vmm_mapped_pages_in_range_def
  by (intro conjI range_loop_returns[OF assms])

theorem vmm_range_loops_return_witness:
  "vmm_unmap_range vm_as 0x400000 0x500000 vm_cow \<noteq> None \<and> vmm_unmap_range vm_as 0x400000 0xfffffffffffffff0 vm_cow = None"
  using vmm_range_loops_return[of "0x400000" vm_as "0x500000" vm_cow] vmm_range_loops_return[of "0x400000" vm_as "0xfffffffffffffff0" vm_cow]
  by (simp add: page_aligned_def)

text \<open>
  C22: unmapping a range of user addresses returns, leaves no address of the range mapped and every
  address outside it translated as before.
\<close>

theorem vmm_unmap_range_exact:
  assumes "pt_wf m (root_pa as)" "leaves_ok m (root_pa as)" "page_aligned start" "page_aligned end" "end \<le> 0x1000000000000"
  shows "\<exists>m'. vmm_unmap_range as start end m = Some m' \<and> pt_wf m' (root_pa as) \<and> leaves_ok m' (root_pa as) \<and>
    (\<forall>v < 0x1000000000000.
       (vmm_is_mapped as v m' \<longleftrightarrow> vmm_is_mapped as v m \<and> \<not> (start \<le> v \<and> v < end)) \<and>
       (\<forall>access. \<not> (start \<le> v \<and> v < end) \<longrightarrow>
          user_to_phys_checked as v access m' = user_to_phys_checked as v access m))"
proof -
  have e: "end \<le> 18446744073709547520" "unat end \<le> 281474976710656" using assms(5) by (simp_all add: word_le_nat_alt)
  define m' where "m' = fold (unmap_one as) (range_pages start end) m"
  have "vmm_unmap_range as start end m = Some m'" using range_loop_fold[OF e(1)] by (simp add: vmm_unmap_range_def m'_def)
  moreover note u = unmap_pages_pte[OF assms(1,2), of "range_pages start end", folded m'_def]
  moreover have "vpage v \<in> vpage ` set (range_pages start end) \<longleftrightarrow> start \<le> v \<and> v < end" if "v < 0x1000000000000" for v
    using range_pages_vpage[OF assms(3,4) e(2), of v] that by (simp add: word_less_nat_alt)
  ultimately show ?thesis by (intro exI[of _ m']) (auto simp: is_mapped_pte user_to_phys_pte)
qed

theorem vmm_unmap_range_exact_witness:
  "\<exists>m'. vmm_unmap_range vm_as 0x400000 0x401000 vm_cow = Some m' \<and> vmm_is_mapped vm_as 0x400abc vm_cow \<and>
     \<not> vmm_is_mapped vm_as 0x400abc m'"
proof -
  have l: "leaves_ok vm_cow (root_pa vm_as)"
    using vm_cow_page(2) by (auto simp: leaves_ok_def vm_cow_page(3) vm_cow_addr)
  have "vmm_is_mapped vm_as 0x400abc vm_cow"
    by (simp add: is_mapped_pte vm_cow_page(3) vpage_def take_bit_eq_mod cow_entry_bits(1))
  then show ?thesis
    using vmm_unmap_range_exact[OF vm_cow_facts(1) l, of "0x400000" "0x401000"] by (auto simp: page_aligned_def)
qed

text \<open>
  C23: \<^verbatim>\<open>vmm_protect_range\<close> with write permission makes every mapped page of the range
  writable in place, also a copy on write page whose frame other address spaces still reference:
  afterwards a write to it goes to the shared frame.
\<close>

theorem vmm_protect_range_ignores_cow:
  assumes "pt_wf m (root_pa as)" "page_aligned start" "page_aligned end" "end \<le> 0x1000000000000"
    "start \<le> v" "v < end" "flags AND VMM_USER_WRITE \<noteq> 0" "vmm_is_mapped as v m"
  shows "\<exists>m'. vmm_protect_range as start end flags m = Some m' \<and> mpmm m' = mpmm m \<and>
    bit (pte m' (root_pa as) v) 55 = bit (pte m (root_pa as) v) 55 \<and>
    user_to_phys_checked as v VMM_ACCESS_WRITE m' = user_to_phys_checked as v VMM_ACCESS_READ m"
proof -
  have e: "end \<le> 18446744073709547520" "unat end \<le> 281474976710656" "unat v < 281474976710656"
    using assms(4,6) by (auto simp: word_le_nat_alt word_less_nat_alt)
  define m' where "m' = fold (protect_one as flags) (range_pages start end) m"
  have "vmm_protect_range as start end flags m = Some m'" using range_loop_fold[OF e(1)] by (simp add: vmm_protect_range_def m'_def)
  moreover note u = protect_pages_pte[OF assms(1), of flags "range_pages start end" v, folded m'_def]
  moreover have "vpage v \<in> vpage ` set (range_pages start end)"
    using range_pages_vpage[OF assms(2,3) e(2,3)] assms(5,6) by simp
  ultimately show ?thesis using assms(7,8)
    by (intro exI[of _ m']) (simp add: is_mapped_pte user_to_phys_pte Let_def protect_entry_bits user_entry_allows_def)
qed

theorem vmm_protect_range_ignores_cow_witness:
  "\<exists>m'. vmm_protect_range vm_as 0x400000 0x401000 3 vm_cow = Some m' \<and> mrefs m' 0xff000 = 2 \<and>
     user_to_phys_checked vm_as 0x400000 VMM_ACCESS_WRITE m' = 0xff000"
proof -
  have p: "vmm_is_mapped vm_as 0x400000 vm_cow" "user_to_phys_checked vm_as 0x400000 VMM_ACCESS_READ vm_cow = 0xff000"
    by (simp_all add: is_mapped_pte vm_cow_page(3) cow_entry_bits(1) vm_cow_addr user_to_phys_pte Let_def user_entry_allows_def)
  then show ?thesis
    using vmm_protect_range_ignores_cow[OF vm_cow_facts(1), of "0x400000" "0x401000" "0x400000" 3] vm_cow_page(1)
    by (auto simp: page_aligned_def VMM_USER_WRITE_def)
qed

text \<open>
  C24: copying from user memory returns the bytes at the translations of the addresses
  \<open>src, \<dots>, src + len - 1\<close>, across page boundaries, when the range does not wrap and every page of
  it is mapped; otherwise it fails.
\<close>

theorem vmm_copy_from_user_exact:
  assumes "len < 2 ^ 64"
  shows "vmm_copy_from_user as src len m =
    (if len = 0 \<or> unat src + len \<le> 2 ^ 64 \<and>
        (\<forall>i < len. user_to_phys_checked as (page_base (src + of_nat i)) VMM_ACCESS_READ m \<noteq> 0)
     then Some (map (\<lambda>i. phys m (user_to_phys_checked as (src + of_nat i) VMM_ACCESS_READ m)) [0..<len])
     else None)"
  using copy_from_user_bytes[of len as src m] assms by auto

theorem vmm_copy_from_user_exact_witness:
  "vmm_copy_from_user vm_as 0x400ffe 1 vm_cow = Some [phys vm_cow 0xffffe] \<and>
   vmm_copy_from_user vm_as 0x401000 1 vm_cow = None"
proof -
  have t: "user_to_phys_checked vm_as v VMM_ACCESS_READ vm_cow = (if vpage v = 0x400 then 0xff000 OR (v AND 0xfff) else 0)" for v
    by (simp add: vm_cow_page(3) cow_entry_bits(1) vm_cow_addr user_to_phys_pte Let_def user_entry_allows_def vpage_def take_bit_eq_mod)
  have p: "user_to_phys_checked vm_as (page_base 0x400ffe) VMM_ACCESS_READ vm_cow = 0xff000"
    "user_to_phys_checked vm_as 0x400ffe VMM_ACCESS_READ vm_cow = 0xffffe"
    "user_to_phys_checked vm_as (page_base 0x401000) VMM_ACCESS_READ vm_cow = 0"
    by (simp_all add: t page_base_def PAGE_SIZE_def vpage_def take_bit_eq_mod)
  show ?thesis
    using vmm_copy_from_user_exact[of 1 vm_as "0x400ffe" vm_cow] vmm_copy_from_user_exact[of 1 vm_as "0x401000" vm_cow]
    by (simp add: p)
qed

end
