(* ===== verification/Krandom.thy ===== *)
theory Krandom
  imports Kstr
begin

text \<open>
  The kernel's random number generator, \<^verbatim>\<open>kernel/src/random.c\<close>: a ChaCha20 key stream
  that is rekeyed after every request and stirred with the RNDR instruction where the processor
  has it. Counter and RNDR readings and the three link-time addresses that go into the first
  key are inputs, in the order in which the code reads them.
\<close>

subsection \<open>State\<close>

record chacha_rng =
  key :: "u32 list"
  ctr :: u64
  nonce :: "u32 list"
  rng_buf :: "u8 list"
  rng_pos :: nat
  seeded :: bool
  have_rndr :: bool

text \<open>
  The machine as the generator sees it: whether it has RNDR, the readings of the counter and of
  RNDR (\<^const>\<open>None\<close> when the instruction reports failure), how many of each were taken, and the
  addresses of \<^verbatim>\<open>rng\<close>, \<^verbatim>\<open>random_init\<close> and \<^verbatim>\<open>random_bytes\<close>.
\<close>

record entropy =
  has_rndr :: bool
  cnt_at :: "nat \<Rightarrow> u64"
  rndr_at :: "nat \<Rightarrow> u64 option"
  cnt_used :: nat
  rndr_used :: nat
  addr_rng :: u64
  addr_init :: u64
  addr_bytes :: u64

subsection \<open>The block function\<close>

definition rotl32 :: "u32 \<Rightarrow> nat \<Rightarrow> u32" where
  "rotl32 v n = push_bit n v OR drop_bit (32 - n) v"

definition quarter_round :: "u32 list \<Rightarrow> nat \<Rightarrow> nat \<Rightarrow> nat \<Rightarrow> nat \<Rightarrow> u32 list" where
  "quarter_round x a b c d =
     (let x = x[a := x ! a + x ! b]; x = x[d := rotl32 (x ! d XOR x ! a) 16];
          x = x[c := x ! c + x ! d]; x = x[b := rotl32 (x ! b XOR x ! c) 12];
          x = x[a := x ! a + x ! b]; x = x[d := rotl32 (x ! d XOR x ! a) 8];
          x = x[c := x ! c + x ! d]
      in x[b := rotl32 (x ! b XOR x ! c) 7])"

definition load32 :: "u8 list \<Rightarrow> nat \<Rightarrow> u32" where
  "load32 p i = ucast (p ! i) OR push_bit 8 (ucast (p ! (i + 1))) OR push_bit 16 (ucast (p ! (i + 2))) OR
     push_bit 24 (ucast (p ! (i + 3)))"

definition store32 :: "u32 \<Rightarrow> u8 list" where
  "store32 v = [ucast v, ucast (drop_bit 8 v), ucast (drop_bit 16 v), ucast (drop_bit 24 v)]"

definition chacha_constants :: "u32 list" where
  "chacha_constants = [0x61707865, 0x3320646e, 0x79622d32, 0x6b206574]"

definition chacha_state :: "chacha_rng \<Rightarrow> u32 list" where
  "chacha_state r = chacha_constants @ map (\<lambda>i. key r ! i) [0..<8] @
     [ucast (ctr r), ucast (drop_bit 32 (ctr r)), nonce r ! 0, nonce r ! 1 XOR nonce r ! 2]"

definition double_round :: "u32 list \<Rightarrow> u32 list" where
  "double_round work =
     (let work = quarter_round work 0 4 8 12; work = quarter_round work 1 5 9 13;
          work = quarter_round work 2 6 10 14; work = quarter_round work 3 7 11 15;
          work = quarter_round work 0 5 10 15; work = quarter_round work 1 6 11 12;
          work = quarter_round work 2 7 8 13
      in quarter_round work 3 4 9 14)"

text \<open>The 64 bytes of the next block.\<close>

definition block_bytes :: "chacha_rng \<Rightarrow> u8 list" where
  "block_bytes r =
     (let state = chacha_state r; work = (double_round ^^ 10) state
      in concat (map (\<lambda>i. store32 (work ! i + state ! i)) [0..<16]))"

definition chacha_block :: "chacha_rng \<Rightarrow> u8 list \<times> chacha_rng" where
  "chacha_block r = (block_bytes r, r\<lparr>ctr := ctr r + 1\<rparr>)"

subsection \<open>Seeding\<close>

definition mix_seed :: "u8 list \<Rightarrow> u8 list \<Rightarrow> u8 list" where
  "mix_seed block seed =
     fold (\<lambda>i b. b[i mod 64 := b ! (i mod 64) XOR seed ! i]) [0..<length seed] block"

definition absorb_seed :: "u8 list \<Rightarrow> chacha_rng \<Rightarrow> chacha_rng" where
  "absorb_seed seed r =
     (let (block, r) = chacha_block r; block = mix_seed block seed
      in r\<lparr>key := map (\<lambda>i. load32 block (i * 4)) [0..<8],
           nonce := [nonce r ! 0 XOR load32 block 32, nonce r ! 1 XOR load32 block 36, nonce r ! 2 XOR load32 block 40],
           ctr := ctr r XOR (push_bit 32 (ucast (load32 block 44)) OR ucast (load32 block 48)),
           rng_pos := 64\<rparr>)"

definition counter_value :: "entropy \<Rightarrow> u64 \<times> entropy" where
  "counter_value e = (cnt_at e (cnt_used e), e\<lparr>cnt_used := cnt_used e + 1\<rparr>)"

definition rndr64 :: "chacha_rng \<Rightarrow> entropy \<Rightarrow> u64 option \<times> entropy" where
  "rndr64 r e =
     (if \<not> have_rndr r then (None, e) else (rndr_at e (rndr_used e), e\<lparr>rndr_used := rndr_used e + 1\<rparr>))"

text \<open>The bytes of a 64-bit word in memory order.\<close>

definition word_bytes :: "u64 \<Rightarrow> u8 list" where
  "word_bytes v = map (\<lambda>i. ucast (drop_bit (8 * i) v)) [0..<8]"

fun seed_loop :: "u64 \<Rightarrow> nat list \<Rightarrow> chacha_rng \<Rightarrow> entropy \<Rightarrow> u64 list \<times> entropy" where
  "seed_loop hint [] r e = ([], e)"
| "seed_loop hint (i # is) r e =
     (let (v, e) = counter_value e; word = v XOR hint XOR push_bit 56 (of_nat i);
          (rnd, e) = rndr64 r e;
          word = (case rnd of Some x \<Rightarrow> word XOR x | None \<Rightarrow> word);
          (ws, e) = seed_loop hint is r e
      in (word # ws, e))"

definition random_init :: "u64 \<Rightarrow> chacha_rng \<Rightarrow> entropy \<Rightarrow> chacha_rng \<times> entropy" where
  "random_init seed_hint r e =
     (let r = r\<lparr>have_rndr := has_rndr e\<rparr>;
          (c0, e) = counter_value e; (c1, e) = counter_value e; (c2, e) = counter_value e;
          r = r\<lparr>key := [0x73706f72, 0x652d6373, 0x70726e67, 0x2d626f6f, ucast seed_hint,
                        ucast (drop_bit 32 seed_hint), ucast (addr_rng e), ucast c0],
                ctr := c1 XOR seed_hint,
                nonce := [ucast (drop_bit 8 c2), ucast (addr_init e), ucast (addr_bytes e)],
                rng_pos := 64, seeded := True\<rparr>;
          (ws, e) = seed_loop seed_hint [0..<8] r e
      in (absorb_seed (concat (map word_bytes ws)) r, e))"

subsection \<open>Output\<close>

definition refill :: "chacha_rng \<Rightarrow> entropy \<Rightarrow> chacha_rng \<times> entropy" where
  "refill r e =
     (let (rnd, e) = rndr64 r e;
          r = (case rnd of Some x \<Rightarrow> if ctr r AND 0x3f = 0 then absorb_seed (word_bytes x) r else r | None \<Rightarrow> r);
          (b, r) = chacha_block r
      in (r\<lparr>rng_buf := b, rng_pos := 0\<rparr>, e))"

fun out_loop :: "nat \<Rightarrow> chacha_rng \<Rightarrow> entropy \<Rightarrow> u8 list \<times> chacha_rng \<times> entropy" where
  "out_loop 0 r e = ([], r, e)"
| "out_loop (Suc n) r e =
     (let (r, e) = (if rng_pos r \<ge> 64 then refill r e else (r, e));
          b = rng_buf r ! rng_pos r;
          r = r\<lparr>rng_buf := (rng_buf r)[rng_pos r := 0], rng_pos := rng_pos r + 1\<rparr>;
          (bs, r, e) = out_loop n r e
      in (b # bs, r, e))"

text \<open>
  The rekeying block goes to an array of 32 bytes, of which the first 32 are read back. What the
  other half overwrites on the stack is outside this model.
\<close>

definition REKEY_SIZE :: nat where
  "REKEY_SIZE = 32"

definition random_bytes :: "nat \<Rightarrow> chacha_rng \<Rightarrow> entropy \<Rightarrow> u8 list \<times> chacha_rng \<times> entropy" where
  "random_bytes len r e =
     (let (r, e) = (if \<not> seeded r then let (c, e) = counter_value e in random_init c r e else (r, e));
          (out, r, e) = out_loop len r e;
          (block, r) = chacha_block r; rekey = take REKEY_SIZE block
      in (out, r\<lparr>key := map (\<lambda>i. load32 rekey (i * 4)) [0..<8], rng_pos := 64\<rparr>, e))"

end
