(* ===== verification/Kernel.thy ===== *)
theory Kernel
  imports Cell Vmm
begin

text \<open>
  The state the process code works on: the enumerations and structures of
  \<^verbatim>\<open>kernel/src/include/cell.h\<close> that \<open>Cell\<close> leaves out, the kernel's tables, and access to
  them. A pointer to an entry of a table is its index. Calls into parts of the kernel that are
  not modelled (file systems, sockets, terminals) are recorded in order, and what they return
  is an arbitrary function of that record.
\<close>

subsection \<open>Enumerations\<close>

definition MAX_DOMAINS :: nat where "MAX_DOMAINS = 1024"
definition MAX_THREADS :: nat where "MAX_THREADS = 2048"
definition MAX_SNAPSHOTS :: nat where "MAX_SNAPSHOTS = 8"
definition MAX_OPEN_FILES :: nat where "MAX_OPEN_FILES = 4096"
definition CELL_SWITCHED :: int where "CELL_SWITCHED = - 0x40000000"
definition CELL_EPOLL_WATCH_CAP :: nat where "CELL_EPOLL_WATCH_CAP = 16"
definition CELL_INOTIFY_WATCH_CAP :: nat where "CELL_INOTIFY_WATCH_CAP = 16"

datatype thread_state = THREAD_UNUSED | THREAD_RUNNABLE | THREAD_BLOCKED | THREAD_ZOMBIE

datatype wait_reason =
    WAIT_NONE | WAIT_CHILD | WAIT_STDIN | WAIT_SOCKET | WAIT_THREAD | WAIT_FUTEX | WAIT_POLL
  | WAIT_SLEEP | WAIT_VFORK | WAIT_PIPE | WAIT_EPOLL | WAIT_INOTIFY | WAIT_PTY

datatype open_file_type =
    OPEN_NONE | OPEN_STDIN | OPEN_STDOUT | OPEN_RAMFS | OPEN_SOCKET | OPEN_PIPE
  | OPEN_UNIX_STREAM | OPEN_UNIX_LISTENER | OPEN_EPOLL | OPEN_EVENTFD | OPEN_INOTIFY | OPEN_PTY

subsection \<open>Structures\<close>

record epoll_watch =
  ew_used :: bool
  ew_fd :: int
  ew_events :: u32
  ew_data :: u64

record inotify_watch =
  iw_used :: bool
  iw_wd :: int
  iw_mask :: u32
  iw_path :: cstr

text \<open>An open file, without the fields that only the network code uses.\<close>

record open_file =
  of_used :: bool
  of_refcount :: u16
  of_type :: open_file_type
  of_offset :: u64
  of_flags :: u32
  of_pipe_id :: u8
  of_pipe_write_end :: bool
  of_pty_id :: u8
  of_pty_master :: bool
  of_unix_connected :: bool
  of_unix_rx_pipe :: u8
  of_unix_tx_pipe :: u8
  of_path :: cstr
  of_node :: vfs_node
  of_epoll_watches :: "epoll_watch list"
  of_eventfd_value :: u64
  of_eventfd_semaphore :: bool
  of_inotify_next_wd :: u32
  of_inotify_watches :: "inotify_watch list"

record trap_frame =
  tf_x :: "u64 list"
  sp_el0 :: u64
  elr_el1 :: u64
  spsr_el1 :: u64
  esr_el1 :: u64
  tf_pad :: u64

record fp_state =
  fp_q :: "u8 list list"
  fpcr :: u64
  fpsr :: u64

record process_mm =
  mm_used :: bool
  mm_refcount :: u16
  mm_as :: user_address_space
  mm_vmas :: vma_list

record thread =
  tid :: int
  running_cpu :: int
  th_domain :: "nat option"
  th_state :: thread_state
  th_tf :: trap_frame
  th_fp :: fp_state
  tpidr_el0 :: u64
  th_wait_reason :: wait_reason
  wait_target :: int
  stdin_buf :: u64
  stdin_len :: u64
  pipe_buf :: u64
  pipe_len :: u64
  socket_addr :: u64
  socket_addrlen :: u64
  socket_accept_flags :: int
  socket_write :: bool
  socket_msg :: bool
  socket_msg_addr :: u64
  socket_iov :: u64
  socket_iovlen :: u64
  socket_flags :: u32
  socket_has_deadline :: bool
  socket_deadline_tick :: u64
  signal_mask :: u64
  pending_signals :: u64
  sigaltstack_sp :: u64
  sigaltstack_size :: u64
  sigaltstack_flags :: u32
  pipe_write :: bool
  poll_kind :: u8
  poll_has_deadline :: bool
  poll_deadline_tick :: u64
  sleep_deadline_tick :: u64
  poll_fds :: u64
  poll_nfds :: u64
  poll_readfds :: u64
  poll_writefds :: u64
  poll_exceptfds :: u64
  epoll_fd :: int
  epoll_events :: u64
  epoll_maxevents :: int
  clear_child_tid :: u64
  robust_list :: u64
  futex_addr :: u64

record pipe_obj =
  p_used :: bool
  p_had_writer :: bool
  p_readers :: u16
  p_writers :: u16
  p_fifo_ino :: u64
  p_pages :: "u64 list"
  p_head :: u64
  p_len :: u64
  p_read_offset :: u64
  p_write_offset :: u64

text \<open>
  Calls into parts of the kernel that are not modelled. The last call of a log is the one a
  result of the environment answers.
\<close>

datatype kcall =
    VfsWrite vfs_node u64 "u8 list"
  | VfsRead vfs_node u64 u64
  | VfsRetainPage vfs_node u64
  | VfsReadPage vfs_node u64
  | VfsRefresh vfs_node
  | VfsAddSeals vfs_node u32
  | VfsGetSeals vfs_node
  | VfsNextDirent vfs_node u64
  | NetPoll
  | TtyReadable
  | FileReadable nat
  | FileWritable nat
  | FileHup nat
  | FileError nat
  | SocketWake nat
  | SocketReleaseListener nat
  | SocketRelease nat
  | PtyRelease nat
  | PtyOpenMaster u32 cstr
  | PtyOpenSlave u32 cstr
  | UnixReleaseRights nat

record kenv =
  env_int :: "kcall list \<Rightarrow> int"
  env_bool :: "kcall list \<Rightarrow> bool"
  env_bytes :: "kcall list \<Rightarrow> u8 list option"
  env_node :: "kcall list \<Rightarrow> vfs_node option"
  env_frame :: "kcall list \<Rightarrow> machine \<Rightarrow> u64 option \<times> machine"

text \<open>
  The kernel. \<open>k_cpu\<close> is the executing processor, \<open>k_current\<close> the thread each processor runs,
  and \<open>k_fp\<close>, \<open>k_tpidr\<close> and \<open>k_ttbr0\<close> are registers of the executing processor.
\<close>

record kernel =
  k_sys :: vma_sys
  k_mms :: "process_mm list"
  k_domains :: "domain list"
  k_threads :: "thread list"
  k_files :: "open_file list"
  k_pipes :: "pipe_obj list"
  k_next_domain_id :: int
  k_next_thread_id :: int
  k_ticks :: u64
  k_cpu :: nat
  k_current :: "nat option list"
  k_waiting :: "bool list"
  k_fp :: fp_state
  k_tpidr :: u64
  k_ttbr0 :: u64
  k_pipe_waking :: bool
  k_poll_waking :: bool
  k_epoll_waking :: bool
  k_calls :: "kcall list"
  k_env :: kenv

subsection \<open>Zeroed structures\<close>

definition zero_epoll_watch :: epoll_watch where
  "zero_epoll_watch = \<lparr>ew_used = False, ew_fd = 0, ew_events = 0, ew_data = 0\<rparr>"

definition zero_watch :: inotify_watch where
  "zero_watch = \<lparr>iw_used = False, iw_wd = 0, iw_mask = 0, iw_path = []\<rparr>"

definition zero_file :: open_file where
  "zero_file = \<lparr>of_used = False, of_refcount = 0, of_type = OPEN_NONE, of_offset = 0, of_flags = 0,
     of_pipe_id = 0, of_pipe_write_end = False, of_pty_id = 0, of_pty_master = False,
     of_unix_connected = False, of_unix_rx_pipe = 0, of_unix_tx_pipe = 0, of_path = [],
     of_node = zero_node, of_epoll_watches = replicate CELL_EPOLL_WATCH_CAP zero_epoll_watch,
     of_eventfd_value = 0, of_eventfd_semaphore = False,
     of_inotify_next_wd = 0, of_inotify_watches = replicate CELL_INOTIFY_WATCH_CAP zero_watch\<rparr>"

definition zero_frame :: trap_frame where
  "zero_frame = \<lparr>tf_x = replicate 31 0, sp_el0 = 0, elr_el1 = 0, spsr_el1 = 0, esr_el1 = 0, tf_pad = 0\<rparr>"

definition zero_fp :: fp_state where
  "zero_fp = \<lparr>fp_q = replicate 32 (replicate 16 0), fpcr = 0, fpsr = 0\<rparr>"

definition zero_as :: user_address_space where
  "zero_as = \<lparr>root_pa = 0, as_hhdm_offset = 0, brk_base = 0, brk_current = 0, mmap_base = 0, asid = 0\<rparr>"

definition zero_mm :: process_mm where
  "zero_mm = \<lparr>mm_used = False, mm_refcount = 0, mm_as = zero_as, mm_vmas = \<lparr>slots = [], chunk_pa = []\<rparr>\<rparr>"

definition zero_thread :: thread where
  "zero_thread = \<lparr>tid = 0, running_cpu = 0, th_domain = None, th_state = THREAD_UNUSED, th_tf = zero_frame,
     th_fp = zero_fp, tpidr_el0 = 0, th_wait_reason = WAIT_NONE, wait_target = 0, stdin_buf = 0, stdin_len = 0,
     pipe_buf = 0, pipe_len = 0, socket_addr = 0, socket_addrlen = 0, socket_accept_flags = 0,
     socket_write = False, socket_msg = False, socket_msg_addr = 0, socket_iov = 0, socket_iovlen = 0,
     socket_flags = 0, socket_has_deadline = False, socket_deadline_tick = 0, signal_mask = 0,
     pending_signals = 0, sigaltstack_sp = 0, sigaltstack_size = 0, sigaltstack_flags = 0,
     pipe_write = False, poll_kind = 0, poll_has_deadline = False, poll_deadline_tick = 0,
     sleep_deadline_tick = 0, poll_fds = 0, poll_nfds = 0, poll_readfds = 0, poll_writefds = 0,
     poll_exceptfds = 0, epoll_fd = 0, epoll_events = 0, epoll_maxevents = 0, clear_child_tid = 0,
     robust_list = 0, futex_addr = 0\<rparr>"

subsection \<open>Access to the tables\<close>

definition upd_domain :: "nat \<Rightarrow> (domain \<Rightarrow> domain) \<Rightarrow> kernel \<Rightarrow> kernel" where
  "upd_domain i f k = k\<lparr>k_domains := (k_domains k)[i := f (k_domains k ! i)]\<rparr>"

definition upd_thread :: "nat \<Rightarrow> (thread \<Rightarrow> thread) \<Rightarrow> kernel \<Rightarrow> kernel" where
  "upd_thread i f k = k\<lparr>k_threads := (k_threads k)[i := f (k_threads k ! i)]\<rparr>"

definition upd_file :: "nat \<Rightarrow> (open_file \<Rightarrow> open_file) \<Rightarrow> kernel \<Rightarrow> kernel" where
  "upd_file i f k = k\<lparr>k_files := (k_files k)[i := f (k_files k ! i)]\<rparr>"

definition upd_mm :: "nat \<Rightarrow> (process_mm \<Rightarrow> process_mm) \<Rightarrow> kernel \<Rightarrow> kernel" where
  "upd_mm i f k = k\<lparr>k_mms := (k_mms k)[i := f (k_mms k ! i)]\<rparr>"

definition upd_pipe :: "nat \<Rightarrow> (pipe_obj \<Rightarrow> pipe_obj) \<Rightarrow> kernel \<Rightarrow> kernel" where
  "upd_pipe i f k = k\<lparr>k_pipes := (k_pipes k)[i := f (k_pipes k ! i)]\<rparr>"

definition set_x :: "nat \<Rightarrow> u64 \<Rightarrow> thread \<Rightarrow> thread" where
  "set_x i v t = t\<lparr>th_tf := (th_tf t)\<lparr>tf_x := (tf_x (th_tf t))[i := v]\<rparr>\<rparr>"

definition note_call :: "kcall \<Rightarrow> kernel \<Rightarrow> kernel" where
  "note_call c k = k\<lparr>k_calls := k_calls k @ [c]\<rparr>"

definition ask_int :: "kcall \<Rightarrow> kernel \<Rightarrow> int \<times> kernel" where
  "ask_int c k = (env_int (k_env k) (k_calls k @ [c]), note_call c k)"

definition ask_bool :: "kcall \<Rightarrow> kernel \<Rightarrow> bool \<times> kernel" where
  "ask_bool c k = (env_bool (k_env k) (k_calls k @ [c]), note_call c k)"

definition ask_bytes :: "kcall \<Rightarrow> kernel \<Rightarrow> u8 list option \<times> kernel" where
  "ask_bytes c k = (env_bytes (k_env k) (k_calls k @ [c]), note_call c k)"

definition ask_node :: "kcall \<Rightarrow> kernel \<Rightarrow> vfs_node option \<times> kernel" where
  "ask_node c k = (env_node (k_env k) (k_calls k @ [c]), note_call c k)"

definition k_machine :: "kernel \<Rightarrow> machine" where
  "k_machine k = vs_machine (k_sys k)"

definition set_machine :: "machine \<Rightarrow> kernel \<Rightarrow> kernel" where
  "set_machine m k = k\<lparr>k_sys := (k_sys k)\<lparr>vs_machine := m\<rparr>\<rparr>"

definition ask_frame :: "kcall \<Rightarrow> kernel \<Rightarrow> u64 option \<times> kernel" where
  "ask_frame c k =
     (let (pa, m) = env_frame (k_env k) (k_calls k @ [c]) (k_machine k)
      in (pa, set_machine m (note_call c k)))"

text \<open>The call of a function that only reads and writes memory and page counts.\<close>

definition on_machine :: "(machine \<Rightarrow> 'a \<times> machine) \<Rightarrow> kernel \<Rightarrow> 'a \<times> kernel" where
  "on_machine f k = (let (r, m) = f (k_machine k) in (r, set_machine m k))"

text \<open>The slot functions return NULL beyond the table.\<close>

definition cell_domain_slot :: "nat \<Rightarrow> kernel \<Rightarrow> nat option" where
  "cell_domain_slot index k = (if index < length (k_domains k) then Some index else None)"

definition cell_thread_slot :: "nat \<Rightarrow> kernel \<Rightarrow> nat option" where
  "cell_thread_slot index k = (if index < length (k_threads k) then Some index else None)"

subsection \<open>Processors\<close>

definition smp_current_thread_slot :: "nat \<Rightarrow> kernel \<Rightarrow> nat option" where
  "smp_current_thread_slot cpu k = (if cpu < length (k_current k) then k_current k ! cpu else None)"

definition smp_set_current_thread_slot :: "nat \<Rightarrow> nat option \<Rightarrow> kernel \<Rightarrow> kernel" where
  "smp_set_current_thread_slot cpu t k =
     (if cpu < length (k_current k) then k\<lparr>k_current := (k_current k)[cpu := t]\<rparr> else k)"

definition smp_clear_current_thread_if :: "nat \<Rightarrow> nat option \<Rightarrow> kernel \<Rightarrow> kernel" where
  "smp_clear_current_thread_if cpu t k =
     (if cpu < length (k_current k) \<and> k_current k ! cpu = t then k\<lparr>k_current := (k_current k)[cpu := None]\<rparr> else k)"

definition smp_set_scheduler_waiting :: "nat \<Rightarrow> bool \<Rightarrow> kernel \<Rightarrow> kernel" where
  "smp_set_scheduler_waiting cpu w k =
     (if cpu < length (k_waiting k) then k\<lparr>k_waiting := (k_waiting k)[cpu := w]\<rparr> else k)"

definition smp_scheduler_waiting :: "nat \<Rightarrow> kernel \<Rightarrow> bool" where
  "smp_scheduler_waiting cpu k \<longleftrightarrow> cpu < length (k_waiting k) \<and> k_waiting k ! cpu"

definition cell_current_thread :: "kernel \<Rightarrow> nat option" where
  "cell_current_thread k = smp_current_thread_slot (k_cpu k) k"

definition cell_current_domain :: "kernel \<Rightarrow> nat option" where
  "cell_current_domain k =
     (case cell_current_thread k of None \<Rightarrow> None | Some t \<Rightarrow> th_domain (k_threads k ! t))"

end
