(* ===== verification/Kmemory.thy ===== *)
theory Kmemory
  imports Kernel "HOL-Library.Monad_Syntax"
begin

text \<open>
  Process memory, \<^verbatim>\<open>kernel/src/proc/memory.c\<close>: the table of reference-counted address
  spaces, demand paging and the area operations of the current domain. A domain pointer is
  \<^typ>\<open>nat option\<close>, the index of the domain or NULL. The loops over a range of addresses do not end
  when the address wraps; a function that runs one returns \<^const>\<open>None\<close> then.
\<close>

definition MAP_GROWSDOWN :: u32 where "MAP_GROWSDOWN = 0x100"
definition VMM_USER_READ :: u32 where "VMM_USER_READ = 1"

subsection \<open>The table of address spaces\<close>

text \<open>The page-granular allocation of a table, which each file of the process code defines.\<close>

definition alloc_table :: "nat \<Rightarrow> nat \<Rightarrow> machine \<Rightarrow> u64 option \<times> machine" where
  "alloc_table count elem_size m =
     (if count = 0 \<or> elem_size = 0 then (None, m)
      else let bytes = of_nat count * of_nat elem_size :: u64;
               pages = (bytes + PAGE_SIZE - 1) div PAGE_SIZE;
               (pm, pa) = pmm_alloc_contiguous_pages (unat pages) (mpmm m);
               m = m\<lparr>mpmm := pm\<rparr>
           in if pa = 0 then (None, m)
              else (Some pa, m\<lparr>phys := write_bytes pa (replicate (unat (pages * PAGE_SIZE)) 0) (phys m)\<rparr>))"

text \<open>
  Resetting a table of \<open>old\<close> entries to \<open>capacity\<close> zeroed ones of \<open>elem_size\<close> bytes: the common
  body of the reset functions. \<^const>\<open>None\<close> is failure.
\<close>

definition reset_table :: "nat \<Rightarrow> nat \<Rightarrow> nat \<Rightarrow> nat \<Rightarrow> 'a \<Rightarrow> kernel \<Rightarrow> 'a list option \<times> kernel" where
  "reset_table limit old elem_size capacity zero k =
     (if capacity = 0 \<or> capacity > limit then (None, k)
      else if old = 0 \<or> old \<noteq> capacity then
        (case on_machine (alloc_table capacity elem_size) k of
           (None, k) \<Rightarrow> (None, k)
         | (Some pa, k) \<Rightarrow> (Some (replicate capacity zero), k))
      else (Some (replicate capacity zero), k))"

definition cell_mm_reset :: "nat \<Rightarrow> nat \<Rightarrow> kernel \<Rightarrow> bool \<times> kernel" where
  "cell_mm_reset sizeof_mm capacity k =
     (case reset_table (MAX_DOMAINS + MAX_SNAPSHOTS) (length (k_mms k)) sizeof_mm capacity zero_mm k of
        (None, k) \<Rightarrow> (False, k)
      | (Some ms, k) \<Rightarrow> (True, k\<lparr>k_mms := ms\<rparr>))"

definition alloc_mm :: "kernel \<Rightarrow> nat option \<times> kernel" where
  "alloc_mm k =
     (case find (\<lambda>i. \<not> mm_used (k_mms k ! i)) [0..<length (k_mms k)] of
        None \<Rightarrow> (None, k)
      | Some i \<Rightarrow> (Some i, upd_mm i (\<lambda>_. zero_mm\<lparr>mm_used := True, mm_refcount := 1\<rparr>) k))"

text \<open>The caller's address space and area list are emptied on success.\<close>

definition cell_mm_from_owned :: "user_address_space option \<Rightarrow> vma_list option \<Rightarrow> kernel \<Rightarrow>
    nat option \<times> user_address_space option \<times> vma_list option \<times> kernel" where
  "cell_mm_from_owned as vmas k =
     (case alloc_mm k of
        (None, k) \<Rightarrow> (None, as, vmas, k)
      | (Some i, k) \<Rightarrow>
        (case (as, vmas) of
           (Some a, Some l) \<Rightarrow>
             (Some i, Some zero_as, Some vma_list_init, upd_mm i (\<lambda>mm. mm\<lparr>mm_as := a, mm_vmas := l\<rparr>) k)
         | _ \<Rightarrow> (None, as, vmas, upd_mm i (\<lambda>mm. mm\<lparr>mm_used := False\<rparr>) k)))"

definition vma_is_shared :: "vma \<Rightarrow> bool" where
  "vma_is_shared v \<longleftrightarrow> v_used v \<and> v_flags v AND MAP_SHARED \<noteq> 0"

fun restore_shared :: "user_address_space \<Rightarrow> user_address_space \<Rightarrow> vma list \<Rightarrow> machine \<Rightarrow>
    (bool \<times> machine) option" where
  "restore_shared src dst [] m = Some (True, m)"
| "restore_shared src dst (v # vs) m =
     (if \<not> vma_is_shared v then restore_shared src dst vs m
      else do {
        (ok, m) \<leftarrow> vmm_restore_shared_range src dst (v_start v) (v_end v) (v_prot v) m;
        if ok then restore_shared src dst vs m else Some (False, m)
      })"

text \<open>Destroying the partial copy \<open>i\<close>: its page tables, and its areas when they were copied.\<close>

definition drop_mm :: "nat \<Rightarrow> bool \<Rightarrow> kernel \<Rightarrow> kernel" where
  "drop_mm i areas k =
     (let (a, k) = on_machine (vmm_destroy (mm_as (k_mms k ! i))) k;
          k = upd_mm i (\<lambda>mm. mm\<lparr>mm_as := a\<rparr>) k;
          k = (if areas
               then let (s, l) = vma_list_destroy (k_sys k) (mm_vmas (k_mms k ! i))
                    in upd_mm i (\<lambda>mm. mm\<lparr>mm_vmas := l\<rparr>) (k\<lparr>k_sys := s\<rparr>)
               else k)
      in upd_mm i (\<lambda>mm. mm\<lparr>mm_used := False\<rparr>) k)"

definition cell_mm_clone_cow :: "nat option \<Rightarrow> kernel \<Rightarrow> (nat option \<times> kernel) option" where
  "cell_mm_clone_cow src k =
     (case src of
        None \<Rightarrow> Some (None, k)
      | Some j \<Rightarrow>
        if \<not> mm_used (k_mms k ! j) then Some (None, k)
        else (case alloc_mm k of
          (None, k) \<Rightarrow> Some (None, k)
        | (Some i, k) \<Rightarrow>
          let s = k_mms k ! j; (ok, dst, m) = vmm_clone_cow (mm_as s) 0 (k_machine k);
              k = set_machine m k;
              k = (case dst of None \<Rightarrow> k | Some a \<Rightarrow> upd_mm i (\<lambda>mm. mm\<lparr>mm_as := a\<rparr>) k)
          in if \<not> ok then Some (None, upd_mm i (\<lambda>mm. mm\<lparr>mm_used := False\<rparr>) k)
             else let (ok, sys, l) = vma_clone (k_sys k) (mm_vmas s);
                      k = upd_mm i (\<lambda>mm. mm\<lparr>mm_vmas := l\<rparr>) (k\<lparr>k_sys := sys\<rparr>)
                  in if \<not> ok then Some (None, drop_mm i False k)
                     else do {
                       (ok, m) \<leftarrow> restore_shared (mm_as s) (mm_as (k_mms k ! i)) (slots (mm_vmas s)) (k_machine k);
                       let k = set_machine m k;
                       if ok then Some (Some i, k) else Some (None, drop_mm i True k)
                     }))"

definition cell_mm_retain :: "nat option \<Rightarrow> kernel \<Rightarrow> nat option \<times> kernel" where
  "cell_mm_retain mm k =
     (case mm of
        None \<Rightarrow> (None, k)
      | Some i \<Rightarrow>
        (Some i, if mm_used (k_mms k ! i) then upd_mm i (\<lambda>mm. mm\<lparr>mm_refcount := mm_refcount mm + 1\<rparr>) k else k))"

subsection \<open>Writing back shared file mappings\<close>

definition vma_is_shared_writable_file :: "vma \<Rightarrow> bool" where
  "vma_is_shared_writable_file v \<longleftrightarrow>
     v_used v \<and> v_type v = VMA_FILE \<and> v_flags v AND MAP_SHARED \<noteq> 0 \<and> v_prot v AND VMM_USER_WRITE \<noteq> 0"

text \<open>One page of the flush loop; a failed write stops the loop.\<close>

definition flush_page :: "user_address_space \<Rightarrow> vma \<Rightarrow> u64 \<Rightarrow> bool \<times> kernel \<Rightarrow> bool \<times> kernel" where
  "flush_page as v page = (\<lambda>(ok, k).
     if \<not> ok then (ok, k)
     else let file_end = v_file_start v + v_file_size v
       in if page < v_file_start v \<or> page \<ge> file_end \<or> \<not> vmm_is_mapped as page (k_machine k) then (True, k)
       else let pa = vmm_user_to_phys as page (k_machine k) AND NOT (PAGE_SIZE - 1)
       in if pa = 0 then (True, k)
       else let file_off = v_file_offset v + (page - v_file_start v);
                chunk = (if page + PAGE_SIZE > file_end then file_end - page else PAGE_SIZE);
                (n, k) = ask_int (VfsWrite (v_file_node v) file_off (read_bytes (phys (k_machine k)) pa (unat chunk))) k
            in (n = uint chunk, k))"

definition flush_shared_file_vma_range :: "user_address_space \<Rightarrow> vma \<Rightarrow> u64 \<Rightarrow> u64 \<Rightarrow> kernel \<Rightarrow>
    (bool \<times> kernel) option" where
  "flush_shared_file_vma_range as v start end k =
     (if \<not> vma_is_shared_writable_file v then Some (True, k)
      else let flush_start = (if start > v_start v then start else v_start v);
               flush_end = (if end < v_end v then end else v_end v)
           in range_loop (flush_page as v) (flush_start AND NOT (PAGE_SIZE - 1)) flush_end (True, k))"

fun flush_vmas :: "user_address_space \<Rightarrow> vma list \<Rightarrow> u64 \<Rightarrow> u64 \<Rightarrow> kernel \<Rightarrow> (bool \<times> kernel) option" where
  "flush_vmas as [] start end k = Some (True, k)"
| "flush_vmas as (v # vs) start end k =
     (if \<not> v_used v \<or> v_end v \<le> start \<or> v_start v \<ge> end then flush_vmas as vs start end k
      else do {
        (ok, k) \<leftarrow> flush_shared_file_vma_range as v start end k;
        if ok then flush_vmas as vs start end k else Some (False, k)
      })"

definition flush_shared_file_vmas :: "nat \<Rightarrow> u64 \<Rightarrow> u64 \<Rightarrow> kernel \<Rightarrow> (bool \<times> kernel) option" where
  "flush_shared_file_vmas i start end k =
     (let mm = k_mms k ! i
      in if \<not> mm_used mm then Some (True, k) else flush_vmas (mm_as mm) (slots (mm_vmas mm)) start end k)"

definition cell_mm_release :: "nat option \<Rightarrow> kernel \<Rightarrow> kernel option" where
  "cell_mm_release mm k =
     (case mm of
        None \<Rightarrow> Some k
      | Some i \<Rightarrow>
        if \<not> mm_used (k_mms k ! i) \<or> mm_refcount (k_mms k ! i) = 0 then Some k
        else let k = upd_mm i (\<lambda>mm. mm\<lparr>mm_refcount := mm_refcount mm - 1\<rparr>) k
             in if mm_refcount (k_mms k ! i) \<noteq> 0 then Some k
                else do {
                  (ok, k) \<leftarrow> flush_shared_file_vmas i 0 (- 1) k;
                  Some (drop_mm i True k)
                })"

definition cell_domain_set_mm :: "nat option \<Rightarrow> nat option \<Rightarrow> kernel \<Rightarrow> (bool \<times> kernel) option" where
  "cell_domain_set_mm dp mm k =
     (case (dp, mm) of
        (Some d, Some i) \<Rightarrow>
          if \<not> mm_used (k_mms k ! i) then Some (False, k)
          else do {
            k \<leftarrow> cell_mm_release (dom_mm (k_domains k ! d)) k;
            Some (True, upd_domain d (\<lambda>x. x\<lparr>dom_mm := Some i\<rparr>) k)
          }
      | _ \<Rightarrow> Some (False, k))"

subsection \<open>The address space of a domain\<close>

definition domain_mm :: "nat option \<Rightarrow> kernel \<Rightarrow> nat option" where
  "domain_mm dp k = (case dp of None \<Rightarrow> None | Some d \<Rightarrow> dom_mm (k_domains k ! d))"

definition cell_domain_as :: "nat option \<Rightarrow> kernel \<Rightarrow> user_address_space option" where
  "cell_domain_as dp k = map_option (\<lambda>i. mm_as (k_mms k ! i)) (domain_mm dp k)"

definition cell_domain_vmas :: "nat option \<Rightarrow> kernel \<Rightarrow> vma_list option" where
  "cell_domain_vmas dp k = map_option (\<lambda>i. mm_vmas (k_mms k ! i)) (domain_mm dp k)"

text \<open>
  Running an area-list operation on the list of a domain; the operation reports success and
  the new system state and list. NULL is failure.
\<close>

definition with_vmas :: "nat option \<Rightarrow> (vma_sys \<Rightarrow> vma_list \<Rightarrow> bool \<times> vma_sys \<times> vma_list) \<Rightarrow> kernel \<Rightarrow>
    bool \<times> kernel" where
  "with_vmas dp f k =
     (case domain_mm dp k of
        None \<Rightarrow> (False, k)
      | Some i \<Rightarrow>
        let (ok, s, l) = f (k_sys k) (mm_vmas (k_mms k ! i))
        in (ok, upd_mm i (\<lambda>mm. mm\<lparr>mm_vmas := l\<rparr>) (k\<lparr>k_sys := s\<rparr>)))"

text \<open>
  The user-copy functions applied to the space of a domain. Every domain in use has a space; for
  a NULL one, which the code would dereference, the copy fails.
\<close>

definition copy_to_domain :: "nat option \<Rightarrow> u64 \<Rightarrow> u8 list \<Rightarrow> kernel \<Rightarrow> bool \<times> kernel" where
  "copy_to_domain dp va bs k =
     (case cell_domain_as dp k of
        None \<Rightarrow> (bs = [], k)
      | Some a \<Rightarrow> on_machine (vmm_copy_to_user a va bs) k)"

definition copy_from_domain :: "nat option \<Rightarrow> u64 \<Rightarrow> nat \<Rightarrow> kernel \<Rightarrow> u8 list option" where
  "copy_from_domain dp va n k =
     (case cell_domain_as dp k of
        None \<Rightarrow> (if n = 0 then Some [] else None)
      | Some a \<Rightarrow> vmm_copy_from_user a va n (k_machine k))"

subsection \<open>Demand paging\<close>

definition access_allowed :: "vma \<Rightarrow> vmm_access \<Rightarrow> bool" where
  "access_allowed v access =
     (case access of
        VMM_ACCESS_READ \<Rightarrow> v_prot v AND VMM_USER_READ \<noteq> 0
      | VMM_ACCESS_WRITE \<Rightarrow> v_prot v AND VMM_USER_WRITE \<noteq> 0
      | VMM_ACCESS_EXEC \<Rightarrow> v_prot v AND VMM_USER_EXEC \<noteq> 0)"

definition domain_access_allowed :: "vma option \<Rightarrow> vmm_access \<Rightarrow> bool" where
  "domain_access_allowed vo access =
     (case vo of
        None \<Rightarrow> False
      | Some v \<Rightarrow>
        if v_type v \<noteq> VMA_ANON \<and> v_type v \<noteq> VMA_STACK \<and> v_type v \<noteq> VMA_FILE then False
        else access_allowed v access)"

text \<open>
  The copy loop of \<^verbatim>\<open>fault_file_page\<close>: \<open>n\<close> bytes of the file from offset \<open>off\<close>, page by page,
  to the physical address \<open>dst\<close>.
\<close>

function file_copy_loop :: "vfs_node \<Rightarrow> u64 \<Rightarrow> u64 \<Rightarrow> nat \<Rightarrow> kernel \<Rightarrow> bool \<times> kernel" where
  "file_copy_loop node dst off n k =
     (if n = 0 then (True, k)
      else let file_page = off AND NOT (PAGE_SIZE - 1);
               chunk = min (page_room off) n
           in case ask_bytes (VfsReadPage node file_page) k of
                (None, k) \<Rightarrow> (False, k)
              | (Some page, k) \<Rightarrow>
                let m = k_machine k;
                    m = m\<lparr>phys := write_bytes dst (take chunk (drop (4096 - page_room off) page)) (phys m)\<rparr>
                in file_copy_loop node (dst + of_nat chunk) (off + of_nat chunk) (n - chunk) (set_machine m k))"
  by pat_completeness auto
termination
  by (relation "measure (\<lambda>(node, dst, off, n, k). n)") auto

definition private_copy :: "user_address_space \<Rightarrow> vma \<Rightarrow> u64 \<Rightarrow> kernel \<Rightarrow> bool \<times> kernel" where
  "private_copy as v page k =
     (let page_end = page + PAGE_SIZE; file_end = v_file_start v + v_file_size v;
          (m, pa) = pmm_alloc_zero_page (k_machine k); k = set_machine m k
      in if pa = 0 then (False, k)
      else let copy_start = (if page > v_file_start v then page else v_file_start v);
               copy_end = (if page_end < file_end then page_end else file_end);
               (ok, k) = (if copy_start < copy_end
                          then file_copy_loop (v_file_node v) (pa + (copy_start - page))
                                 (v_file_offset v + (copy_start - v_file_start v)) (unat (copy_end - copy_start)) k
                          else (True, k))
           in if \<not> ok then (False, set_machine (free_frame pa (k_machine k)) k)
              else let (ok, k) = on_machine (vmm_map_page as page pa (v_prot v)) k
                   in if \<not> ok then (False, set_machine (free_frame pa (k_machine k)) k) else (True, k))"

definition fault_file_page :: "nat option \<Rightarrow> vma \<Rightarrow> u64 \<Rightarrow> kernel \<Rightarrow> bool \<times> kernel" where
  "fault_file_page dp v page k =
     (case cell_domain_as dp k of
        None \<Rightarrow> (False, k)
      | Some as \<Rightarrow>
        if vmm_user_range_accessible as page 1 VMM_ACCESS_READ (k_machine k) \<and>
           (v_prot v AND VMM_USER_EXEC = 0 \<or> vmm_user_range_accessible as page 1 VMM_ACCESS_EXEC (k_machine k))
        then (True, k)
        else let page_end = page + PAGE_SIZE; file_end = v_file_start v + v_file_size v;
                 read_off = v_file_offset v + (page - v_file_start v)
             in if page \<ge> v_file_start v \<and> page_end \<le> file_end \<and> read_off AND (PAGE_SIZE - 1) = 0 then
                  (case ask_frame (VfsRetainPage (v_file_node v) read_off) k of
                     (None, k) \<Rightarrow> (False, k)
                   | (Some pa, k) \<Rightarrow>
                     let private_writable = (v_flags v AND MAP_SHARED = 0 \<and> v_prot v AND VMM_USER_WRITE \<noteq> 0);
                         (mapped, k) = on_machine (if private_writable then vmm_map_page_cow as page pa (v_prot v)
                                                   else vmm_map_page as page pa (v_prot v)) k
                     in if \<not> mapped then (False, set_machine (free_frame pa (k_machine k)) k) else (True, k))
                else private_copy as v page k)"

definition note_fault :: "nat option \<Rightarrow> bool \<Rightarrow> kernel \<Rightarrow> kernel" where
  "note_fault dp major k =
     (case dp of
        None \<Rightarrow> k
      | Some d \<Rightarrow>
        upd_domain d (\<lambda>x. if major then x\<lparr>major_faults := major_faults x + 1\<rparr>
                            else x\<lparr>minor_faults := minor_faults x + 1\<rparr>) k)"

text \<open>Growth applies to the current domain, whichever domain the caller works for.\<close>

definition cell_grow_down_vma :: "u64 \<Rightarrow> u32 \<Rightarrow> kernel \<Rightarrow> vma option \<times> kernel" where
  "cell_grow_down_vma page required_flags k =
     (case domain_mm (cell_current_domain k) k of
        None \<Rightarrow> (None, k)
      | Some i \<Rightarrow>
        let (ok, l, grown) = vma_grow_down (mm_vmas (k_mms k ! i)) page required_flags
        in if ok then (grown, upd_mm i (\<lambda>mm. mm\<lparr>mm_vmas := l\<rparr>) k) else (None, k))"

definition lookup_or_grow :: "vma_list \<Rightarrow> u64 \<Rightarrow> kernel \<Rightarrow> vma option \<times> kernel" where
  "lookup_or_grow vmas page k =
     (case vma_lookup vmas page of Some v \<Rightarrow> (Some v, k) | None \<Rightarrow> cell_grow_down_vma page MAP_GROWSDOWN k)"

text \<open>One page of \<^verbatim>\<open>cell_domain_ensure_user_range\<close>: map it if it is not, resolve copy on write, and test.\<close>

definition ensure_mapped :: "nat option \<Rightarrow> user_address_space \<Rightarrow> u64 \<Rightarrow> vmm_access \<Rightarrow> kernel \<Rightarrow> bool \<times> kernel" where
  "ensure_mapped dp as page access k =
     (if vmm_is_mapped as page (k_machine k) then (True, k)
      else case cell_domain_vmas dp k of
        None \<Rightarrow> (False, k)
      | Some vmas \<Rightarrow>
        (case lookup_or_grow vmas page k of
           (vo, k) \<Rightarrow>
           if \<not> domain_access_allowed vo access then (False, k)
           else (case vo of
              None \<Rightarrow> (False, k)
            | Some v \<Rightarrow>
              if v_type v = VMA_FILE then
                let (ok, k) = fault_file_page dp v page k in if ok then (True, note_fault dp True k) else (False, k)
              else
                let (ok, k) = on_machine (vmm_alloc_page as page (v_prot v)) k
                in if ok then (True, note_fault dp False k) else (False, k))))"

definition ensure_page :: "nat option \<Rightarrow> user_address_space \<Rightarrow> vmm_access \<Rightarrow> u64 \<Rightarrow> kernel \<Rightarrow> bool \<times> kernel" where
  "ensure_page dp as access page k =
     (case ensure_mapped dp as page access k of
        (False, k) \<Rightarrow> (False, k)
      | (True, k) \<Rightarrow>
        let (ok, k) = (if access = VMM_ACCESS_WRITE \<and> \<not> vmm_user_range_accessible as page 1 VMM_ACCESS_WRITE (k_machine k)
                       then let (ok, k) = on_machine (vmm_handle_cow_fault as page) k
                            in if ok then (True, note_fault dp False k) else (False, k)
                       else (True, k))
        in (ok \<and> vmm_user_range_accessible as page 1 access (k_machine k), k))"

fun ensure_pages :: "nat option \<Rightarrow> user_address_space \<Rightarrow> vmm_access \<Rightarrow> u64 list \<Rightarrow> kernel \<Rightarrow> bool \<times> kernel" where
  "ensure_pages dp as access [] k = (True, k)"
| "ensure_pages dp as access (page # ps) k =
     (case ensure_page dp as access page k of
        (False, k) \<Rightarrow> (False, k)
      | (True, k) \<Rightarrow> ensure_pages dp as access ps k)"

definition cell_domain_ensure_user_range :: "nat option \<Rightarrow> u64 \<Rightarrow> nat \<Rightarrow> vmm_access \<Rightarrow> kernel \<Rightarrow> bool \<times> kernel" where
  "cell_domain_ensure_user_range dp va len access k =
     (if dp = None \<or> len = 0 then (True, k)
      else case cell_domain_as dp k of
        None \<Rightarrow> (False, k)
      | Some as \<Rightarrow>
        let end = va + of_nat len - 1
        in if end < va then (False, k)
           else ensure_pages dp as access (pages_between (page_base va) (page_base end)) k)"

definition cell_ensure_user_range :: "u64 \<Rightarrow> nat \<Rightarrow> vmm_access \<Rightarrow> kernel \<Rightarrow> bool \<times> kernel" where
  "cell_ensure_user_range va len access k = cell_domain_ensure_user_range (cell_current_domain k) va len access k"

definition cell_handle_cow_fault :: "u64 \<Rightarrow> kernel \<Rightarrow> bool \<times> kernel" where
  "cell_handle_cow_fault far k =
     (let dp = cell_current_domain k
      in case cell_domain_as dp k of
           None \<Rightarrow> (False, k)
         | Some as \<Rightarrow>
           let (ok, k) = on_machine (vmm_handle_cow_fault as far) k
           in if ok then (True, note_fault dp False k) else (False, k))"

definition cell_handle_translation_fault :: "u64 \<Rightarrow> vmm_access \<Rightarrow> kernel \<Rightarrow> bool \<times> kernel" where
  "cell_handle_translation_fault far access k =
     (let dp = cell_current_domain k
      in case (cell_domain_as dp k, cell_domain_vmas dp k) of
           (Some as, Some vmas) \<Rightarrow>
             let va = far AND NOT (PAGE_SIZE - 1); (vo, k) = lookup_or_grow vmas va k
             in (case vo of
                   None \<Rightarrow> (False, k)
                 | Some v \<Rightarrow>
                   if \<not> access_allowed v access then (False, k)
                   else if vmm_user_range_accessible as va 1 access (k_machine k) then (True, k)
                   else if v_type v = VMA_FILE then
                     let (ok, k) = fault_file_page dp v va k in if ok then (True, note_fault dp True k) else (False, k)
                   else if v_type v \<noteq> VMA_ANON \<and> v_type v \<noteq> VMA_STACK then (False, k)
                   else let (ok, k) = on_machine (vmm_alloc_page as va (v_prot v)) k
                        in if ok then (True, note_fault dp False k) else (False, k))
         | _ \<Rightarrow> (False, k))"

definition cell_handle_permission_fault :: "u64 \<Rightarrow> vmm_access \<Rightarrow> kernel \<Rightarrow> (bool \<times> kernel) option" where
  "cell_handle_permission_fault far access k =
     (let dp = cell_current_domain k
      in case (cell_domain_as dp k, cell_domain_vmas dp k) of
           (Some as, Some vmas) \<Rightarrow>
             let va = far AND NOT (PAGE_SIZE - 1)
             in (case vma_lookup vmas va of
                   None \<Rightarrow> Some (False, k)
                 | Some v \<Rightarrow>
                   if \<not> access_allowed v access \<or> \<not> vmm_is_mapped as va (k_machine k) then Some (False, k)
                   else do {
                     m \<leftarrow> vmm_protect_range as va (va + PAGE_SIZE) (v_prot v) (k_machine k);
                     Some (vmm_user_range_accessible as va 1 access m, set_machine m k)
                   })
         | _ \<Rightarrow> Some (False, k))"

subsection \<open>Area operations of the current domain\<close>

definition cell_add_vma_typed :: "u64 \<Rightarrow> u64 \<Rightarrow> u32 \<Rightarrow> u32 \<Rightarrow> vma_type \<Rightarrow> kernel \<Rightarrow> bool \<times> kernel" where
  "cell_add_vma_typed start end prot flags type k =
     with_vmas (cell_current_domain k) (\<lambda>s l. vma_insert s l start end prot flags type) k"

definition cell_add_vma :: "u64 \<Rightarrow> u64 \<Rightarrow> u32 \<Rightarrow> u32 \<Rightarrow> kernel \<Rightarrow> bool \<times> kernel" where
  "cell_add_vma start end prot flags k = cell_add_vma_typed start end prot flags VMA_ANON k"

text \<open>One page of the prefault loop; the flag tells that the loop goes on.\<close>

definition prefault_page :: "nat option \<Rightarrow> user_address_space \<Rightarrow> vma \<Rightarrow> u64 \<Rightarrow> u64 \<Rightarrow> (bool \<times> kernel) option \<Rightarrow>
    (bool \<times> kernel) option" where
  "prefault_page dp as v start page st =
     do {
       (ok, k) \<leftarrow> st;
       if \<not> ok \<or> vmm_is_mapped as page (k_machine k) then Some (ok, k)
       else let (ok, k) = on_machine (vmm_alloc_page as page (v_prot v)) k
            in if ok then Some (True, note_fault dp False k)
               else do { m \<leftarrow> vmm_unmap_range as start page (k_machine k); Some (False, set_machine m k) }
     }"

definition cell_prefault_anon_vma :: "u64 \<Rightarrow> u64 \<Rightarrow> kernel \<Rightarrow> (bool \<times> kernel) option" where
  "cell_prefault_anon_vma start end k =
     (let dp = cell_current_domain k
      in case (cell_domain_as dp k, cell_domain_vmas dp k) of
           (Some as, Some vmas) \<Rightarrow>
             if start \<ge> end then Some (False, k)
             else (case vma_lookup_range vmas start end of
               None \<Rightarrow> Some (False, k)
             | Some v \<Rightarrow>
               if v_type v \<noteq> VMA_ANON then Some (False, k)
               else do { st \<leftarrow> range_loop (prefault_page dp as v start) start end (Some (True, k)); st })
         | _ \<Rightarrow> Some (False, k))"

definition cell_add_file_vma :: "u64 \<Rightarrow> u64 \<Rightarrow> u32 \<Rightarrow> u32 \<Rightarrow> vfs_node option \<Rightarrow> u64 \<Rightarrow> u64 \<Rightarrow> u64 \<Rightarrow> kernel \<Rightarrow>
    bool \<times> kernel" where
  "cell_add_file_vma start end prot flags node file_start file_offset file_size k =
     with_vmas (cell_current_domain k)
       (\<lambda>s l. vma_insert_file s l start end prot flags node file_start file_offset file_size) k"

definition cell_vma_overlaps :: "u64 \<Rightarrow> u64 \<Rightarrow> kernel \<Rightarrow> bool" where
  "cell_vma_overlaps start end k =
     (case cell_domain_vmas (cell_current_domain k) k of None \<Rightarrow> True | Some l \<Rightarrow> vma_overlaps l start end)"

definition cell_vma_lookup_range :: "u64 \<Rightarrow> u64 \<Rightarrow> kernel \<Rightarrow> vma option" where
  "cell_vma_lookup_range start end k =
     (case cell_domain_vmas (cell_current_domain k) k of None \<Rightarrow> None | Some l \<Rightarrow> vma_lookup_range l start end)"

definition cell_remove_vma :: "u64 \<Rightarrow> u64 \<Rightarrow> kernel \<Rightarrow> (bool \<times> kernel) option" where
  "cell_remove_vma start end k =
     (let dp = cell_current_domain k
      in case domain_mm dp k of
           None \<Rightarrow> Some (False, k)
         | Some i \<Rightarrow> do {
             (ok, k) \<leftarrow> flush_shared_file_vmas i start end k;
             if \<not> ok then Some (False, k)
             else do {
               m \<leftarrow> vmm_unmap_range (mm_as (k_mms k ! i)) start end (k_machine k);
               Some (with_vmas dp (\<lambda>s l. vma_remove s l start end) (set_machine m k))
             }
           })"

definition cell_sync_shared_vmas :: "u64 \<Rightarrow> u64 \<Rightarrow> kernel \<Rightarrow> (bool \<times> kernel) option" where
  "cell_sync_shared_vmas start end k =
     (case domain_mm (cell_current_domain k) k of
        None \<Rightarrow> Some (False, k)
      | Some i \<Rightarrow> if start \<ge> end then Some (False, k) else flush_shared_file_vmas i start end k)"

definition cell_protect_vma :: "u64 \<Rightarrow> u64 \<Rightarrow> u32 \<Rightarrow> kernel \<Rightarrow> (bool \<times> kernel) option" where
  "cell_protect_vma start end prot k =
     (let dp = cell_current_domain k
      in case cell_domain_as dp k of
           None \<Rightarrow> Some (False, k)
         | Some as \<Rightarrow>
           (case with_vmas dp (\<lambda>s l. vma_protect s l start end prot) k of
              (False, k) \<Rightarrow> Some (False, k)
            | (True, k) \<Rightarrow> do {
                m \<leftarrow> vmm_protect_range as start end prot (k_machine k);
                Some (True, set_machine m k)
              }))"

definition cell_resident_pages :: "u64 \<Rightarrow> u64 \<Rightarrow> kernel \<Rightarrow> nat option" where
  "cell_resident_pages start end k =
     (case cell_domain_as (cell_current_domain k) k of
        None \<Rightarrow> Some 0
      | Some as \<Rightarrow> vmm_mapped_pages_in_range as start end (k_machine k))"

record cell_memory_accounting =
  virtual_pages :: u64
  resident_pages :: u64
  acct_minor_faults :: u64
  acct_major_faults :: u64

fun count_resident :: "user_address_space \<Rightarrow> vma list \<Rightarrow> u64 \<Rightarrow> machine \<Rightarrow> u64 option" where
  "count_resident as [] n m = Some n"
| "count_resident as (v # vs) n m =
     (if v_used v then do {
        p \<leftarrow> vmm_mapped_pages_in_range as (v_start v) (v_end v) m;
        count_resident as vs (n + of_nat p) m
      } else count_resident as vs n m)"

text \<open>The outer option is not returning, the inner one failure.\<close>

definition cell_memory_accounting_of :: "nat option \<Rightarrow> kernel \<Rightarrow> cell_memory_accounting option option" where
  "cell_memory_accounting_of dp k =
     (case dp of
        None \<Rightarrow> Some None
      | Some d \<Rightarrow>
        let x = k_domains k ! d
        in if \<not> dom_used x then Some None
           else (case (cell_domain_as dp k, cell_domain_vmas dp k) of
             (Some as, Some l) \<Rightarrow> do {
               n \<leftarrow> count_resident as (slots l) 0 (k_machine k);
               Some (Some \<lparr>virtual_pages = vma_virtual_pages l, resident_pages = n,
                 acct_minor_faults = minor_faults x, acct_major_faults = major_faults x\<rparr>)
             }
           | _ \<Rightarrow> Some None))"

declare file_copy_loop.simps [simp del]

end
