(* ===== verification/Kpipe.thy ===== *)
theory Kpipe
  imports Kmemory
begin

text \<open>
  Pipe objects, the first part of \<^verbatim>\<open>kernel/src/proc/pipe.c\<close>: allocation of a pipe and its sixteen
  pages, the reader and writer counts, and the readiness tests. The table has sixteen entries.
\<close>

definition PIPE_BUF :: u64 where "PIPE_BUF = 4096"
definition PIPE_CAP :: u64 where "PIPE_CAP = 65536"
definition PIPE_PAGES :: nat where "PIPE_PAGES = 16"
definition PIPE_COUNT :: nat where "PIPE_COUNT = 16"

definition zero_pipe :: pipe_obj where
  "zero_pipe = \<lparr>p_used = False, p_had_writer = False, p_readers = 0, p_writers = 0, p_fifo_ino = 0,
     p_pages = replicate PIPE_PAGES 0, p_head = 0, p_len = 0, p_read_offset = 0, p_write_offset = 0\<rparr>"

definition pipe_for_id :: "u8 \<Rightarrow> kernel \<Rightarrow> nat option" where
  "pipe_for_id pipe_id k =
     (if unat pipe_id \<ge> length (k_pipes k) \<or> \<not> p_used (k_pipes k ! unat pipe_id) then None
      else Some (unat pipe_id))"

definition pipe_for_file :: "open_file \<Rightarrow> kernel \<Rightarrow> nat option" where
  "pipe_for_file file k = (if of_type file \<noteq> OPEN_PIPE then None else pipe_for_id (of_pipe_id file) k)"

subsection \<open>Storage\<close>

definition free_pages :: "u64 list \<Rightarrow> machine \<Rightarrow> machine" where
  "free_pages ps m = fold (\<lambda>pa m. if pa \<noteq> 0 then free_frame pa m else m) ps m"

definition pipe_free_storage :: "nat \<Rightarrow> kernel \<Rightarrow> kernel" where
  "pipe_free_storage i k =
     upd_pipe i (\<lambda>p. p\<lparr>p_pages := replicate PIPE_PAGES 0\<rparr>)
       (set_machine (free_pages (p_pages (k_pipes k ! i)) (k_machine k)) k)"

definition pipe_destroy :: "nat \<Rightarrow> kernel \<Rightarrow> kernel" where
  "pipe_destroy i k =
     upd_pipe i (\<lambda>_. zero_pipe) (pipe_free_storage i (note_call (UnixReleaseRights i) k))"

fun alloc_pages :: "nat list \<Rightarrow> nat \<Rightarrow> kernel \<Rightarrow> bool \<times> kernel" where
  "alloc_pages [] i k = (True, k)"
| "alloc_pages (j # js) i k =
     (let (m, pa) = pmm_alloc_zero_page (k_machine k);
          k = upd_pipe i (\<lambda>p. p\<lparr>p_pages := (p_pages p)[j := pa]\<rparr>) (set_machine m k)
      in if pa = 0 then (False, pipe_free_storage i k) else alloc_pages js i k)"

definition pipe_alloc_storage :: "nat \<Rightarrow> kernel \<Rightarrow> bool \<times> kernel" where
  "pipe_alloc_storage i k = alloc_pages [0..<PIPE_PAGES] i k"

text \<open>The physical address of position \<open>pos\<close> of the ring.\<close>

definition pipe_data_ptr :: "pipe_obj \<Rightarrow> nat option \<Rightarrow> u64 \<Rightarrow> kernel \<Rightarrow> u64 option" where
  "pipe_data_ptr p dp pos k =
     (if dp = None \<or> pos \<ge> PIPE_CAP then None
      else let page = unat (pos div PAGE_SIZE); off = pos mod PAGE_SIZE
           in if page \<ge> PIPE_PAGES \<or> p_pages p ! page = 0 then None
              else if cell_domain_as dp k = None then None
              else Some (p_pages p ! page + off))"

definition cell_alloc_pipe_obj :: "u64 \<Rightarrow> kernel \<Rightarrow> int \<times> kernel" where
  "cell_alloc_pipe_obj fifo_ino k =
     (case find (\<lambda>i. \<not> p_used (k_pipes k ! i)) [0..<length (k_pipes k)] of
        None \<Rightarrow> (- 1, k)
      | Some i \<Rightarrow>
        let (ok, k) = pipe_alloc_storage i (upd_pipe i (\<lambda>_. zero_pipe) k)
        in if \<not> ok then (- 1, k)
           else (int i, upd_pipe i (\<lambda>p. p\<lparr>p_used := True, p_fifo_ino := fifo_ino, p_had_writer := (fifo_ino = 0)\<rparr>) k))"

definition cell_pipe_free :: "u8 \<Rightarrow> kernel \<Rightarrow> kernel" where
  "cell_pipe_free pipe_id k = (if unat pipe_id < length (k_pipes k) then pipe_destroy (unat pipe_id) k else k)"

definition cell_pipe_reset :: "kernel \<Rightarrow> kernel" where
  "cell_pipe_reset k = fold pipe_destroy [0..<length (k_pipes k)] k"

definition cell_fifo_pipe_for_ino :: "u64 \<Rightarrow> bool \<Rightarrow> kernel \<Rightarrow> int \<times> kernel" where
  "cell_fifo_pipe_for_ino i create k =
     (if i = 0 then (- 1, k)
      else case find (\<lambda>j. p_used (k_pipes k ! j) \<and> p_fifo_ino (k_pipes k ! j) = i) [0..<length (k_pipes k)] of
        Some j \<Rightarrow> (int j, k)
      | None \<Rightarrow> if create then cell_alloc_pipe_obj i k else (- 1, k))"

subsection \<open>Readers and writers\<close>

definition cell_pipe_has_readers :: "u8 \<Rightarrow> kernel \<Rightarrow> bool" where
  "cell_pipe_has_readers pipe_id k =
     (case pipe_for_id pipe_id k of None \<Rightarrow> False | Some i \<Rightarrow> p_readers (k_pipes k ! i) \<noteq> 0)"

definition cell_pipe_add_reader :: "u8 \<Rightarrow> kernel \<Rightarrow> kernel" where
  "cell_pipe_add_reader pipe_id k =
     (case pipe_for_id pipe_id k of None \<Rightarrow> k | Some i \<Rightarrow> upd_pipe i (\<lambda>p. p\<lparr>p_readers := p_readers p + 1\<rparr>) k)"

definition cell_pipe_add_writer :: "u8 \<Rightarrow> kernel \<Rightarrow> kernel" where
  "cell_pipe_add_writer pipe_id k =
     (case pipe_for_id pipe_id k of
        None \<Rightarrow> k
      | Some i \<Rightarrow> upd_pipe i (\<lambda>p. p\<lparr>p_writers := p_writers p + 1, p_had_writer := True\<rparr>) k)"

definition pipe_reap :: "nat \<Rightarrow> kernel \<Rightarrow> kernel" where
  "pipe_reap i k =
     (if p_readers (k_pipes k ! i) = 0 \<and> p_writers (k_pipes k ! i) = 0 then pipe_destroy i k else k)"

definition dec_readers :: "pipe_obj \<Rightarrow> pipe_obj" where
  "dec_readers p = (if p_readers p > 0 then p\<lparr>p_readers := p_readers p - 1\<rparr> else p)"

definition dec_writers :: "pipe_obj \<Rightarrow> pipe_obj" where
  "dec_writers p = (if p_writers p > 0 then p\<lparr>p_writers := p_writers p - 1\<rparr> else p)"

definition cell_pipe_drop_reader :: "u8 \<Rightarrow> kernel \<Rightarrow> kernel" where
  "cell_pipe_drop_reader pipe_id k =
     (case pipe_for_id pipe_id k of None \<Rightarrow> k | Some i \<Rightarrow> pipe_reap i (upd_pipe i dec_readers k))"

definition cell_pipe_drop_writer :: "u8 \<Rightarrow> kernel \<Rightarrow> kernel" where
  "cell_pipe_drop_writer pipe_id k =
     (case pipe_for_id pipe_id k of None \<Rightarrow> k | Some i \<Rightarrow> pipe_reap i (upd_pipe i dec_writers k))"

definition cell_pipe_release_file :: "open_file \<Rightarrow> kernel \<Rightarrow> bool \<times> kernel" where
  "cell_pipe_release_file file k =
     (case pipe_for_file file k of
        None \<Rightarrow> (False, k)
      | Some i \<Rightarrow> (True, pipe_reap i (upd_pipe i (if of_pipe_write_end file then dec_writers else dec_readers) k)))"

subsection \<open>Readiness\<close>

definition cell_pipe_file_readable :: "open_file \<Rightarrow> kernel \<Rightarrow> bool" where
  "cell_pipe_file_readable file k =
     (case pipe_for_file file k of
        None \<Rightarrow> False
      | Some i \<Rightarrow> let p = k_pipes k ! i in \<not> of_pipe_write_end file \<and> (p_len p \<noteq> 0 \<or> p_writers p = 0))"

definition cell_pipe_file_writable :: "open_file \<Rightarrow> kernel \<Rightarrow> bool" where
  "cell_pipe_file_writable file k =
     (case pipe_for_file file k of
        None \<Rightarrow> False
      | Some i \<Rightarrow> let p = k_pipes k ! i in of_pipe_write_end file \<and> p_readers p \<noteq> 0 \<and> p_len p < PIPE_CAP)"

definition cell_pipe_file_hup :: "open_file \<Rightarrow> kernel \<Rightarrow> bool" where
  "cell_pipe_file_hup file k =
     (case pipe_for_file file k of
        None \<Rightarrow> False
      | Some i \<Rightarrow> \<not> of_pipe_write_end file \<and> p_writers (k_pipes k ! i) = 0)"

definition cell_pipe_id_readable :: "u8 \<Rightarrow> kernel \<Rightarrow> bool" where
  "cell_pipe_id_readable pipe_id k =
     (case pipe_for_id pipe_id k of
        None \<Rightarrow> False
      | Some i \<Rightarrow> p_len (k_pipes k ! i) \<noteq> 0 \<or> p_writers (k_pipes k ! i) = 0)"

definition cell_pipe_id_writable :: "u8 \<Rightarrow> kernel \<Rightarrow> bool" where
  "cell_pipe_id_writable pipe_id k =
     (case pipe_for_id pipe_id k of
        None \<Rightarrow> False
      | Some i \<Rightarrow> p_readers (k_pipes k ! i) \<noteq> 0 \<and> p_len (k_pipes k ! i) < PIPE_CAP)"

definition cell_pipe_id_hup :: "u8 \<Rightarrow> kernel \<Rightarrow> bool" where
  "cell_pipe_id_hup pipe_id k =
     (case pipe_for_id pipe_id k of None \<Rightarrow> False | Some i \<Rightarrow> p_writers (k_pipes k ! i) = 0)"

definition cell_pipe_id_read_offset :: "u8 \<Rightarrow> kernel \<Rightarrow> u64 option" where
  "cell_pipe_id_read_offset pipe_id k = map_option (\<lambda>i. p_read_offset (k_pipes k ! i)) (pipe_for_id pipe_id k)"

definition cell_pipe_id_write_offset :: "u8 \<Rightarrow> kernel \<Rightarrow> u64 option" where
  "cell_pipe_id_write_offset pipe_id k = map_option (\<lambda>i. p_write_offset (k_pipes k ! i)) (pipe_for_id pipe_id k)"

end
