(* ===== verification/Kpoll.thy ===== *)
theory Kpoll
  imports Kpipe
begin

text \<open>
  Waiting for files to become ready, the waking half of \<^verbatim>\<open>kernel/src/proc/poll.c\<close>. Whether a socket or a
  terminal is ready is asked of the environment. The readiness of an epoll file is computed by
  recursion over the files it watches, which does not return when an epoll file watches itself;
  the depth bound below is larger than the number of open files, so running out of it is a
  repeated file and stands for not returning.
\<close>

definition CELL_POLLIN :: u32 where "CELL_POLLIN = 1"
definition CELL_POLLOUT :: u32 where "CELL_POLLOUT = 4"
definition CELL_POLLERR :: u32 where "CELL_POLLERR = 8"
definition CELL_POLLHUP :: u32 where "CELL_POLLHUP = 16"
definition CELL_POLLNVAL :: u32 where "CELL_POLLNVAL = 32"
definition CELL_POLL_ANY :: u32 where
  "CELL_POLL_ANY = CELL_POLLIN OR CELL_POLLOUT OR CELL_POLLERR OR CELL_POLLHUP OR CELL_POLLNVAL"
definition CELL_MAX_POLL_FDS :: u64 where "CELL_MAX_POLL_FDS = 64"

text \<open>The open file of a descriptor: the guard most operations on descriptors start with.\<close>

definition fd_file :: "nat option \<Rightarrow> int \<Rightarrow> kernel \<Rightarrow> nat option" where
  "fd_file dp fd k =
     (case dp of
        None \<Rightarrow> None
      | Some d \<Rightarrow> if fd < 0 \<or> fd \<ge> int MAX_FDS then None else fds (k_domains k ! d) ! nat fd)"

definition raise_if :: "bool \<Rightarrow> u32 \<Rightarrow> u32 \<Rightarrow> u32" where
  "raise_if b e revents = (if b then revents OR e else revents)"

text \<open>The error and hang-up conditions.\<close>

definition poll_conditions :: "nat \<Rightarrow> kernel \<Rightarrow> u32 \<times> kernel" where
  "poll_conditions i k =
     (let f = k_files k ! i;
          (err, k) = (if of_type f = OPEN_SOCKET then ask_bool (FileError i) k else (False, k));
          r = raise_if err CELL_POLLERR 0;
          r = raise_if (of_type f = OPEN_PIPE \<and> cell_pipe_file_hup f k) CELL_POLLHUP r;
          (hup, k) = (if of_type f = OPEN_PTY then ask_bool (FileHup i) k else (False, k));
          r = raise_if hup CELL_POLLHUP r
      in (raise_if (of_type f = OPEN_UNIX_STREAM \<and> of_unix_connected f \<and> cell_pipe_id_hup (of_unix_rx_pipe f) k)
            CELL_POLLHUP r, k))"

text \<open>Readable, for every type but an epoll file.\<close>

definition poll_in :: "nat \<Rightarrow> kernel \<Rightarrow> bool \<times> kernel" where
  "poll_in i k =
     (let f = k_files k ! i
      in if of_type f = OPEN_STDIN \<or>
            of_type f = OPEN_RAMFS \<and> (device (of_node f) = RAMFS_DEV_TTY \<or> device (of_node f) = RAMFS_DEV_CONSOLE)
         then ask_bool TtyReadable k
         else case of_type f of
           OPEN_SOCKET \<Rightarrow> ask_bool (FileReadable i) (note_call NetPoll k)
         | OPEN_PIPE \<Rightarrow> (cell_pipe_file_readable f k, k)
         | OPEN_PTY \<Rightarrow> ask_bool (FileReadable i) k
         | OPEN_UNIX_LISTENER \<Rightarrow> ask_bool (FileReadable i) k
         | OPEN_UNIX_STREAM \<Rightarrow> (of_unix_connected f \<and> cell_pipe_id_readable (of_unix_rx_pipe f) k, k)
         | OPEN_RAMFS \<Rightarrow> (True, k)
         | OPEN_EVENTFD \<Rightarrow> (of_eventfd_value f \<noteq> 0, k)
         | _ \<Rightarrow> (False, k))"

definition poll_out :: "nat \<Rightarrow> kernel \<Rightarrow> bool \<times> kernel" where
  "poll_out i k =
     (let f = k_files k ! i
      in if of_type f \<in> {OPEN_STDOUT, OPEN_STDIN, OPEN_RAMFS, OPEN_EPOLL, OPEN_EVENTFD} then (True, k)
         else case of_type f of
           OPEN_SOCKET \<Rightarrow> ask_bool (FileWritable i) k
         | OPEN_PIPE \<Rightarrow> (cell_pipe_file_writable f k, k)
         | OPEN_PTY \<Rightarrow> ask_bool (FileWritable i) k
         | OPEN_UNIX_STREAM \<Rightarrow> (of_unix_connected f \<and> cell_pipe_id_writable (of_unix_tx_pipe f) k, k)
         | _ \<Rightarrow> (False, k))"

text \<open>The loop over the watches of an epoll file, which stops at the first ready one.\<close>

fun any_ready :: "(int \<Rightarrow> u32 \<Rightarrow> kernel \<Rightarrow> (u32 \<times> kernel) option) \<Rightarrow> epoll_watch list \<Rightarrow> kernel \<Rightarrow>
    (bool \<times> kernel) option" where
  "any_ready events [] k = Some (False, k)"
| "any_ready events (w # ws) k =
     (if \<not> ew_used w then any_ready events ws k
      else do {
        (ready, k) \<leftarrow> events (ew_fd w) (ew_events w) k;
        if ready AND CELL_POLL_ANY \<noteq> 0 then Some (True, k) else any_ready events ws k
      })"

primrec poll_events_depth :: "nat \<Rightarrow> nat option \<Rightarrow> int \<Rightarrow> u32 \<Rightarrow> kernel \<Rightarrow> (u32 \<times> kernel) option" where
  "poll_events_depth 0 dp fd events k = None"
| "poll_events_depth (Suc n) dp fd events k =
     (case fd_file dp fd k of
        None \<Rightarrow> Some (CELL_POLLNVAL, k)
      | Some i \<Rightarrow>
        let (r, k) = poll_conditions i k
        in do {
          (rd, k) \<leftarrow> (if events AND CELL_POLLIN = 0 then Some (False, k)
                      else if of_type (k_files k ! i) = OPEN_EPOLL
                      then any_ready (poll_events_depth n dp) (of_epoll_watches (k_files k ! i)) k
                      else Some (poll_in i k));
          let (wr, k) = (if events AND CELL_POLLOUT = 0 then (False, k) else poll_out i k);
          Some (raise_if wr CELL_POLLOUT (raise_if rd CELL_POLLIN r), k)
        })"

definition fd_poll_events_for_domain :: "nat option \<Rightarrow> int \<Rightarrow> u32 \<Rightarrow> kernel \<Rightarrow> (u32 \<times> kernel) option" where
  "fd_poll_events_for_domain dp fd events k = poll_events_depth (length (k_files k) + 2) dp fd events k"

definition cell_fd_poll_events :: "int \<Rightarrow> u32 \<Rightarrow> kernel \<Rightarrow> (u32 \<times> kernel) option" where
  "cell_fd_poll_events fd events k = fd_poll_events_for_domain (cell_current_domain k) fd events k"

subsection \<open>Checking a set of descriptors\<close>

text \<open>Little-endian numbers as they lie in memory.\<close>

definition bytes_nat :: "u8 list \<Rightarrow> nat" where
  "bytes_nat bs = horner_sum unat 256 bs"

definition le_bytes :: "nat \<Rightarrow> nat \<Rightarrow> u8 list" where
  "le_bytes n v = map (\<lambda>i. of_nat (v div 256 ^ i)) [0..<n]"

text \<open>A \<^verbatim>\<open>struct pollfd64\<close> is a 32-bit descriptor and two 16-bit event sets.\<close>

fun ppoll_loop :: "thread \<Rightarrow> bool \<Rightarrow> nat list \<Rightarrow> int \<Rightarrow> kernel \<Rightarrow> (int \<times> kernel) option" where
  "ppoll_loop t commit [] ready k = Some (ready, k)"
| "ppoll_loop t commit (i # is) ready k =
     (let addr = poll_fds t + of_nat i * 8
      in case copy_from_domain (th_domain t) addr 8 k of
           None \<Rightarrow> Some (- 14, k)
         | Some bs \<Rightarrow>
           let fd = sint (of_nat (bytes_nat (take 4 bs)) :: u32);
               events = word_of_int (sint (of_nat (bytes_nat (take 2 (drop 4 bs))) :: u16)) :: u32
           in do {
             (revents, k) \<leftarrow> (if fd \<ge> 0 then fd_poll_events_for_domain (th_domain t) fd events k else Some (0, k));
             let ready = (if revents \<noteq> 0 then ready + 1 else ready);
             let (ok, k) = (if commit
                            then copy_to_domain (th_domain t) addr (take 6 bs @ le_bytes 2 (unat revents)) k
                            else (True, k));
             if ok then ppoll_loop t commit is ready k else Some (- 14, k)
           })"

definition ppoll_check :: "nat option \<Rightarrow> bool \<Rightarrow> kernel \<Rightarrow> (int \<times> kernel) option" where
  "ppoll_check tp commit k =
     (case tp of
        None \<Rightarrow> Some (- 22, k)
      | Some t \<Rightarrow>
        let t = k_threads k ! t
        in if th_domain t = None \<or> poll_nfds t > CELL_MAX_POLL_FDS then Some (- 22, k)
           else ppoll_loop t commit [0..<unat (poll_nfds t)] 0 k)"

text \<open>The descriptor loop of \<^verbatim>\<open>pselect_check\<close>, with the sets built so far and the count of ready descriptors.\<close>

fun pselect_loop :: "nat option \<Rightarrow> u64 \<Rightarrow> u64 \<Rightarrow> nat list \<Rightarrow> u64 \<times> u64 \<times> int \<Rightarrow> kernel \<Rightarrow>
    ((u64 \<times> u64 \<times> int) \<times> kernel) option" where
  "pselect_loop dp read_in write_in [] out k = Some (out, k)"
| "pselect_loop dp read_in write_in (fd # fs) (read_out, write_out, ready) k =
     (let b = push_bit fd 1;
          events = raise_if (write_in AND b \<noteq> 0) CELL_POLLOUT (raise_if (read_in AND b \<noteq> 0) CELL_POLLIN 0)
      in if events = 0 then pselect_loop dp read_in write_in fs (read_out, write_out, ready) k
         else do {
           (revents, k) \<leftarrow> fd_poll_events_for_domain dp (int fd) events k;
           pselect_loop dp read_in write_in fs
             (if revents AND CELL_POLLIN \<noteq> 0 \<and> read_in AND b \<noteq> 0 then read_out OR b else read_out,
              if revents AND CELL_POLLOUT \<noteq> 0 \<and> write_in AND b \<noteq> 0 then write_out OR b else write_out,
              if revents AND CELL_POLL_ANY \<noteq> 0 then ready + 1 else ready) k
         })"

definition read_set :: "nat option \<Rightarrow> u64 \<Rightarrow> kernel \<Rightarrow> u64 option" where
  "read_set dp addr k =
     (if addr = 0 then Some 0 else map_option (\<lambda>bs. of_nat (bytes_nat bs)) (copy_from_domain dp addr 8 k))"

definition write_set :: "nat option \<Rightarrow> u64 \<Rightarrow> u64 \<Rightarrow> kernel \<Rightarrow> bool \<times> kernel" where
  "write_set dp addr v k = (if addr = 0 then (True, k) else copy_to_domain dp addr (le_bytes 8 (unat v)) k)"

definition pselect_check :: "nat option \<Rightarrow> bool \<Rightarrow> kernel \<Rightarrow> (int \<times> kernel) option" where
  "pselect_check tp commit k =
     (case tp of
        None \<Rightarrow> Some (- 22, k)
      | Some t \<Rightarrow>
        let t = k_threads k ! t; dp = th_domain t
        in if dp = None \<or> poll_nfds t > 64 then Some (- 22, k)
           else case (read_set dp (poll_readfds t) k, read_set dp (poll_writefds t) k) of
             (Some read_in, Some write_in) \<Rightarrow> do {
               ((read_out, write_out, ready), k) \<leftarrow>
                  pselect_loop dp read_in write_in [0..<unat (poll_nfds t)] (0, 0, 0) k;
               if \<not> commit then Some (ready, k)
               else let (ok, k) = write_set dp (poll_readfds t) read_out k
                    in if \<not> ok then Some (- 14, k)
                    else let (ok, k) = write_set dp (poll_writefds t) write_out k
                    in if \<not> ok then Some (- 14, k)
                    else let (ok, k) = write_set dp (poll_exceptfds t) 0 k
                    in if \<not> ok then Some (- 14, k) else Some (ready, k)
             }
           | _ \<Rightarrow> Some (- 14, k))"

definition clear_poll_wait :: "thread \<Rightarrow> thread" where
  "clear_poll_wait t = t\<lparr>poll_kind := 0, poll_has_deadline := False, poll_deadline_tick := 0, poll_fds := 0,
     poll_nfds := 0, poll_readfds := 0, poll_writefds := 0, poll_exceptfds := 0\<rparr>"

definition poll_wait_check :: "nat \<Rightarrow> bool \<Rightarrow> kernel \<Rightarrow> (int \<times> kernel) option" where
  "poll_wait_check t commit k =
     (if poll_kind (k_threads k ! t) = 1 then ppoll_check (Some t) commit k
      else if poll_kind (k_threads k ! t) = 2 then pselect_check (Some t) commit k
      else Some (- 22, k))"

subsection \<open>Waking\<close>

text \<open>A result register: the value as the system call returns it.\<close>

definition ret :: "int \<Rightarrow> thread \<Rightarrow> thread" where
  "ret rc t = set_x 0 (word_of_int rc) t"

definition resume :: "thread \<Rightarrow> thread" where
  "resume t = t\<lparr>th_state := THREAD_RUNNABLE, th_wait_reason := WAIT_NONE\<rparr>"

definition blocked_on :: "wait_reason \<Rightarrow> thread \<Rightarrow> bool" where
  "blocked_on r t \<longleftrightarrow> th_state t = THREAD_BLOCKED \<and> th_wait_reason t = r"

text \<open>A loop over a table, in order; the body is a whole iteration.\<close>

fun each_index :: "(nat \<Rightarrow> kernel \<Rightarrow> kernel option) \<Rightarrow> nat list \<Rightarrow> kernel \<Rightarrow> kernel option" where
  "each_index f [] k = Some k"
| "each_index f (t # ts) k = do { k \<leftarrow> f t k; each_index f ts k }"

definition wake_poll_waiter :: "nat \<Rightarrow> kernel \<Rightarrow> kernel option" where
  "wake_poll_waiter t k =
     (let th = k_threads k ! t
      in if \<not> blocked_on WAIT_POLL th \<or> th_domain th = None then Some k
         else do {
           (ready, k) \<leftarrow> poll_wait_check t False k;
           let expired = (poll_has_deadline th \<and> k_ticks k \<ge> poll_deadline_tick th);
           if ready \<noteq> 0 \<or> expired then do {
             (ready, k) \<leftarrow> (if ready \<ge> 0 then poll_wait_check t True k else Some (ready, k));
             let ready = (if ready < 0 then - 14 else ready);
             Some (upd_thread t (\<lambda>x. clear_poll_wait (resume (ret ready x))) k)
           } else Some k
         })"

fun epoll_loop :: "nat option \<Rightarrow> u64 \<Rightarrow> int \<Rightarrow> bool \<Rightarrow> epoll_watch list \<Rightarrow> int \<Rightarrow> kernel \<Rightarrow> (int \<times> kernel) option" where
  "epoll_loop dp addr maxevents commit [] written k = Some (written, k)"
| "epoll_loop dp addr maxevents commit (w # ws) written k =
     (if \<not> written < maxevents then Some (written, k)
      else if \<not> ew_used w then epoll_loop dp addr maxevents commit ws written k
      else do {
        (ready, k) \<leftarrow> fd_poll_events_for_domain dp (ew_fd w) (ew_events w) k;
        if ready AND CELL_POLL_ANY = 0 then epoll_loop dp addr maxevents commit ws written k
        else let (ok, k) = (if commit
                            then copy_to_domain dp (addr + word_of_int written * 16)
                                   (le_bytes 4 (unat ready) @ replicate 4 0 @ le_bytes 8 (unat (ew_data w))) k
                            else (True, k))
             in if ok then epoll_loop dp addr maxevents commit ws (written + 1) k else Some (- 14, k)
      })"

definition epoll_wait_for_domain :: "nat option \<Rightarrow> int \<Rightarrow> u64 \<Rightarrow> int \<Rightarrow> bool \<Rightarrow> kernel \<Rightarrow> (int \<times> kernel) option" where
  "epoll_wait_for_domain dp epfd events_addr maxevents commit k =
     (if maxevents \<le> 0 then Some (- 22, k)
      else case fd_file dp epfd k of
        None \<Rightarrow> Some (- 9, k)
      | Some i \<Rightarrow>
        if of_type (k_files k ! i) \<noteq> OPEN_EPOLL then Some (- 9, k)
        else epoll_loop dp events_addr maxevents commit (of_epoll_watches (k_files k ! i)) 0 k)"

definition clear_epoll_wait :: "thread \<Rightarrow> thread" where
  "clear_epoll_wait t = t\<lparr>epoll_fd := - 1, epoll_events := 0, epoll_maxevents := 0, poll_has_deadline := False,
     poll_deadline_tick := 0\<rparr>"

definition wake_epoll_waiter :: "nat \<Rightarrow> kernel \<Rightarrow> kernel option" where
  "wake_epoll_waiter t k =
     (let th = k_threads k ! t
      in if \<not> blocked_on WAIT_EPOLL th \<or> th_domain th = None then Some k
         else do {
           (ready, k) \<leftarrow> epoll_wait_for_domain (th_domain th) (epoll_fd th) (epoll_events th) (epoll_maxevents th) False k;
           let expired = (poll_has_deadline th \<and> k_ticks k \<ge> poll_deadline_tick th);
           if ready = 0 \<and> \<not> expired then Some k
           else do {
             (ready, k) \<leftarrow> (if ready > 0
                           then epoll_wait_for_domain (th_domain th) (epoll_fd th) (epoll_events th) (epoll_maxevents th) True k
                           else Some (ready, k));
             let ready = (if ready < 0 then - 4 else ready);
             Some (upd_thread t (\<lambda>x. clear_epoll_wait (resume (ret ready x))) k)
           }
         })"

definition wake_epoll_waiters :: "kernel \<Rightarrow> kernel option" where
  "wake_epoll_waiters k =
     (if k_epoll_waking k then Some k
      else do {
        k \<leftarrow> each_index wake_epoll_waiter [0..<length (k_threads k)] (k\<lparr>k_epoll_waking := True\<rparr>);
        Some (k\<lparr>k_epoll_waking := False\<rparr>)
      })"

definition wake_poll_waiters :: "kernel \<Rightarrow> kernel option" where
  "wake_poll_waiters k =
     (if k_poll_waking k then Some k
      else do {
        k \<leftarrow> each_index wake_poll_waiter [0..<length (k_threads k)] (k\<lparr>k_poll_waking := True\<rparr>);
        wake_epoll_waiters (k\<lparr>k_poll_waking := False\<rparr>)
      })"

end
