(* ===== verification/Kpipe_Io.thy ===== *)
theory Kpipe_Io
  imports Kpoll
begin

text \<open>
  Reading and writing pipes and waking the threads that wait for them, the second part of
  \<^verbatim>\<open>kernel/src/proc/pipe.c\<close>. A transfer ends by notifying waiters, and a woken waiter performs a transfer of
  its own; the flag \<^verbatim>\<open>pipe_waking\<close> makes the notification of that inner transfer skip the pipe waiters.
  The transfers therefore take the notification as a parameter.
\<close>

subsection \<open>Transfers\<close>

definition write_chunk :: "pipe_obj \<Rightarrow> u64 \<Rightarrow> u64 \<times> u64" where
  "write_chunk p left =
     (let tail = (p_head p + p_len p) mod PIPE_CAP;
          chunk = PIPE_CAP - tail;
          page_room = PAGE_SIZE - tail mod PAGE_SIZE;
          chunk = (if chunk > page_room then page_room else chunk);
          chunk = (if chunk > left then left else chunk)
      in (tail, chunk))"

definition read_chunk :: "pipe_obj \<Rightarrow> u64 \<Rightarrow> u64" where
  "read_chunk p left =
     (let chunk = PIPE_CAP - p_head p;
          page_room = PAGE_SIZE - p_head p mod PAGE_SIZE;
          chunk = (if chunk > page_room then page_room else chunk)
      in if chunk > left then left else chunk)"

lemma mod_less_word: "0 < b \<Longrightarrow> (a :: u64) mod b < b"
  by (simp add: word_mod_less_divisor)

lemma sub_pos_word: "a < b \<Longrightarrow> 0 < b - (a :: u64)"
  by (simp add: word_less_nat_alt unat_sub word_le_nat_alt)

lemma write_chunk_pos: "0 < left \<Longrightarrow> 0 < snd (write_chunk p left) \<and> snd (write_chunk p left) \<le> left"
  using sub_pos_word[OF mod_less_word[of PIPE_CAP "p_head p + p_len p"]]
    sub_pos_word[OF mod_less_word[of PAGE_SIZE "(p_head p + p_len p) mod PIPE_CAP"]]
  by (auto simp: write_chunk_def Let_def PIPE_CAP_def PAGE_SIZE_def not_less intro: order_less_le_trans)

lemma read_chunk_pos:
  "0 < left \<Longrightarrow> p_head p < PIPE_CAP \<Longrightarrow> 0 < read_chunk p left \<and> read_chunk p left \<le> left"
  using sub_pos_word[of "p_head p" PIPE_CAP] sub_pos_word[OF mod_less_word[of PAGE_SIZE "p_head p"]]
  by (auto simp: read_chunk_def Let_def PAGE_SIZE_def not_less intro: order_less_le_trans)

lemma left_decreases: "0 < (c :: u64) \<Longrightarrow> c \<le> l \<Longrightarrow> unat (l - c) < unat l"
  by (simp add: unat_sub word_less_nat_alt word_le_nat_alt)

text \<open>
  The copy loops. \<open>va\<close> is the user address of the next byte and \<open>left\<close> the number of bytes still to
  copy, \<^verbatim>\<open>target - done\<close>. The flag is false when a copy failed.
\<close>

function pipe_write_loop :: "nat option \<Rightarrow> nat \<Rightarrow> u64 \<Rightarrow> u64 \<Rightarrow> kernel \<Rightarrow> bool \<times> kernel" where
  "pipe_write_loop dp i va left k =
     (if left = 0 then (True, k)
      else let (tail, chunk) = write_chunk (k_pipes k ! i) left
           in case (pipe_data_ptr (k_pipes k ! i) dp tail k, copy_from_domain dp va (unat chunk) k) of
                (Some dst, Some bs) \<Rightarrow>
                  let m = k_machine k; k = set_machine (m\<lparr>phys := write_bytes dst bs (phys m)\<rparr>) k
                  in pipe_write_loop dp i (va + chunk) (left - chunk)
                       (upd_pipe i (\<lambda>p. p\<lparr>p_len := p_len p + chunk\<rparr>) k)
              | _ \<Rightarrow> (False, k))"
  by pat_completeness auto
termination
  using write_chunk_pos
  by (relation "measure (\<lambda>(dp, i, va, left, k). unat left)")
    (auto simp: word_neq_0_conv prod_eq_iff intro!: left_decreases)

function pipe_read_loop :: "nat option \<Rightarrow> nat \<Rightarrow> u64 \<Rightarrow> u64 \<Rightarrow> kernel \<Rightarrow> bool \<times> kernel" where
  "pipe_read_loop dp i va left k =
     (if left = 0 then (True, k)
      else let p = k_pipes k ! i; chunk = read_chunk p left
           in case pipe_data_ptr p dp (p_head p) k of
                None \<Rightarrow> (False, k)
              | Some src \<Rightarrow>
                let (ok, k) = copy_to_domain dp va (read_bytes (phys (k_machine k)) src (unat chunk)) k
                in if \<not> ok then (False, k)
                   else pipe_read_loop dp i (va + chunk) (left - chunk)
                          (upd_pipe i (\<lambda>p. p\<lparr>p_head := (p_head p + chunk) mod PIPE_CAP, p_len := p_len p - chunk\<rparr>) k))"
  by pat_completeness auto
termination
  using read_chunk_pos
  by (relation "measure (\<lambda>(dp, i, va, left, k). unat left)")
    (auto simp: word_neq_0_conv pipe_data_ptr_def not_le split: if_splits intro!: left_decreases)

definition EAGAIN :: int where "EAGAIN = 11"
definition EFAULT :: int where "EFAULT = 14"
definition EPIPE :: int where "EPIPE = 32"

definition pipe_write_id :: "(kernel \<Rightarrow> kernel option) \<Rightarrow> nat option \<Rightarrow> u8 \<Rightarrow> u64 \<Rightarrow> u64 \<Rightarrow> kernel \<Rightarrow>
    (int \<times> kernel) option" where
  "pipe_write_id notify dp pipe_id buf len k =
     (if len = 0 then Some (0, k)
      else case pipe_for_id pipe_id k of
        None \<Rightarrow> Some (- 9, k)
      | Some i \<Rightarrow>
        if p_readers (k_pipes k ! i) = 0 then Some (- EPIPE, k)
        else let room = PIPE_CAP - p_len (k_pipes k ! i)
        in if room = 0 \<or> len \<le> PIPE_BUF \<and> room < len then Some (- EAGAIN, k)
        else let target = (if len < room then len else room);
                 (ok, k) = cell_domain_ensure_user_range dp buf (unat target) VMM_ACCESS_READ k
        in if \<not> ok then Some (- EFAULT, k)
        else let (ok, k) = pipe_write_loop dp i buf target k
        in if \<not> ok then Some (- EFAULT, k)
        else do {
          k \<leftarrow> notify (upd_pipe i (\<lambda>p. p\<lparr>p_write_offset := p_write_offset p + target\<rparr>) k);
          Some (uint target, k)
        })"

definition pipe_read_id :: "(kernel \<Rightarrow> kernel option) \<Rightarrow> nat option \<Rightarrow> u8 \<Rightarrow> u64 \<Rightarrow> u64 \<Rightarrow> kernel \<Rightarrow>
    (int \<times> kernel) option" where
  "pipe_read_id notify dp pipe_id buf len k =
     (if len = 0 then Some (0, k)
      else case pipe_for_id pipe_id k of
        None \<Rightarrow> Some (- 9, k)
      | Some i \<Rightarrow>
        let p = k_pipes k ! i; target = (if len < p_len p then len else p_len p);
            (ok, k) = (if target \<noteq> 0 then cell_domain_ensure_user_range dp buf (unat target) VMM_ACCESS_WRITE k
                       else (True, k))
        in if \<not> ok then Some (- EFAULT, k)
        else let (ok, k) = pipe_read_loop dp i buf target k
        in if \<not> ok then Some (- EFAULT, k)
        else if target \<noteq> 0 then do {
          k \<leftarrow> notify (upd_pipe i (\<lambda>p. p\<lparr>p_read_offset := p_read_offset p + target\<rparr>) k);
          Some (uint target, k)
        }
        else let p = k_pipes k ! i
             in Some (if p_writers p = 0 \<and> (p_fifo_ino p = 0 \<or> p_had_writer p) then 0 else - EAGAIN, k))"

subsection \<open>Waking\<close>

definition clear_pipe_wait :: "thread \<Rightarrow> thread" where
  "clear_pipe_wait t = t\<lparr>wait_target := - 1, pipe_buf := 0, pipe_len := 0, socket_addr := 0, socket_addrlen := 0,
     socket_accept_flags := 0, socket_write := False, socket_msg := False, socket_msg_addr := 0, socket_iov := 0,
     socket_iovlen := 0, socket_flags := 0, socket_has_deadline := False, socket_deadline_tick := 0,
     pipe_write := False\<rparr>"

text \<open>The retried transfer of a waiting thread; its own notification only wakes poll waiters.\<close>

definition retry_transfer :: "thread \<Rightarrow> open_file \<Rightarrow> kernel \<Rightarrow> (int \<times> kernel) option" where
  "retry_transfer th file k =
     (if of_type file = OPEN_UNIX_STREAM then
        (if pipe_write th
         then pipe_write_id wake_poll_waiters (th_domain th) (of_unix_tx_pipe file) (pipe_buf th) (pipe_len th) k
         else pipe_read_id wake_poll_waiters (th_domain th) (of_unix_rx_pipe file) (pipe_buf th) (pipe_len th) k)
      else if pipe_write th then
        (if of_type file \<noteq> OPEN_PIPE \<or> \<not> of_pipe_write_end file then Some (- 9, k)
         else pipe_write_id wake_poll_waiters (th_domain th) (of_pipe_id file) (pipe_buf th) (pipe_len th) k)
      else
        (if of_type file \<noteq> OPEN_PIPE \<or> of_pipe_write_end file then Some (- 9, k)
         else pipe_read_id wake_poll_waiters (th_domain th) (of_pipe_id file) (pipe_buf th) (pipe_len th) k))"

definition wake_pipe_waiter :: "nat \<Rightarrow> kernel \<Rightarrow> kernel option" where
  "wake_pipe_waiter t k =
     (let th = k_threads k ! t
      in if \<not> blocked_on WAIT_PIPE th \<or> th_domain th = None then Some k
         else case fd_file (th_domain th) (wait_target th) k of
           None \<Rightarrow> Some (upd_thread t (\<lambda>x. clear_pipe_wait (resume (ret (- 9) x))) k)
         | Some i \<Rightarrow> do {
             (rc, k) \<leftarrow> retry_transfer th (k_files k ! i) k;
             if rc = - EAGAIN then Some k
             else Some (upd_thread t (\<lambda>x. clear_pipe_wait (resume (ret rc x))) k)
           })"

definition wake_pipe_waiters :: "kernel \<Rightarrow> kernel option" where
  "wake_pipe_waiters k =
     (if k_pipe_waking k then Some k
      else do {
        k \<leftarrow> each_index wake_pipe_waiter [0..<length (k_threads k)] (k\<lparr>k_pipe_waking := True\<rparr>);
        Some (k\<lparr>k_pipe_waking := False\<rparr>)
      })"

definition cell_pipe_notify :: "kernel \<Rightarrow> kernel option" where
  "cell_pipe_notify k = do { k \<leftarrow> wake_pipe_waiters k; wake_poll_waiters k }"

definition cell_pipe_write_id_from_domain :: "nat option \<Rightarrow> u8 \<Rightarrow> u64 \<Rightarrow> u64 \<Rightarrow> kernel \<Rightarrow> (int \<times> kernel) option" where
  "cell_pipe_write_id_from_domain dp pipe_id buf len k = pipe_write_id cell_pipe_notify dp pipe_id buf len k"

definition cell_pipe_read_id_to_domain :: "nat option \<Rightarrow> u8 \<Rightarrow> u64 \<Rightarrow> u64 \<Rightarrow> kernel \<Rightarrow> (int \<times> kernel) option" where
  "cell_pipe_read_id_to_domain dp pipe_id buf len k = pipe_read_id cell_pipe_notify dp pipe_id buf len k"

definition cell_pipe_write_from_domain :: "nat option \<Rightarrow> open_file \<Rightarrow> u64 \<Rightarrow> u64 \<Rightarrow> kernel \<Rightarrow> (int \<times> kernel) option" where
  "cell_pipe_write_from_domain dp file buf len k =
     (if of_type file \<noteq> OPEN_PIPE \<or> \<not> of_pipe_write_end file then Some (- 9, k)
      else cell_pipe_write_id_from_domain dp (of_pipe_id file) buf len k)"

definition cell_pipe_read_to_domain :: "nat option \<Rightarrow> open_file \<Rightarrow> u64 \<Rightarrow> u64 \<Rightarrow> kernel \<Rightarrow> (int \<times> kernel) option" where
  "cell_pipe_read_to_domain dp file buf len k =
     (if of_type file \<noteq> OPEN_PIPE \<or> of_pipe_write_end file then Some (- 9, k)
      else cell_pipe_read_id_to_domain dp (of_pipe_id file) buf len k)"

declare pipe_write_loop.simps [simp del] pipe_read_loop.simps [simp del]

subsection \<open>Induction over a transfer\<close>

lemma pipe_write_loop_induct [consumes 1, case_names stop fail step]:
  assumes "pipe_write_loop dp i va left k = (r, k')"
    and stop: "\<And>va k. P va 0 k True k"
    and fail: "\<And>va left k. left \<noteq> 0 \<Longrightarrow> P va left k False k"
    and step: "\<And>va left k tail chunk dst bs r k'.
      left \<noteq> 0 \<Longrightarrow> write_chunk (k_pipes k ! i) left = (tail, chunk) \<Longrightarrow>
      pipe_data_ptr (k_pipes k ! i) dp tail k = Some dst \<Longrightarrow> copy_from_domain dp va (unat chunk) k = Some bs \<Longrightarrow>
      P (va + chunk) (left - chunk) (upd_pipe i (\<lambda>p. p\<lparr>p_len := p_len p + chunk\<rparr>)
        (set_machine ((k_machine k)\<lparr>phys := write_bytes dst bs (phys (k_machine k))\<rparr>) k)) r k' \<Longrightarrow>
      P va left k r k'"
  shows "P va left k r k'"
  using assms(1)
proof (induction dp\<equiv>dp i\<equiv>i va left k rule: pipe_write_loop.induct)
  case (1 va left k)
  obtain tail chunk where wc: "write_chunk (k_pipes k ! i) left = (tail, chunk)" by fastforce
  show ?case
  proof (cases "left = 0 \<or> pipe_data_ptr (k_pipes k ! i) dp tail k = None \<or> copy_from_domain dp va (unat chunk) k = None")
    case True
    then show ?thesis using 1(2) wc stop[of va k] fail[of left va k]
      by (subst (asm) pipe_write_loop.simps) (auto split: if_splits option.splits)
  next
    case False
    then obtain dst bs where d: "left \<noteq> 0" "pipe_data_ptr (k_pipes k ! i) dp tail k = Some dst"
      "copy_from_domain dp va (unat chunk) k = Some bs" by auto
    from 1(2) d wc have "pipe_write_loop dp i (va + chunk) (left - chunk) (upd_pipe i (\<lambda>p. p\<lparr>p_len := p_len p + chunk\<rparr>)
        (set_machine ((k_machine k)\<lparr>phys := write_bytes dst bs (phys (k_machine k))\<rparr>) k)) = (r, k')"
      by (subst (asm) pipe_write_loop.simps) (simp add: Let_def)
    then show ?thesis
      by (intro step[OF d(1) wc d(2,3)] 1(1)[OF d(1) refl wc[symmetric] _ refl refl refl refl]) (auto simp: d)
  qed
qed

lemma pipe_read_loop_induct [consumes 1, case_names stop fail fault step]:
  assumes "pipe_read_loop dp i va left k = (r, k')"
    and stop: "\<And>va k. P va 0 k True k"
    and fail: "\<And>va left k. left \<noteq> 0 \<Longrightarrow> P va left k False k"
    and fault: "\<And>va left k src k1. left \<noteq> 0 \<Longrightarrow> pipe_data_ptr (k_pipes k ! i) dp (p_head (k_pipes k ! i)) k = Some src \<Longrightarrow>
      copy_to_domain dp va (read_bytes (phys (k_machine k)) src (unat (read_chunk (k_pipes k ! i) left))) k = (False, k1) \<Longrightarrow>
      P va left k False k1"
    and step: "\<And>va left k src k1 chunk r k'.
      left \<noteq> 0 \<Longrightarrow> chunk = read_chunk (k_pipes k ! i) left \<Longrightarrow>
      pipe_data_ptr (k_pipes k ! i) dp (p_head (k_pipes k ! i)) k = Some src \<Longrightarrow>
      copy_to_domain dp va (read_bytes (phys (k_machine k)) src (unat chunk)) k = (True, k1) \<Longrightarrow>
      P (va + chunk) (left - chunk) (upd_pipe i (\<lambda>p. p\<lparr>p_head := (p_head p + chunk) mod PIPE_CAP, p_len := p_len p - chunk\<rparr>) k1)
        r k' \<Longrightarrow>
      P va left k r k'"
  shows "P va left k r k'"
  using assms(1)
proof (induction dp\<equiv>dp i\<equiv>i va left k rule: pipe_read_loop.induct)
  case (1 va left k)
  let ?p = "k_pipes k ! i"
  let ?c = "read_chunk ?p left"
  show ?case
  proof (cases "left = 0 \<or> pipe_data_ptr ?p dp (p_head ?p) k = None")
    case True
    then show ?thesis using 1(2) stop[of va k] fail[of left va k]
      by (subst (asm) pipe_read_loop.simps) (auto simp: Let_def split: if_splits)
  next
    case False
    then obtain src where d: "left \<noteq> 0" "pipe_data_ptr ?p dp (p_head ?p) k = Some src" by auto
    obtain ok k1 where c: "copy_to_domain dp va (read_bytes (phys (k_machine k)) src (unat ?c)) k = (ok, k1)" by fastforce
    show ?thesis
    proof (cases ok)
      case False
      then show ?thesis using 1(2) d c fault[OF d] by (subst (asm) pipe_read_loop.simps) (simp add: Let_def)
    next
      case True
      with 1(2) d c have "pipe_read_loop dp i (va + ?c) (left - ?c)
          (upd_pipe i (\<lambda>p. p\<lparr>p_head := (p_head p + ?c) mod PIPE_CAP, p_len := p_len p - ?c\<rparr>) k1) = (r, k')"
        by (subst (asm) pipe_read_loop.simps) (simp add: Let_def)
      then have "P (va + ?c) (left - ?c)
          (upd_pipe i (\<lambda>p. p\<lparr>p_head := (p_head p + ?c) mod PIPE_CAP, p_len := p_len p - ?c\<rparr>) k1) r k'"
        using 1(1)[OF d(1) refl refl d(2) refl c[symmetric]] True by simp
      then show ?thesis using c True by (intro step[OF d(1) refl d(2)]) auto
    qed
  qed
qed

end
