(* ===== verification/Kfd.thy ===== *)
theory Kfd
  imports Kpipe_Io
begin

text \<open>
  Open files and file descriptors, \<^verbatim>\<open>kernel/src/proc/fd.c\<close>. Flag arguments are 32-bit words, descriptors and
  results are integers, a negative result is an error number.
\<close>

definition CELL_O_ACCMODE :: u32 where "CELL_O_ACCMODE = 3"
definition CELL_O_WRONLY :: u32 where "CELL_O_WRONLY = 1"
definition CELL_O_NONBLOCK :: u32 where "CELL_O_NONBLOCK = 0x800"
definition CELL_O_APPEND :: u32 where "CELL_O_APPEND = 0x400"
definition CELL_O_CLOEXEC :: u32 where "CELL_O_CLOEXEC = 0x80000"
definition EFD_SEMAPHORE :: u32 where "EFD_SEMAPHORE = 1"
definition IN_NONBLOCK :: u32 where "IN_NONBLOCK = 0x800"
definition IN_CLOEXEC :: u32 where "IN_CLOEXEC = 0x80000"
definition EINVAL :: int where "EINVAL = 22"
definition ENOSPC :: int where "ENOSPC = 28"
definition ENXIO :: int where "ENXIO = 6"
definition CELL_S_IFMT :: u16 where "CELL_S_IFMT = 0xf000"
definition CELL_S_IFIFO :: u16 where "CELL_S_IFIFO = 0x1000"

definition vfs_note :: "vfs_call \<Rightarrow> kernel \<Rightarrow> kernel" where
  "vfs_note c k = k\<lparr>k_sys := vfs_calls [c] (k_sys k)\<rparr>"

subsection \<open>Tables\<close>

definition cell_fd_table_reset :: "nat \<Rightarrow> nat \<Rightarrow> kernel \<Rightarrow> bool \<times> kernel" where
  "cell_fd_table_reset sizeof_file capacity k =
     (case reset_table MAX_OPEN_FILES (length (k_files k)) sizeof_file capacity zero_file k of
        (None, k) \<Rightarrow> (False, k)
      | (Some fs, k) \<Rightarrow> (True, k\<lparr>k_files := fs\<rparr>))"

definition cell_find_free_fd :: "nat option \<Rightarrow> int \<Rightarrow> kernel \<Rightarrow> int" where
  "cell_find_free_fd dp start k =
     (case dp of
        None \<Rightarrow> - 1
      | Some d \<Rightarrow>
        (case find (\<lambda>fd. fds (k_domains k ! d) ! fd = None) [nat start..<MAX_FDS] of
           None \<Rightarrow> - 1
         | Some fd \<Rightarrow> int fd))"

definition cell_alloc_open_file :: "kernel \<Rightarrow> nat option \<times> kernel" where
  "cell_alloc_open_file k =
     (case find (\<lambda>i. \<not> of_used (k_files k ! i)) [0..<length (k_files k)] of
        None \<Rightarrow> (None, k)
      | Some i \<Rightarrow> (Some i, upd_file i (\<lambda>_. zero_file\<lparr>of_used := True, of_refcount := 1\<rparr>) k))"

definition cell_retain_open_file :: "nat option \<Rightarrow> kernel \<Rightarrow> kernel" where
  "cell_retain_open_file fp k =
     (case fp of None \<Rightarrow> k | Some i \<Rightarrow> upd_file i (\<lambda>f. f\<lparr>of_refcount := of_refcount f + 1\<rparr>) k)"

text \<open>What the last release does for the type of file.\<close>

definition release_by_type :: "nat \<Rightarrow> kernel \<Rightarrow> kernel option" where
  "release_by_type i k =
     (let f = k_files k ! i; (was_pipe, k) = cell_pipe_release_file f k
      in if was_pipe then cell_pipe_notify k
         else case of_type f of
           OPEN_UNIX_STREAM \<Rightarrow>
             if of_unix_connected f then do {
               k \<leftarrow> cell_pipe_notify (cell_pipe_drop_writer (of_unix_tx_pipe f) (cell_pipe_drop_reader (of_unix_rx_pipe f) k));
               Some (note_call (SocketWake i) k)
             } else Some k
         | OPEN_UNIX_LISTENER \<Rightarrow> Some (note_call (SocketReleaseListener i) k)
         | OPEN_SOCKET \<Rightarrow> Some (note_call (SocketRelease i) k)
         | OPEN_PTY \<Rightarrow> Some (note_call (PtyRelease i) k)
         | _ \<Rightarrow> Some k)"

definition cell_release_open_file :: "nat option \<Rightarrow> kernel \<Rightarrow> kernel option" where
  "cell_release_open_file fp k =
     (case fp of
        None \<Rightarrow> Some k
      | Some i \<Rightarrow>
        if of_refcount (k_files k ! i) = 0 then Some k
        else let k = upd_file i (\<lambda>f. f\<lparr>of_refcount := of_refcount f - 1\<rparr>) k
             in if of_refcount (k_files k ! i) \<noteq> 0 then Some k
                else do {
                  k \<leftarrow> release_by_type i k;
                  let f = k_files k ! i;
                  let k = (if of_type f = OPEN_RAMFS \<or> of_type f = OPEN_PIPE then vfs_note (Release (of_node f)) k else k);
                  Some (upd_file i (\<lambda>f. f\<lparr>of_used := False\<rparr>) k)
                })"

definition set_fd :: "nat \<Rightarrow> nat \<Rightarrow> nat option \<Rightarrow> u8 \<Rightarrow> kernel \<Rightarrow> kernel" where
  "set_fd d fd fp flags k = upd_domain d (\<lambda>x. x\<lparr>fds := (fds x)[fd := fp], fd_flags := (fd_flags x)[fd := flags]\<rparr>) k"

fun close_fds :: "nat \<Rightarrow> nat list \<Rightarrow> kernel \<Rightarrow> kernel option" where
  "close_fds d [] k = Some k"
| "close_fds d (fd # fs) k = do {
     k \<leftarrow> cell_release_open_file (fds (k_domains k ! d) ! fd) k;
     close_fds d fs (set_fd d fd None 0 k)
   }"

definition cell_close_all_fds :: "nat \<Rightarrow> kernel \<Rightarrow> kernel option" where
  "cell_close_all_fds d k = close_fds d [0..<MAX_FDS] k"

definition cell_copy_open_path :: "nat \<Rightarrow> cstr option \<Rightarrow> kernel \<Rightarrow> kernel" where
  "cell_copy_open_path i path k =
     (case path of
        None \<Rightarrow> k
      | Some p \<Rightarrow>
        let len = (if kstrlen p \<ge> CELL_PATH_MAX then CELL_PATH_MAX - 1 else kstrlen p)
        in upd_file i (\<lambda>f. f\<lparr>of_path := take len p\<rparr>) k)"

text \<open>Releasing files that were just allocated, in order, when one allocation failed.\<close>

fun release_files :: "nat option list \<Rightarrow> kernel \<Rightarrow> kernel option" where
  "release_files [] k = Some k"
| "release_files (fp # fps) k = do { k \<leftarrow> cell_release_open_file fp k; release_files fps k }"

definition cell_init_stdio :: "nat \<Rightarrow> kernel \<Rightarrow> (bool \<times> kernel) option" where
  "cell_init_stdio d k =
     (let (fin, k) = cell_alloc_open_file k; (fout, k) = cell_alloc_open_file k; (ferr, k) = cell_alloc_open_file k
      in case (fin, fout, ferr) of
           (Some i, Some j, Some e) \<Rightarrow>
             let console = Some ''/dev/console'';
                 k = upd_file i (\<lambda>f. f\<lparr>of_type := OPEN_STDIN\<rparr>) k;
                 k = upd_file j (\<lambda>f. f\<lparr>of_type := OPEN_STDOUT\<rparr>) k;
                 k = upd_file e (\<lambda>f. f\<lparr>of_type := OPEN_STDOUT\<rparr>) k;
                 k = cell_copy_open_path e console (cell_copy_open_path j console (cell_copy_open_path i console k))
             in Some (True, set_fd d 2 ferr 0 (set_fd d 1 fout 0 (set_fd d 0 fin 0 k)))
         | _ \<Rightarrow> do { k \<leftarrow> release_files [fin, fout, ferr] k; Some (False, k) })"

definition cell_copy_fd_table :: "nat \<Rightarrow> nat \<Rightarrow> kernel \<Rightarrow> kernel" where
  "cell_copy_fd_table dst src k =
     fold (\<lambda>fd k. let fp = fds (k_domains k ! src) ! fd; fl = fd_flags (k_domains k ! src) ! fd
             in cell_retain_open_file fp (set_fd dst fd fp fl k)) [0..<MAX_FDS] k"

subsection \<open>Event counters\<close>

definition cell_eventfd_write_from_domain :: "nat option \<Rightarrow> nat \<Rightarrow> u64 \<Rightarrow> u64 \<Rightarrow> kernel \<Rightarrow> (int \<times> kernel) option" where
  "cell_eventfd_write_from_domain dp i buf len k =
     (if len < 8 then Some (- EINVAL, k)
      else case copy_from_domain dp buf 8 k of
        None \<Rightarrow> Some (- EFAULT, k)
      | Some bs \<Rightarrow>
        let add = of_nat (bytes_nat bs) :: u64
        in if add = - 1 \<or> - 1 - of_eventfd_value (k_files k ! i) \<le> add then Some (- EAGAIN, k)
           else do {
             k \<leftarrow> wake_poll_waiters (upd_file i (\<lambda>f. f\<lparr>of_eventfd_value := of_eventfd_value f + add\<rparr>) k);
             Some (8, k)
           })"

definition cell_eventfd_read_to_domain :: "nat option \<Rightarrow> nat \<Rightarrow> u64 \<Rightarrow> u64 \<Rightarrow> kernel \<Rightarrow> (int \<times> kernel) option" where
  "cell_eventfd_read_to_domain dp i buf len k =
     (let f = k_files k ! i
      in if len < 8 then Some (- EINVAL, k)
         else if of_eventfd_value f = 0 then Some (- EAGAIN, k)
         else let value = (if of_eventfd_semaphore f then 1 else of_eventfd_value f);
                  k = upd_file i (\<lambda>f. f\<lparr>of_eventfd_value := of_eventfd_value f - value\<rparr>) k;
                  (ok, k) = copy_to_domain dp buf (le_bytes 8 (unat value)) k
         in if \<not> ok then Some (- EFAULT, k)
            else do { k \<leftarrow> wake_poll_waiters k; Some (8, k) })"

text \<open>
  A new file on the lowest free descriptor of the current domain: the common part of the functions that
  make one. \<open>init\<close> fills in the zeroed file.
\<close>

definition install_file :: "u32 \<Rightarrow> (open_file \<Rightarrow> open_file) \<Rightarrow> kernel \<Rightarrow> int \<times> kernel" where
  "install_file cloexec init k =
     (case cell_current_domain k of
        None \<Rightarrow> (- 12, k)
      | Some d \<Rightarrow>
        let fd = cell_find_free_fd (Some d) 0 k
        in if fd < 0 then (- 24, k)
           else (case cell_alloc_open_file k of
             (None, k) \<Rightarrow> (- 12, k)
           | (Some i, k) \<Rightarrow> (fd, set_fd d (nat fd) (Some i) (if cloexec \<noteq> 0 then 1 else 0) (upd_file i init k))))"

definition cell_fd_eventfd :: "u64 \<Rightarrow> u32 \<Rightarrow> kernel \<Rightarrow> int \<times> kernel" where
  "cell_fd_eventfd initval flags k =
     (if flags AND NOT (CELL_O_CLOEXEC OR CELL_O_NONBLOCK OR EFD_SEMAPHORE) \<noteq> 0 then (- EINVAL, k)
      else install_file (flags AND CELL_O_CLOEXEC)
        (\<lambda>f. f\<lparr>of_type := OPEN_EVENTFD, of_flags := flags AND NOT CELL_O_CLOEXEC, of_eventfd_value := initval,
               of_eventfd_semaphore := (flags AND EFD_SEMAPHORE \<noteq> 0)\<rparr>) k)"

definition cell_fd_inotify_init1 :: "u32 \<Rightarrow> kernel \<Rightarrow> int \<times> kernel" where
  "cell_fd_inotify_init1 flags k =
     (if flags AND NOT (IN_CLOEXEC OR IN_NONBLOCK) \<noteq> 0 then (- EINVAL, k)
      else install_file (flags AND IN_CLOEXEC)
        (\<lambda>f. f\<lparr>of_type := OPEN_INOTIFY, of_flags := flags AND NOT IN_CLOEXEC, of_inotify_next_wd := 1\<rparr>) k)"

subsection \<open>Watches\<close>

text \<open>The index of the watch for a path, the first free slot, and a fresh watch descriptor.\<close>

definition watch_for :: "cstr \<Rightarrow> inotify_watch list \<Rightarrow> nat option" where
  "watch_for path ws = find (\<lambda>j. iw_used (ws ! j) \<and> str_eq (iw_path (ws ! j)) path) [0..<length ws]"

definition free_watch :: "inotify_watch list \<Rightarrow> nat option" where
  "free_watch ws = find (\<lambda>j. \<not> iw_used (ws ! j)) [0..<length ws]"

definition next_wd :: "u32 \<Rightarrow> u32 \<times> u32" where
  "next_wd wd = (if wd = 0 \<or> wd > 0x7fffffff then (1, 2) else (wd, wd + 1))"

definition cell_fd_inotify_add_watch :: "int \<Rightarrow> cstr option \<Rightarrow> u32 \<Rightarrow> kernel \<Rightarrow> int \<times> kernel" where
  "cell_fd_inotify_add_watch fd path events k =
     (case (fd_file (cell_current_domain k) fd k, path) of
        (Some i, Some p) \<Rightarrow>
          let f = k_files k ! i; ws = of_inotify_watches f
          in if of_type f \<noteq> OPEN_INOTIFY then (- 9, k)
             else if events = 0 then (- EINVAL, k)
             else (case watch_for p ws of
               Some j \<Rightarrow> (iw_wd (ws ! j), upd_file i (\<lambda>f. f\<lparr>of_inotify_watches := ws[j := (ws ! j)\<lparr>iw_mask := events\<rparr>]\<rparr>) k)
             | None \<Rightarrow>
               (case free_watch ws of
                  None \<Rightarrow> (- ENOSPC, k)
                | Some j \<Rightarrow>
                  let (wd, next) = next_wd (of_inotify_next_wd f)
                  in (uint wd,
                      upd_file i (\<lambda>f. f\<lparr>of_inotify_next_wd := next,
                        of_inotify_watches := ws[j := \<lparr>iw_used = True, iw_wd = uint wd, iw_mask = events,
                          iw_path = copy_cstr (iw_path (ws ! j)) CELL_PATH_MAX (Some p)\<rparr>]\<rparr>) k)))
      | _ \<Rightarrow> (- 9, k))"

definition cell_fd_inotify_rm_watch :: "int \<Rightarrow> int \<Rightarrow> kernel \<Rightarrow> int \<times> kernel" where
  "cell_fd_inotify_rm_watch fd wd k =
     (case fd_file (cell_current_domain k) fd k of
        None \<Rightarrow> (- 9, k)
      | Some i \<Rightarrow>
        let f = k_files k ! i; ws = of_inotify_watches f
        in if of_type f \<noteq> OPEN_INOTIFY then (- 9, k)
           else if wd \<le> 0 then (- EINVAL, k)
           else (case find (\<lambda>j. iw_used (ws ! j) \<and> iw_wd (ws ! j) = wd) [0..<length ws] of
             None \<Rightarrow> (- EINVAL, k)
           | Some j \<Rightarrow> (0, upd_file i (\<lambda>f. f\<lparr>of_inotify_watches := ws[j := zero_watch]\<rparr>) k)))"

subsection \<open>Operations on a descriptor\<close>

definition cell_fd_pread_kernel :: "int \<Rightarrow> u64 \<Rightarrow> u64 \<Rightarrow> kernel \<Rightarrow> int \<times> kernel" where
  "cell_fd_pread_kernel fd off len k =
     (case fd_file (cell_current_domain k) fd k of
        None \<Rightarrow> (- 9, k)
      | Some i \<Rightarrow>
        let f = k_files k ! i
        in if of_type f \<noteq> OPEN_RAMFS \<or> is_dir (of_node f) \<or> device (of_node f) \<noteq> RAMFS_DEV_NONE then (- 22, k)
           else ask_int (VfsRead (of_node f) off len) k)"

text \<open>The offset arithmetic of the signed 64-bit type is done on words.\<close>

definition cell_fd_lseek :: "int \<Rightarrow> u64 \<Rightarrow> int \<Rightarrow> kernel \<Rightarrow> int \<times> kernel" where
  "cell_fd_lseek fd off whence k =
     (case fd_file (cell_current_domain k) fd k of
        None \<Rightarrow> (- 9, k)
      | Some i \<Rightarrow>
        let f = k_files k ! i;
            (base, k) = (if whence = 0 then (Some 0, k)
                         else if whence = 1 then (Some (of_offset f), k)
                         else if whence = 2 then
                           (case ask_node (VfsRefresh (of_node f)) k of
                              (None, k) \<Rightarrow> (Some 0, k)
                            | (Some fresh, k) \<Rightarrow> (Some (node_size fresh), k))
                         else (None, k))
        in case base of
             None \<Rightarrow> (- 22, k)
           | Some b \<Rightarrow>
             if sint (b + off) < 0 then (- 22, k)
             else (sint (b + off), upd_file i (\<lambda>f. f\<lparr>of_offset := b + off\<rparr>) k))"

text \<open>Opening a named pipe for the domain \<open>d\<close>.\<close>

definition open_fifo :: "nat \<Rightarrow> vfs_node \<Rightarrow> u32 \<Rightarrow> cstr option \<Rightarrow> kernel \<Rightarrow> (int \<times> kernel) option" where
  "open_fifo d node flags path k =
     (let (id, k) = cell_fifo_pipe_for_ino (ino node) True k; pipe_id = word_of_int id :: u8;
          write_end = (flags AND CELL_O_ACCMODE = CELL_O_WRONLY)
      in if id < 0 then Some (- 23, k)
         else if flags AND CELL_O_NONBLOCK \<noteq> 0 \<and> write_end \<and> \<not> cell_pipe_has_readers pipe_id k then Some (- ENXIO, k)
         else let fd = cell_find_free_fd (Some d) 0 k
         in if fd < 0 then Some (- 24, k)
         else (case cell_alloc_open_file k of
           (None, k) \<Rightarrow> Some (- 12, k)
         | (Some i, k) \<Rightarrow>
           let k = upd_file i (\<lambda>f. f\<lparr>of_type := OPEN_PIPE, of_flags := flags AND NOT CELL_O_CLOEXEC, of_node := node\<rparr>) k;
               k = cell_copy_open_path i path (vfs_note (Retain node) k);
               k = upd_file i (\<lambda>f. f\<lparr>of_pipe_id := pipe_id, of_pipe_write_end := write_end\<rparr>) k;
               k = (if write_end then cell_pipe_add_writer pipe_id k else cell_pipe_add_reader pipe_id k);
               k = set_fd d (nat fd) (Some i) (if flags AND CELL_O_CLOEXEC \<noteq> 0 then 1 else 0) k
           in do { k \<leftarrow> cell_pipe_notify k; Some (fd, k) }))"

definition cell_fd_open_node :: "vfs_node \<Rightarrow> u32 \<Rightarrow> cstr option \<Rightarrow> kernel \<Rightarrow> (int \<times> kernel) option" where
  "cell_fd_open_node node flags path k =
     (case cell_current_domain k of
        None \<Rightarrow> Some (- 12, k)
      | Some d \<Rightarrow>
        let name = (case path of None \<Rightarrow> [] | Some p \<Rightarrow> p)
        in if device node = RAMFS_DEV_PTMX then Some (ask_int (PtyOpenMaster flags name) k)
           else if device node = RAMFS_DEV_PTS then Some (ask_int (PtyOpenSlave flags name) k)
           else if mode node AND CELL_S_IFMT = CELL_S_IFIFO then open_fifo d node flags path k
           else let fd = cell_find_free_fd (Some d) 0 k
           in if fd < 0 then Some (- 24, k)
           else (case cell_alloc_open_file k of
             (None, k) \<Rightarrow> Some (- 12, k)
           | (Some i, k) \<Rightarrow>
             let k = upd_file i (\<lambda>f. f\<lparr>of_type := OPEN_RAMFS, of_flags := flags AND NOT CELL_O_CLOEXEC, of_node := node\<rparr>) k;
                 k = cell_copy_open_path i path (vfs_note (Retain node) k);
                 k = (if flags AND CELL_O_APPEND \<noteq> 0 then upd_file i (\<lambda>f. f\<lparr>of_offset := node_size node\<rparr>) k else k)
             in Some (fd, set_fd d (nat fd) (Some i) (if flags AND CELL_O_CLOEXEC \<noteq> 0 then 1 else 0) k)))"

definition pipe_end :: "u32 \<Rightarrow> u8 \<Rightarrow> bool \<Rightarrow> open_file \<Rightarrow> open_file" where
  "pipe_end flags pipe_id write_end f =
     f\<lparr>of_type := OPEN_PIPE, of_flags := flags AND NOT CELL_O_CLOEXEC, of_pipe_id := pipe_id,
       of_pipe_write_end := write_end\<rparr>"

definition cell_fd_pipe2 :: "u64 \<Rightarrow> u32 \<Rightarrow> kernel \<Rightarrow> (int \<times> kernel) option" where
  "cell_fd_pipe2 pipefd_addr flags k =
     (if flags AND NOT (CELL_O_CLOEXEC OR CELL_O_NONBLOCK) \<noteq> 0 then Some (- EINVAL, k)
      else case cell_current_domain k of
        None \<Rightarrow> Some (- 12, k)
      | Some d \<Rightarrow>
        let read_fd = cell_find_free_fd (Some d) 0 k;
            write_fd = (if read_fd < 0 then - 1 else cell_find_free_fd (Some d) (read_fd + 1) k)
        in if read_fd < 0 \<or> write_fd < 0 then Some (- 24, k)
        else let (id, k) = cell_alloc_pipe_obj 0 k; pipe_id = word_of_int id :: u8
        in if id < 0 then Some (- 23, k)
        else let (rf, k) = cell_alloc_open_file k; (wf, k) = cell_alloc_open_file k
        in (case (rf, wf) of
              (Some r, Some w) \<Rightarrow>
                let k = cell_pipe_add_writer pipe_id (cell_pipe_add_reader pipe_id k);
                    k = upd_file w (pipe_end flags pipe_id True) (upd_file r (pipe_end flags pipe_id False) k);
                    (ok, k) = copy_to_domain (Some d) pipefd_addr (le_bytes 4 (nat read_fd) @ le_bytes 4 (nat write_fd)) k;
                    fl = (if flags AND CELL_O_CLOEXEC \<noteq> 0 then 1 else 0)
                in if \<not> ok then do { k \<leftarrow> release_files [rf, wf] k; Some (- EFAULT, k) }
                   else Some (0, set_fd d (nat write_fd) wf fl (set_fd d (nat read_fd) rf fl k))
            | _ \<Rightarrow> do { k \<leftarrow> release_files [rf, wf] k; Some (- 12, k) }))"

definition cell_fd_dup :: "int \<Rightarrow> int \<Rightarrow> kernel \<Rightarrow> int \<times> kernel" where
  "cell_fd_dup oldfd minfd k =
     (case (cell_current_domain k, fd_file (cell_current_domain k) oldfd k) of
        (Some d, Some i) \<Rightarrow>
          if minfd < 0 \<or> minfd \<ge> int MAX_FDS then (- 9, k)
          else let fd = cell_find_free_fd (Some d) minfd k
               in if fd < 0 then (- 24, k)
                  else (fd, cell_retain_open_file (Some i) (set_fd d (nat fd) (Some i) 0 k))
      | _ \<Rightarrow> (- 9, k))"

definition cell_fd_dup3 :: "int \<Rightarrow> int \<Rightarrow> u32 \<Rightarrow> kernel \<Rightarrow> (int \<times> kernel) option" where
  "cell_fd_dup3 oldfd newfd flags k =
     (if flags AND NOT CELL_O_CLOEXEC \<noteq> 0 then Some (- EINVAL, k)
      else case (cell_current_domain k, fd_file (cell_current_domain k) oldfd k) of
        (Some d, Some i) \<Rightarrow>
          if newfd < 0 \<or> newfd \<ge> int MAX_FDS then Some (- 9, k)
          else if oldfd = newfd then Some (- EINVAL, k)
          else do {
            k \<leftarrow> cell_release_open_file (fds (k_domains k ! d) ! nat newfd) (cell_retain_open_file (Some i) k);
            Some (newfd, set_fd d (nat newfd) (Some i) (if flags AND CELL_O_CLOEXEC \<noteq> 0 then 1 else 0) k)
          }
      | _ \<Rightarrow> Some (- 9, k))"

definition cell_fd_get_flags :: "int \<Rightarrow> kernel \<Rightarrow> int" where
  "cell_fd_get_flags fd k =
     (case fd_file (cell_current_domain k) fd k of None \<Rightarrow> - 9 | Some i \<Rightarrow> sint (of_flags (k_files k ! i)))"

definition cell_fd_set_flags :: "int \<Rightarrow> u32 \<Rightarrow> kernel \<Rightarrow> int \<times> kernel" where
  "cell_fd_set_flags fd flags k =
     (case fd_file (cell_current_domain k) fd k of
        None \<Rightarrow> (- 9, k)
      | Some i \<Rightarrow>
        let changeable = CELL_O_NONBLOCK OR CELL_O_APPEND
        in (0, upd_file i (\<lambda>f. f\<lparr>of_flags := (of_flags f AND NOT changeable) OR (flags AND changeable)\<rparr>) k))"

definition cell_fd_get_fd_flags :: "int \<Rightarrow> kernel \<Rightarrow> int" where
  "cell_fd_get_fd_flags fd k =
     (case (cell_current_domain k, fd_file (cell_current_domain k) fd k) of
        (Some d, Some i) \<Rightarrow> if fd_flags (k_domains k ! d) ! nat fd \<noteq> 0 then 1 else 0
      | _ \<Rightarrow> - 9)"

definition cell_fd_set_fd_flags :: "int \<Rightarrow> u32 \<Rightarrow> kernel \<Rightarrow> int \<times> kernel" where
  "cell_fd_set_fd_flags fd flags k =
     (case (cell_current_domain k, fd_file (cell_current_domain k) fd k) of
        (Some d, Some i) \<Rightarrow>
          (0, upd_domain d (\<lambda>x. x\<lparr>fd_flags := (fd_flags x)[nat fd := if flags AND 1 \<noteq> 0 then 1 else 0]\<rparr>) k)
      | _ \<Rightarrow> (- 9, k))"

definition sealable_file :: "open_file \<Rightarrow> bool" where
  "sealable_file f \<longleftrightarrow> \<not> (of_type f \<noteq> OPEN_RAMFS \<or> device (of_node f) \<noteq> RAMFS_DEV_NONE)"

definition cell_fd_add_seals :: "int \<Rightarrow> u32 \<Rightarrow> kernel \<Rightarrow> int \<times> kernel" where
  "cell_fd_add_seals fd sl k =
     (case fd_file (cell_current_domain k) fd k of
        None \<Rightarrow> (- 9, k)
      | Some i \<Rightarrow> if sealable_file (k_files k ! i) then ask_int (VfsAddSeals (of_node (k_files k ! i)) sl) k else (- 22, k))"

definition cell_fd_get_seals :: "int \<Rightarrow> kernel \<Rightarrow> int \<times> kernel" where
  "cell_fd_get_seals fd k =
     (case fd_file (cell_current_domain k) fd k of
        None \<Rightarrow> (- 9, k)
      | Some i \<Rightarrow> if sealable_file (k_files k ! i) then ask_int (VfsGetSeals (of_node (k_files k ! i))) k else (- 22, k))"

definition cell_fd_close :: "int \<Rightarrow> kernel \<Rightarrow> (int \<times> kernel) option" where
  "cell_fd_close fd k =
     (case (cell_current_domain k, fd_file (cell_current_domain k) fd k) of
        (Some d, Some i) \<Rightarrow> do {
          k \<leftarrow> cell_release_open_file (Some i) k;
          Some (0, set_fd d (nat fd) None 0 k)
        }
      | _ \<Rightarrow> Some (- 9, k))"

definition cell_fd_is_tty :: "int \<Rightarrow> kernel \<Rightarrow> int" where
  "cell_fd_is_tty fd k =
     (case fd_file (cell_current_domain k) fd k of
        None \<Rightarrow> - 9
      | Some i \<Rightarrow>
        let f = k_files k ! i
        in if of_type f = OPEN_STDIN \<or> of_type f = OPEN_STDOUT then 1
           else if of_type f = OPEN_RAMFS \<and> (device (of_node f) = RAMFS_DEV_CONSOLE \<or> device (of_node f) = RAMFS_DEV_TTY)
           then 1
           else if of_type f = OPEN_PTY then 1 else 0)"

text \<open>The made-up nodes of files that no file system holds.\<close>

definition char_node :: "u64 \<Rightarrow> ramfs_device \<Rightarrow> u16 \<Rightarrow> vfs_node" where
  "char_node i dev md =
     zero_node\<lparr>backend := VFS_RAMFS, ino := i, is_dir := False, device := dev, mode := md, links_count := 1, dev_id := 5\<rparr>"

definition unix_node :: "vfs_node \<Rightarrow> vfs_node" where
  "unix_node n =
     (if mode n = 0 then n\<lparr>backend := VFS_RAMFS, mode := 0xc1b6, links_count := 1, dev_id := 0x12\<rparr> else n)"

definition cell_fd_stat :: "int \<Rightarrow> kernel \<Rightarrow> vfs_node option \<times> kernel" where
  "cell_fd_stat fd k =
     (case fd_file (cell_current_domain k) fd k of
        None \<Rightarrow> (None, k)
      | Some i \<Rightarrow>
        let f = k_files k ! i; b = of_pty_master f
        in case of_type f of
             OPEN_STDOUT \<Rightarrow> (Some ((char_node 10 RAMFS_DEV_CONSOLE 0x21b6)\<lparr>rdev := push_bit 8 5 OR 1\<rparr>), k)
           | OPEN_STDIN \<Rightarrow> (Some ((char_node 10 RAMFS_DEV_CONSOLE 0x21b6)\<lparr>rdev := push_bit 8 5 OR 1\<rparr>), k)
           | OPEN_PIPE \<Rightarrow> (Some (char_node (20 + ucast (of_pipe_id f)) RAMFS_DEV_NONE 0x11b6), k)
           | OPEN_UNIX_STREAM \<Rightarrow> (Some (unix_node (of_node f)), k)
           | OPEN_UNIX_LISTENER \<Rightarrow> (Some (unix_node (of_node f)), k)
           | OPEN_INOTIFY \<Rightarrow> (Some (char_node 30 RAMFS_DEV_NONE 0x8180), k)
           | OPEN_PTY \<Rightarrow>
             (Some ((char_node (100 + ucast (of_pty_id f) + (if b then 0 else 1000))
                       (if b then RAMFS_DEV_PTMX else RAMFS_DEV_PTS) 0x21b6)
                    \<lparr>rdev := push_bit 8 (if b then 5 else 136) OR (if b then 2 else ucast (of_pty_id f))\<rparr>), k)
           | _ \<Rightarrow> ask_node (VfsRefresh (of_node f)) k)"

definition cell_fd_is_dir :: "int \<Rightarrow> kernel \<Rightarrow> bool \<times> kernel" where
  "cell_fd_is_dir fd k = (let (n, k) = cell_fd_stat fd k in (case n of None \<Rightarrow> False | Some n \<Rightarrow> is_dir n, k))"

definition cell_fd_path :: "int \<Rightarrow> nat \<Rightarrow> kernel \<Rightarrow> cstr option" where
  "cell_fd_path fd cap k =
     (if cap = 0 then None
      else case fd_file (cell_current_domain k) fd k of
        None \<Rightarrow> None
      | Some i \<Rightarrow>
        let p = of_path (k_files k ! i) in if p = [] then None else if kstrlen p \<ge> cap then None else Some p)"

text \<open>The directory entry itself is not represented, only whether there was one and the new offset.\<close>

definition cell_fd_next_dirent :: "int \<Rightarrow> kernel \<Rightarrow> bool \<times> kernel" where
  "cell_fd_next_dirent fd k =
     (case fd_file (cell_current_domain k) fd k of
        None \<Rightarrow> (False, k)
      | Some i \<Rightarrow>
        let f = k_files k ! i
        in if of_type f \<noteq> OPEN_RAMFS \<or> \<not> is_dir (of_node f) then (False, k)
           else let c = VfsNextDirent (of_node f) (of_offset f); (next, _) = ask_int c k; (ok, k) = ask_bool c k
                in (ok, upd_file i (\<lambda>f. f\<lparr>of_offset := word_of_int next\<rparr>) k))"

definition cell_fd_rewind_one_dirent :: "int \<Rightarrow> kernel \<Rightarrow> kernel" where
  "cell_fd_rewind_one_dirent fd k =
     (case fd_file (cell_current_domain k) fd k of
        None \<Rightarrow> k
      | Some i \<Rightarrow> if of_offset (k_files k ! i) > 0 then upd_file i (\<lambda>f. f\<lparr>of_offset := of_offset f - 1\<rparr>) k else k)"

definition cell_fd_dir_offset :: "int \<Rightarrow> kernel \<Rightarrow> u64" where
  "cell_fd_dir_offset fd k =
     (case fd_file (cell_current_domain k) fd k of None \<Rightarrow> 0 | Some i \<Rightarrow> of_offset (k_files k ! i))"

definition cell_fd_set_dir_offset :: "int \<Rightarrow> u64 \<Rightarrow> kernel \<Rightarrow> kernel" where
  "cell_fd_set_dir_offset fd offset k =
     (case fd_file (cell_current_domain k) fd k of
        None \<Rightarrow> k
      | Some i \<Rightarrow> upd_file i (\<lambda>f. f\<lparr>of_offset := offset\<rparr>) k)"

end
