(* ===== verification/Kthread.thy ===== *)
theory Kthread
  imports Kfd
begin

text \<open>
  The thread table, \<^verbatim>\<open>kernel/src/proc/thread.c\<close> without the scheduler, and waking futex waiters, from
  \<^verbatim>\<open>kernel/src/proc/futex.c\<close>.
\<close>

definition cell_thread_reset :: "nat \<Rightarrow> nat \<Rightarrow> kernel \<Rightarrow> bool \<times> kernel" where
  "cell_thread_reset sizeof_thread capacity k =
     (case reset_table MAX_THREADS (length (k_threads k)) sizeof_thread capacity zero_thread k of
        (None, k) \<Rightarrow> (False, k)
      | (Some ts, k) \<Rightarrow> (True, k\<lparr>k_threads := ts, k_next_thread_id := 1\<rparr>))"

definition cell_set_current_thread :: "nat option \<Rightarrow> kernel \<Rightarrow> kernel" where
  "cell_set_current_thread tp k =
     (let k = smp_set_current_thread_slot (k_cpu k) tp k
      in case tp of None \<Rightarrow> k | Some t \<Rightarrow> upd_thread t (\<lambda>x. x\<lparr>running_cpu := int (k_cpu k)\<rparr>) k)"

definition cell_scheduler_waiting_for_interrupt :: "kernel \<Rightarrow> bool" where
  "cell_scheduler_waiting_for_interrupt k = smp_scheduler_waiting (k_cpu k) k"

definition cell_thread_index :: "nat option \<Rightarrow> kernel \<Rightarrow> nat" where
  "cell_thread_index tp k =
     (case tp of None \<Rightarrow> length (k_threads k) | Some t \<Rightarrow> if t < length (k_threads k) then t else length (k_threads k))"

text \<open>The new thread stays unused until its creator sets its state.\<close>

definition cell_alloc_thread :: "nat \<Rightarrow> kernel \<Rightarrow> nat option \<times> kernel" where
  "cell_alloc_thread d k =
     (case find (\<lambda>t. th_state (k_threads k ! t) = THREAD_UNUSED) [0..<length (k_threads k)] of
        None \<Rightarrow> (None, k)
      | Some t \<Rightarrow>
        let k = upd_thread t (\<lambda>_. zero_thread\<lparr>tid := k_next_thread_id k, running_cpu := - 1, th_domain := Some d,
                  th_wait_reason := WAIT_NONE, wait_target := - 1, sigaltstack_flags := 2\<rparr>) k;
            k = k\<lparr>k_next_thread_id := k_next_thread_id k + 1\<rparr>
        in (Some t, upd_domain d (\<lambda>x. x\<lparr>dom_refcount := dom_refcount x + 1\<rparr>) k))"

definition drop_domain_ref :: "nat \<Rightarrow> kernel \<Rightarrow> kernel" where
  "drop_domain_ref d k =
     upd_domain d (\<lambda>x. if dom_refcount x > 0 then x\<lparr>dom_refcount := dom_refcount x - 1\<rparr> else x) k"

definition cell_release_thread :: "nat option \<Rightarrow> kernel \<Rightarrow> kernel" where
  "cell_release_thread tp k =
     (case tp of
        None \<Rightarrow> k
      | Some t \<Rightarrow>
        (case th_domain (k_threads k ! t) of
           None \<Rightarrow> k
         | Some d \<Rightarrow>
           let k = upd_thread t (\<lambda>x. x\<lparr>th_state := THREAD_UNUSED, running_cpu := - 1, th_domain := None\<rparr>) (drop_domain_ref d k)
           in fold (\<lambda>cpu k. smp_clear_current_thread_if cpu (Some t) k) [0..<length (k_current k)] k))"

definition cell_thread_for_domain :: "nat \<Rightarrow> kernel \<Rightarrow> nat option" where
  "cell_thread_for_domain d k =
     find (\<lambda>t. th_state (k_threads k ! t) \<noteq> THREAD_UNUSED \<and> th_domain (k_threads k ! t) = Some d) [0..<length (k_threads k)]"

definition cell_runnable_or_blocked_threads_in_domain :: "nat option \<Rightarrow> kernel \<Rightarrow> nat" where
  "cell_runnable_or_blocked_threads_in_domain dp k =
     length (filter (\<lambda>t. th_domain t = dp \<and> (th_state t = THREAD_RUNNABLE \<or> th_state t = THREAD_BLOCKED)) (k_threads k))"

text \<open>The loops that only change threads one by one are maps over the table.\<close>

definition wake_vfork_thread :: "int \<Rightarrow> thread \<Rightarrow> thread" where
  "wake_vfork_thread child_id t =
     (if blocked_on WAIT_VFORK t \<and> wait_target t = child_id then (resume t)\<lparr>wait_target := - 1\<rparr> else t)"

definition cell_wake_vfork_parent_of :: "int \<Rightarrow> kernel \<Rightarrow> kernel" where
  "cell_wake_vfork_parent_of child_id k = k\<lparr>k_threads := map (wake_vfork_thread child_id) (k_threads k)\<rparr>"

definition wake_sleep_thread :: "u64 \<Rightarrow> thread \<Rightarrow> thread" where
  "wake_sleep_thread now t =
     (if \<not> blocked_on WAIT_SLEEP t \<or> now < sleep_deadline_tick t then t
      else (resume (set_x 0 0 t))\<lparr>sleep_deadline_tick := 0\<rparr>)"

definition cell_wake_sleep_waiters :: "u64 \<Rightarrow> kernel \<Rightarrow> kernel" where
  "cell_wake_sleep_waiters now k = k\<lparr>k_threads := map (wake_sleep_thread now) (k_threads k)\<rparr>"

definition cell_save_current :: "trap_frame \<Rightarrow> kernel \<Rightarrow> kernel" where
  "cell_save_current frame k =
     (case cell_current_thread k of
        None \<Rightarrow> k
      | Some t \<Rightarrow> upd_thread t (\<lambda>x. x\<lparr>th_tf := frame, th_fp := k_fp k, tpidr_el0 := k_tpidr k\<rparr>) k)"

definition vmm_install_user :: "user_address_space \<Rightarrow> kernel \<Rightarrow> kernel" where
  "vmm_install_user as k = k\<lparr>k_ttbr0 := root_pa as OR push_bit 48 (ucast (asid as))\<rparr>"

text \<open>
  Loading the registers of a thread, and the frame it returns to. Every thread that can run
  has a domain with an address space; for a NULL one nothing is installed.
\<close>

definition restore_thread :: "nat \<Rightarrow> kernel \<Rightarrow> trap_frame \<times> kernel" where
  "restore_thread t k =
     (let th = k_threads k ! t;
          k = (case cell_domain_as (th_domain th) k of None \<Rightarrow> k | Some a \<Rightarrow> vmm_install_user a k)
      in (th_tf th, k\<lparr>k_fp := th_fp th, k_tpidr := tpidr_el0 th\<rparr>))"

definition cell_restore_current :: "trap_frame \<Rightarrow> kernel \<Rightarrow> trap_frame \<times> kernel" where
  "cell_restore_current frame k =
     (case cell_current_thread k of None \<Rightarrow> (frame, k) | Some t \<Rightarrow> restore_thread t k)"

subsection \<open>Futex waiters\<close>

definition futex_waiter :: "nat option \<Rightarrow> u64 \<Rightarrow> thread \<Rightarrow> bool" where
  "futex_waiter dp uaddr t \<longleftrightarrow> th_domain t = dp \<and> blocked_on WAIT_FUTEX t \<and> futex_addr t = uaddr"

fun futex_wake_loop :: "nat option \<Rightarrow> u64 \<Rightarrow> nat \<Rightarrow> nat \<Rightarrow> thread list \<Rightarrow> nat \<times> thread list" where
  "futex_wake_loop dp uaddr count woke [] = (woke, [])"
| "futex_wake_loop dp uaddr count woke (t # ts) =
     (if \<not> woke < count then (woke, t # ts)
      else if futex_waiter dp uaddr t then
        let (n, ts) = futex_wake_loop dp uaddr count (woke + 1) ts
        in (n, set_x 0 0 ((resume t)\<lparr>futex_addr := 0\<rparr>) # ts)
      else let (n, ts) = futex_wake_loop dp uaddr count woke ts in (n, t # ts))"

definition cell_futex_wake_domain :: "nat option \<Rightarrow> u64 \<Rightarrow> u32 \<Rightarrow> kernel \<Rightarrow> int \<times> kernel" where
  "cell_futex_wake_domain dp uaddr count k =
     (let (n, ts) = futex_wake_loop dp uaddr (unat count) 0 (k_threads k) in (int n, k\<lparr>k_threads := ts\<rparr>))"

definition cell_futex_wake_current :: "u64 \<Rightarrow> u32 \<Rightarrow> kernel \<Rightarrow> int \<times> kernel" where
  "cell_futex_wake_current uaddr count k =
     (let dp = cell_current_domain k
      in if dp = None \<or> uaddr AND 3 \<noteq> 0 then (- EINVAL, k)
         else if count = 0 then (0, k)
         else cell_futex_wake_domain dp uaddr count k)"

definition cell_set_robust_list_current :: "u64 \<Rightarrow> kernel \<Rightarrow> int \<times> kernel" where
  "cell_set_robust_list_current rl k =
     (case cell_current_thread k of
        None \<Rightarrow> (- EINVAL, k)
      | Some t \<Rightarrow> (0, upd_thread t (\<lambda>x. x\<lparr>robust_list := rl\<rparr>) k))"

definition FUTEX_OWNER_DIED :: nat where "FUTEX_OWNER_DIED = 0x40000000"
definition ROBUST_LIST_LIMIT :: nat where "ROBUST_LIST_LIMIT = 16"

text \<open>Marking one futex of a dying owner: the entry's pages are faulted in for the current domain.\<close>

definition robust_wake_entry :: "nat option \<Rightarrow> u64 \<Rightarrow> u64 \<Rightarrow> kernel \<Rightarrow> kernel" where
  "robust_wake_entry dp entry futex_offset k =
     (let addr = entry + futex_offset
      in if addr AND 3 \<noteq> 0 then k
         else let (ok, k) = cell_ensure_user_range addr 4 VMM_ACCESS_WRITE k
         in if \<not> ok then k
         else (case copy_from_domain dp addr 4 k of
           None \<Rightarrow> k
         | Some bs \<Rightarrow>
           let word = of_nat (bytes_nat bs) OR of_nat FUTEX_OWNER_DIED :: u32;
               (_, k) = copy_to_domain dp addr (le_bytes 4 (unat word)) k
           in snd (cell_futex_wake_domain dp addr 1 k)))"

fun robust_loop :: "nat \<Rightarrow> nat option \<Rightarrow> u64 \<Rightarrow> u64 \<Rightarrow> u64 \<Rightarrow> kernel \<Rightarrow> kernel" where
  "robust_loop 0 dp head futex_offset node k = k"
| "robust_loop (Suc n) dp head futex_offset node k =
     (if node = 0 \<or> node = head then k
      else let (ok, k) = cell_ensure_user_range node 8 VMM_ACCESS_READ k
      in if \<not> ok then k
      else (case copy_from_domain dp node 8 k of
        None \<Rightarrow> k
      | Some bs \<Rightarrow> robust_loop n dp head futex_offset (of_nat (bytes_nat bs)) (robust_wake_entry dp node futex_offset k)))"

definition cell_futex_cleanup_robust_list :: "nat \<Rightarrow> kernel \<Rightarrow> kernel" where
  "cell_futex_cleanup_robust_list t k =
     (let th = k_threads k ! t; dp = th_domain th
      in if dp = None \<or> robust_list th = 0 then k
      else let (ok, k) = cell_ensure_user_range (robust_list th) 24 VMM_ACCESS_READ k
      in if \<not> ok then k
      else (case copy_from_domain dp (robust_list th) 24 k of
        None \<Rightarrow> k
      | Some bs \<Rightarrow>
        let word = (\<lambda>j. of_nat (bytes_nat (take 8 (drop (8 * j) bs))) :: u64);
            k = (if word 2 \<noteq> 0 then robust_wake_entry dp (word 2) (word 1) k else k)
        in robust_loop ROBUST_LIST_LIMIT dp (robust_list th) (word 1) (word 0) k))"

end
