(* ===== verification/Kdomain.thy ===== *)
theory Kdomain
  imports Kthread
begin

text \<open>
  Domains, \<^verbatim>\<open>kernel/src/proc/domain.c\<close>, and the notification of a waiting parent,
  \<^verbatim>\<open>cell_wake_parent_of\<close> of \<^verbatim>\<open>kernel/src/proc/process.c\<close>. Destroying a domain and waking the parent of one
  call each other: a destroyed domain's zombie children go to the first domain, which may be waiting for them.
  The recursion is bounded by the number of domains.
\<close>

definition EPERM :: int where "EPERM = 1"
definition ESRCH :: int where "ESRCH = 3"

definition cell_domain_reset :: "nat \<Rightarrow> nat \<Rightarrow> kernel \<Rightarrow> bool \<times> kernel" where
  "cell_domain_reset sizeof_domain capacity k =
     (case reset_table MAX_DOMAINS (length (k_domains k)) sizeof_domain capacity zero_domain k of
        (None, k) \<Rightarrow> (False, k)
      | (Some ds, k) \<Rightarrow> (True, k\<lparr>k_domains := ds, k_next_domain_id := 1\<rparr>))"

definition cell_domain_index :: "nat option \<Rightarrow> kernel \<Rightarrow> nat" where
  "cell_domain_index dp k =
     (case dp of None \<Rightarrow> length (k_domains k) | Some d \<Rightarrow> if d < length (k_domains k) then d else length (k_domains k))"

definition cell_domain_last_id :: "kernel \<Rightarrow> u32" where
  "cell_domain_last_id k = word_of_int (k_next_domain_id k - 1)"

definition cell_find_domain :: "int \<Rightarrow> kernel \<Rightarrow> nat option" where
  "cell_find_domain i k =
     find (\<lambda>d. dom_used (k_domains k ! d) \<and> dom_id (k_domains k ! d) = i) [0..<length (k_domains k)]"

definition fresh_domain :: "int \<Rightarrow> u64 \<Rightarrow> domain" where
  "fresh_domain i now = zero_domain\<lparr>dom_used := True, dom_refcount := 0, dom_id := i, pgrp_id := i, session_id := i,
     uid := 0, euid := 0, gid := 0, egid := 0, start_ticks := now, dom_name := copy_cstr [] 32 (Some ''?''),
     exec_path := copy_cstr [] CELL_PATH_MAX (Some []), argv0 := copy_cstr [] 64 (Some []),
     cmdline := copy_cstr [] 160 (Some []), cwd := ''/'', fs_root := ''/'', chroot := ''/''\<rparr>"

definition cell_alloc_domain :: "kernel \<Rightarrow> nat option \<times> kernel" where
  "cell_alloc_domain k =
     (case find (\<lambda>d. \<not> dom_used (k_domains k ! d)) [0..<length (k_domains k)] of
        None \<Rightarrow> (None, k)
      | Some d \<Rightarrow>
        (Some d, upd_domain d (\<lambda>_. fresh_domain (k_next_domain_id k) (k_ticks k)) k
                   \<lparr>k_next_domain_id := k_next_domain_id k + 1\<rparr>))"

definition cell_copy_domain_metadata :: "nat \<Rightarrow> nat \<Rightarrow> kernel \<Rightarrow> kernel" where
  "cell_copy_domain_metadata dst src k =
     (let s = k_domains k ! src
      in upd_domain dst (\<lambda>x. x\<lparr>cwd := cwd s, fs_root := fs_root s, chroot := chroot s, dom_name := dom_name s,
           exec_path := exec_path s, argv0 := argv0 s, cmdline := cmdline s, caps := caps s, budget := budget s,
           uid := uid s, euid := euid s, gid := gid s, egid := egid s, pgrp_id := pgrp_id s,
           session_id := session_id s, signal_actions := signal_actions s, start_ticks := k_ticks k,
           cpu_ticks := 0\<rparr>) k)"

subsection \<open>Destruction and the waiting parent\<close>

definition domain_has_running_thread :: "nat \<Rightarrow> kernel \<Rightarrow> bool" where
  "domain_has_running_thread d k \<longleftrightarrow> list_ex (\<lambda>t. th_domain t = Some d \<and> running_cpu t \<ge> 0) (k_threads k)"

definition wait_status :: "domain \<Rightarrow> u32" where
  "wait_status x = (if term_signal x \<noteq> 0 then word_of_int (term_signal x) else push_bit 8 (word_of_int (exit_status x)))"

definition waits_for :: "int \<Rightarrow> thread \<Rightarrow> bool" where
  "waits_for child_id t \<longleftrightarrow> blocked_on WAIT_CHILD t \<and> (wait_target t < 0 \<or> wait_target t = child_id)"

text \<open>The body of \<^verbatim>\<open>cell_wake_parent_of\<close> once a waiting thread \<open>t\<close> of the parent \<open>p\<close> is found.\<close>

definition hand_to_parent :: "(nat \<Rightarrow> kernel \<Rightarrow> kernel option) \<Rightarrow> nat \<Rightarrow> nat \<Rightarrow> nat \<Rightarrow> kernel \<Rightarrow> kernel option" where
  "hand_to_parent destroy c p t k =
     (let child = k_domains k ! c;
          busy = (cell_current_domain k = Some c \<or> domain_has_running_thread c k);
          status_addr = tf_x (th_tf (k_threads k ! t)) ! 1;
          k = (if status_addr \<noteq> 0 \<and> cell_domain_as (Some p) k \<noteq> None
               then snd (copy_to_domain (Some p) status_addr (le_bytes 4 (unat (wait_status child))) k) else k);
          k = upd_thread t (ret (dom_id child)) k;
          k = (case cell_thread_for_domain c k of
                 None \<Rightarrow> k
               | Some ct \<Rightarrow> upd_thread ct (\<lambda>x. x\<lparr>th_state := if busy then THREAD_ZOMBIE else THREAD_UNUSED\<rparr>) k)
      in do {
        k \<leftarrow> (if busy then Some (upd_domain c (\<lambda>x. x\<lparr>parent_id := 0\<rparr>) k) else destroy c k);
        Some (upd_thread t (\<lambda>x. (resume x)\<lparr>wait_target := - 1\<rparr>) k)
      })"

definition wake_parent_with :: "(nat \<Rightarrow> kernel \<Rightarrow> kernel option) \<Rightarrow> nat \<Rightarrow> kernel \<Rightarrow> kernel option" where
  "wake_parent_with destroy c k =
     (let k = cell_wake_vfork_parent_of (dom_id (k_domains k ! c)) k
      in case cell_find_domain (parent_id (k_domains k ! c)) k of
           None \<Rightarrow> Some k
         | Some p \<Rightarrow>
           (case cell_thread_for_domain p k of
              None \<Rightarrow> Some k
            | Some t \<Rightarrow>
              if waits_for (dom_id (k_domains k ! c)) (k_threads k ! t) then hand_to_parent destroy c p t k else Some k))"

definition reparent :: "(nat \<Rightarrow> kernel \<Rightarrow> kernel option) \<Rightarrow> nat \<Rightarrow> int \<Rightarrow> nat \<Rightarrow> kernel \<Rightarrow> kernel option" where
  "reparent destroy d to c k =
     (if \<not> dom_used (k_domains k ! c) \<or> parent_id (k_domains k ! c) \<noteq> dom_id (k_domains k ! d) then Some k
      else let k = upd_domain c (\<lambda>x. x\<lparr>parent_id := to\<rparr>) k
           in if zombie (k_domains k ! c) \<and> to \<noteq> 0 then wake_parent_with destroy c k else Some k)"

definition detach_thread :: "nat \<Rightarrow> thread \<Rightarrow> thread" where
  "detach_thread d t =
     (if th_domain t = Some d then t\<lparr>th_state := THREAD_UNUSED, running_cpu := - 1, th_domain := None\<rparr> else t)"

primrec destroy_depth :: "nat \<Rightarrow> nat \<Rightarrow> kernel \<Rightarrow> kernel option" where
  "destroy_depth 0 d k = None"
| "destroy_depth (Suc n) d k =
     (let to = (if dom_id (k_domains k ! d) \<noteq> 1 \<and> cell_find_domain 1 k \<noteq> None then 1 else 0)
      in do {
        k \<leftarrow> each_index (reparent (destroy_depth n) d to) [0..<length (k_domains k)] k;
        k \<leftarrow> cell_close_all_fds d (k\<lparr>k_threads := map (detach_thread d) (k_threads k)\<rparr>);
        k \<leftarrow> cell_mm_release (dom_mm (k_domains k ! d)) k;
        Some (upd_domain d (\<lambda>x. x\<lparr>dom_mm := None, dom_used := False, zombie := False, dom_refcount := 0\<rparr>) k)
      })"

definition cell_destroy_domain :: "nat \<Rightarrow> kernel \<Rightarrow> kernel option" where
  "cell_destroy_domain d k = destroy_depth (length (k_domains k) + 1) d k"

definition cell_wake_parent_of :: "nat \<Rightarrow> kernel \<Rightarrow> kernel option" where
  "cell_wake_parent_of c k = wake_parent_with cell_destroy_domain c k"

subsection \<open>Identity\<close>

definition append_capped :: "nat \<Rightarrow> cstr \<Rightarrow> cstr \<Rightarrow> cstr" where
  "append_capped cap line cs = line @ take (cap - 1 - length line) cs"

text \<open>The arguments up to the first NULL, separated by spaces, cut at the size of the array.\<close>

fun cmdline_loop :: "nat \<Rightarrow> cstr option list \<Rightarrow> cstr \<Rightarrow> cstr" where
  "cmdline_loop i [] line = line"
| "cmdline_loop i (None # as) line = line"
| "cmdline_loop i (Some a # as) line =
     cmdline_loop (i + 1) as (append_capped 160 (if i \<noteq> 0 then append_capped 160 line '' '' else line) a)"

definition cell_set_domain_identity :: "nat option \<Rightarrow> cstr option \<Rightarrow> cstr option list \<Rightarrow> kernel \<Rightarrow> kernel" where
  "cell_set_domain_identity dp path argv k =
     (case dp of
        None \<Rightarrow> k
      | Some d \<Rightarrow>
        let a0 = (case argv of Some (c # cs) # _ \<Rightarrow> Some (c # cs) | _ \<Rightarrow> path);
            or_empty = (\<lambda>s. case s of None \<Rightarrow> Some [] | Some x \<Rightarrow> Some x);
            base = base_name (if a0 = None \<or> a0 = Some [] then path else a0);
            line = cmdline_loop 0 argv []
        in upd_domain d (\<lambda>x.
             let av = copy_cstr (argv0 x) 64 (or_empty a0)
             in x\<lparr>exec_path := copy_cstr (exec_path x) CELL_PATH_MAX (or_empty path), argv0 := av,
                  dom_name := copy_cstr (dom_name x) 32 (Some base),
                  cmdline := if line = [] then copy_cstr [] 160 (Some av) else line\<rparr>) k)"

definition cur :: "(domain \<Rightarrow> 'a) \<Rightarrow> 'a \<Rightarrow> kernel \<Rightarrow> 'a" where
  "cur f dflt k = (case cell_current_domain k of None \<Rightarrow> dflt | Some d \<Rightarrow> f (k_domains k ! d))"

definition cell_current_as :: "kernel \<Rightarrow> user_address_space option" where
  "cell_current_as k = cell_domain_as (cell_current_domain k) k"

definition cell_current_pid :: "kernel \<Rightarrow> int" where "cell_current_pid k = cur dom_id 0 k"

definition cell_current_tid :: "kernel \<Rightarrow> int" where
  "cell_current_tid k = (case cell_current_thread k of None \<Rightarrow> 0 | Some t \<Rightarrow> tid (k_threads k ! t))"

definition cell_current_ppid :: "kernel \<Rightarrow> int" where "cell_current_ppid k = cur parent_id 0 k"
definition cell_current_name :: "kernel \<Rightarrow> cstr" where "cell_current_name k = cur dom_name ''-'' k"
definition cell_current_uid :: "kernel \<Rightarrow> u32" where "cell_current_uid k = cur uid 0 k"
definition cell_current_euid :: "kernel \<Rightarrow> u32" where "cell_current_euid k = cur euid 0 k"
definition cell_current_gid :: "kernel \<Rightarrow> u32" where "cell_current_gid k = cur gid 0 k"
definition cell_current_egid :: "kernel \<Rightarrow> u32" where "cell_current_egid k = cur egid 0 k"
definition cell_current_cwd :: "kernel \<Rightarrow> cstr" where "cell_current_cwd k = cur cwd ''/'' k"
definition cell_current_fs_root :: "kernel \<Rightarrow> cstr" where "cell_current_fs_root k = cur fs_root ''/'' k"
definition cell_current_chroot :: "kernel \<Rightarrow> cstr" where "cell_current_chroot k = cur chroot ''/'' k"

definition cell_set_current_name :: "cstr option \<Rightarrow> kernel \<Rightarrow> kernel" where
  "cell_set_current_name name k =
     (case cell_current_domain k of
        None \<Rightarrow> k
      | Some d \<Rightarrow> upd_domain d (\<lambda>x. x\<lparr>dom_name := copy_cstr (dom_name x) 32 name\<rparr>) k)"

subsection \<open>Process groups and sessions\<close>

definition self_or_find :: "int \<Rightarrow> kernel \<Rightarrow> nat option" where
  "self_or_find pid k = (if pid = 0 then cell_current_domain k else cell_find_domain pid k)"

definition cell_getpgid :: "int \<Rightarrow> kernel \<Rightarrow> int" where
  "cell_getpgid pid k = (case self_or_find pid k of None \<Rightarrow> - ESRCH | Some d \<Rightarrow> pgrp_id (k_domains k ! d))"

definition cell_setpgid :: "int \<Rightarrow> int \<Rightarrow> kernel \<Rightarrow> int \<times> kernel" where
  "cell_setpgid pid pgid k =
     (case cell_current_domain k of
        None \<Rightarrow> (- ESRCH, k)
      | Some c \<Rightarrow>
        (case self_or_find pid k of
           None \<Rightarrow> (- ESRCH, k)
         | Some d \<Rightarrow>
           if d \<noteq> c \<and> parent_id (k_domains k ! d) \<noteq> dom_id (k_domains k ! c) then (- EPERM, k)
           else let pgid = (if pgid = 0 then dom_id (k_domains k ! d) else pgid)
                in if pgid < 0 then (- EINVAL, k) else (0, upd_domain d (\<lambda>x. x\<lparr>pgrp_id := pgid\<rparr>) k)))"

definition cell_getsid :: "int \<Rightarrow> kernel \<Rightarrow> int" where
  "cell_getsid pid k = (case self_or_find pid k of None \<Rightarrow> - ESRCH | Some d \<Rightarrow> session_id (k_domains k ! d))"

definition cell_setsid_current :: "kernel \<Rightarrow> int \<times> kernel" where
  "cell_setsid_current k =
     (case cell_current_domain k of
        None \<Rightarrow> (- ESRCH, k)
      | Some d \<Rightarrow>
        let x = k_domains k ! d
        in if pgrp_id x = dom_id x then (- EPERM, k)
           else (dom_id x, upd_domain d (\<lambda>x. x\<lparr>session_id := dom_id x, pgrp_id := dom_id x\<rparr>) k))"

subsection \<open>Credentials and directories\<close>

definition cell_setuid_current :: "u32 \<Rightarrow> kernel \<Rightarrow> int \<times> kernel" where
  "cell_setuid_current u k =
     (case cell_current_domain k of
        None \<Rightarrow> (- 1, k)
      | Some d \<Rightarrow>
        if euid (k_domains k ! d) \<noteq> 0 \<and> u \<noteq> uid (k_domains k ! d) then (- 1, k)
        else (0, upd_domain d (\<lambda>x. x\<lparr>uid := u, euid := u\<rparr>) k))"

definition cell_setgid_current :: "u32 \<Rightarrow> kernel \<Rightarrow> int \<times> kernel" where
  "cell_setgid_current g k =
     (case cell_current_domain k of
        None \<Rightarrow> (- 1, k)
      | Some d \<Rightarrow>
        if euid (k_domains k ! d) \<noteq> 0 \<and> g \<noteq> gid (k_domains k ! d) then (- 1, k)
        else (0, upd_domain d (\<lambda>x. x\<lparr>gid := g, egid := g\<rparr>) k))"

definition cell_apply_exec_creds :: "u32 \<Rightarrow> u32 \<Rightarrow> u32 \<Rightarrow> kernel \<Rightarrow> kernel" where
  "cell_apply_exec_creds md u g k =
     (case cell_current_domain k of
        None \<Rightarrow> k
      | Some d \<Rightarrow>
        upd_domain d (\<lambda>x. let x = (if md AND 0x800 \<noteq> 0 then x\<lparr>euid := u\<rparr> else x)
                             in if md AND 0x400 \<noteq> 0 then x\<lparr>egid := g\<rparr> else x) k)"

definition absolute_fits :: "cstr option \<Rightarrow> cstr option" where
  "absolute_fits path =
     (case path of
        None \<Rightarrow> None
      | Some p \<Rightarrow> if char_at p 0 \<noteq> CHR ''/'' then None else if kstrlen p \<ge> CELL_PATH_MAX then None else Some p)"

definition cell_set_cwd :: "cstr option \<Rightarrow> kernel \<Rightarrow> bool \<times> kernel" where
  "cell_set_cwd path k =
     (case (cell_current_domain k, absolute_fits path) of
        (Some d, Some p) \<Rightarrow> (True, upd_domain d (\<lambda>x. x\<lparr>cwd := p\<rparr>) k)
      | _ \<Rightarrow> (False, k))"

definition cell_set_chroot :: "cstr option \<Rightarrow> kernel \<Rightarrow> bool \<times> kernel" where
  "cell_set_chroot path k =
     (case (cell_current_domain k, absolute_fits path) of
        (Some d, Some p) \<Rightarrow> (True, upd_domain d (\<lambda>x. x\<lparr>chroot := p\<rparr>) k)
      | _ \<Rightarrow> (False, k))"

end
