(* ===== verification/Ksched.thy ===== *)
theory Ksched
  imports Kdomain
begin

text \<open>
  The scheduler and the functions that block the current thread, from
  \<^verbatim>\<open>kernel/src/proc/thread.c\<close> and \<^verbatim>\<open>kernel/src/proc/futex.c\<close>. While a processor waits for an interrupt the kernel
  lock is free: what interrupt handlers and other processors do to the state during the
  \<open>n\<close>-th wait is the parameter \<open>irq n\<close>. A scheduler that powers the machine off or waits forever
  does not return, which is \<^const>\<open>None\<close>.
\<close>

type_synonym irqs = "nat \<Rightarrow> kernel \<Rightarrow> kernel"

subsection \<open>Choosing a thread\<close>

text \<open>The thread table from \<open>start\<close> on, wrapping around.\<close>

definition rotation :: "nat \<Rightarrow> nat \<Rightarrow> nat list" where
  "rotation start capacity = map (\<lambda>n. (start + n) mod capacity) [0..<capacity]"

definition free_runnable :: "thread \<Rightarrow> bool" where
  "free_runnable t \<longleftrightarrow> th_state t = THREAD_RUNNABLE \<and> running_cpu t < 0"

definition own_runnable :: "nat \<Rightarrow> thread \<Rightarrow> bool" where
  "own_runnable cpu t \<longleftrightarrow> th_state t = THREAD_RUNNABLE \<and> (running_cpu t < 0 \<or> running_cpu t = int cpu)"

definition current_runnable :: "nat option \<Rightarrow> kernel \<Rightarrow> bool" where
  "current_runnable tp k = (case tp of None \<Rightarrow> False | Some t \<Rightarrow> th_state (k_threads k ! t) = THREAD_RUNNABLE)"

definition pick_thread :: "nat \<Rightarrow> nat option \<Rightarrow> nat \<Rightarrow> kernel \<Rightarrow> nat option" where
  "pick_thread cpu tp start k =
     (let order = rotation start (length (k_threads k))
      in case (if current_runnable tp k then find (\<lambda>t. own_runnable cpu (k_threads k ! t)) order else None) of
           Some t \<Rightarrow> Some t
         | None \<Rightarrow> find (\<lambda>t. free_runnable (k_threads k ! t)) order)"

datatype sched_choice = Run nat | Idle | Halt

definition sched_choose :: "nat \<Rightarrow> nat option \<Rightarrow> nat \<Rightarrow> kernel \<Rightarrow> sched_choice" where
  "sched_choose cpu tp start k =
     (case pick_thread cpu tp start k of
        Some t \<Rightarrow> Run t
      | None \<Rightarrow>
        let has_blocked = list_ex (\<lambda>t. th_state t = THREAD_BLOCKED) (k_threads k);
            has_running_elsewhere = list_ex (\<lambda>t. th_state t = THREAD_RUNNABLE \<and> running_cpu t \<ge> 0 \<and>
                                                  running_cpu t \<noteq> int cpu) (k_threads k)
        in if \<not> has_blocked \<and> has_running_elsewhere then Idle else if \<not> has_blocked then Halt else Idle)"

subsection \<open>Switching\<close>

definition cleanup_reaped_current_domain :: "nat option \<Rightarrow> nat \<Rightarrow> kernel \<Rightarrow> kernel option" where
  "cleanup_reaped_current_domain old next k =
     (case old of
        None \<Rightarrow> Some k
      | Some d \<Rightarrow>
        if old = th_domain (k_threads k ! next) \<or> \<not> zombie (k_domains k ! d) \<or> parent_id (k_domains k ! d) \<noteq> 0 then Some k
        else if domain_has_running_thread d k then Some k
        else cell_destroy_domain d k)"

text \<open>
  Both loops of the scheduler switch alike: the second only chooses a thread that no processor
  runs, which is then not the current one if that one still runs here.
\<close>

definition release_cpu :: "nat \<Rightarrow> nat option \<Rightarrow> nat \<Rightarrow> kernel \<Rightarrow> kernel" where
  "release_cpu cpu tp next k =
     (case tp of
        None \<Rightarrow> k
      | Some c \<Rightarrow>
        if c \<noteq> next \<and> running_cpu (k_threads k ! c) = int cpu then upd_thread c (\<lambda>x. x\<lparr>running_cpu := - 1\<rparr>) k else k)"

definition claim_cpu :: "nat \<Rightarrow> nat option \<Rightarrow> nat \<Rightarrow> kernel \<Rightarrow> kernel" where
  "claim_cpu cpu tp next k =
     upd_thread next (\<lambda>x. x\<lparr>running_cpu := int cpu\<rparr>)
       (smp_set_current_thread_slot cpu (Some next) (release_cpu cpu tp next k))"

definition switch_to :: "nat \<Rightarrow> nat option \<Rightarrow> nat option \<Rightarrow> nat \<Rightarrow> kernel \<Rightarrow> (trap_frame \<times> kernel) option" where
  "switch_to cpu tp old next k = do {
     k \<leftarrow> cleanup_reaped_current_domain old next (claim_cpu cpu tp next k);
     Some (restore_thread next k)
   }"

definition wait_interrupt :: "irqs \<Rightarrow> nat \<Rightarrow> nat \<Rightarrow> kernel \<Rightarrow> kernel" where
  "wait_interrupt irq n cpu k =
     smp_set_scheduler_waiting cpu False (irq n (smp_set_scheduler_waiting cpu True k))"

partial_function (option) schedule_loop :: "irqs \<Rightarrow> nat \<Rightarrow> nat \<Rightarrow> nat option \<Rightarrow> nat option \<Rightarrow> nat \<Rightarrow> kernel \<Rightarrow>
    (trap_frame \<times> kernel) option" where
  "schedule_loop irq n cpu tp old start k =
     (case sched_choose cpu tp start k of
        Run t \<Rightarrow> switch_to cpu tp old t k
      | Idle \<Rightarrow> schedule_loop irq (Suc n) cpu tp old start (wait_interrupt irq n cpu k)
      | Halt \<Rightarrow> None)"

definition cell_schedule :: "irqs \<Rightarrow> trap_frame \<Rightarrow> kernel \<Rightarrow> (trap_frame \<times> kernel) option" where
  "cell_schedule irq frame k =
     (let tp = cell_current_thread k;
          start = (case tp of None \<Rightarrow> 0 | Some t \<Rightarrow> cell_thread_index tp k + 1)
      in schedule_loop irq 0 (k_cpu k) tp (cell_current_domain k) start (cell_save_current frame k))"

subsection \<open>Blocking the current thread\<close>

text \<open>
  Saving the frame, filling in what the thread waits for and scheduling. The callers run on
  behalf of a thread; without one the code would dereference a null pointer.
\<close>

definition block_current :: "(kernel \<Rightarrow> thread \<Rightarrow> thread) \<Rightarrow> irqs \<Rightarrow> trap_frame \<Rightarrow> kernel \<Rightarrow>
    (int \<times> trap_frame \<times> kernel) option" where
  "block_current wait irq frame k =
     (case cell_current_thread k of
        None \<Rightarrow> None
      | Some t \<Rightarrow> do {
          let k = cell_save_current frame k;
          (frame, k) \<leftarrow> cell_schedule irq frame
             (upd_thread t (\<lambda>x. wait k (x\<lparr>running_cpu := - 1, th_state := THREAD_BLOCKED\<rparr>)) k);
          Some (CELL_SWITCHED, frame, k)
        })"

definition cell_block_current_on_pipe :: "int \<Rightarrow> u64 \<Rightarrow> u64 \<Rightarrow> bool \<Rightarrow> irqs \<Rightarrow> trap_frame \<Rightarrow> kernel \<Rightarrow>
    (int \<times> trap_frame \<times> kernel) option" where
  "cell_block_current_on_pipe fd buf len wr irq frame k =
     block_current (\<lambda>k x. x\<lparr>th_wait_reason := WAIT_PIPE, wait_target := fd, pipe_buf := buf, pipe_len := len,
       pipe_write := wr\<rparr>) irq frame k"

definition cell_block_current_on_sleep :: "u64 \<Rightarrow> irqs \<Rightarrow> trap_frame \<Rightarrow> kernel \<Rightarrow> (int \<times> trap_frame \<times> kernel) option" where
  "cell_block_current_on_sleep deadline irq frame k =
     block_current (\<lambda>k x. x\<lparr>th_wait_reason := WAIT_SLEEP, sleep_deadline_tick := deadline\<rparr>) irq frame k"

definition cell_sleep_current :: "u64 \<Rightarrow> irqs \<Rightarrow> trap_frame \<Rightarrow> kernel \<Rightarrow> (int \<times> trap_frame \<times> kernel) option" where
  "cell_sleep_current timeout irq frame k =
     (if cell_current_thread k = None \<or> cell_current_domain k = None then Some (- EINVAL, frame, k)
      else if timeout = 0 then Some (0, frame, k)
      else cell_block_current_on_sleep (k_ticks k + timeout) irq frame k)"

text \<open>What the five socket waits have in common: the deadline and the cleared pipe direction.\<close>

definition socket_wait :: "int \<Rightarrow> u64 \<Rightarrow> kernel \<Rightarrow> thread \<Rightarrow> thread" where
  "socket_wait fd timeout k x =
     x\<lparr>th_wait_reason := WAIT_SOCKET, wait_target := fd, socket_has_deadline := (timeout \<noteq> 0),
       socket_deadline_tick := (if timeout = 0 then 0 else k_ticks k + timeout), pipe_write := False\<rparr>"

definition cell_block_current_on_socket_flags_timeout :: "int \<Rightarrow> u64 \<Rightarrow> u64 \<Rightarrow> u64 \<Rightarrow> u64 \<Rightarrow> u32 \<Rightarrow> u64 \<Rightarrow> irqs \<Rightarrow>
    trap_frame \<Rightarrow> kernel \<Rightarrow> (int \<times> trap_frame \<times> kernel) option" where
  "cell_block_current_on_socket_flags_timeout fd buf len addr addrlen flags timeout irq frame k =
     block_current (\<lambda>k x. (socket_wait fd timeout k x)\<lparr>pipe_buf := buf, pipe_len := len, socket_addr := addr,
       socket_addrlen := addrlen, socket_msg := False, socket_write := False, socket_msg_addr := 0, socket_iov := 0,
       socket_iovlen := 0, socket_flags := flags\<rparr>) irq frame k"

definition cell_block_current_on_socket_timeout :: "int \<Rightarrow> u64 \<Rightarrow> u64 \<Rightarrow> u64 \<Rightarrow> u64 \<Rightarrow> u64 \<Rightarrow> irqs \<Rightarrow> trap_frame \<Rightarrow>
    kernel \<Rightarrow> (int \<times> trap_frame \<times> kernel) option" where
  "cell_block_current_on_socket_timeout fd buf len addr addrlen timeout irq frame k =
     cell_block_current_on_socket_flags_timeout fd buf len addr addrlen 0 timeout irq frame k"

definition cell_block_current_on_socket :: "int \<Rightarrow> u64 \<Rightarrow> u64 \<Rightarrow> u64 \<Rightarrow> u64 \<Rightarrow> irqs \<Rightarrow> trap_frame \<Rightarrow> kernel \<Rightarrow>
    (int \<times> trap_frame \<times> kernel) option" where
  "cell_block_current_on_socket fd buf len addr addrlen irq frame k =
     cell_block_current_on_socket_timeout fd buf len addr addrlen 0 irq frame k"

definition cell_block_current_on_socket_write_timeout :: "int \<Rightarrow> u64 \<Rightarrow> u64 \<Rightarrow> u64 \<Rightarrow> irqs \<Rightarrow> trap_frame \<Rightarrow> kernel \<Rightarrow>
    (int \<times> trap_frame \<times> kernel) option" where
  "cell_block_current_on_socket_write_timeout fd buf len timeout irq frame k =
     block_current (\<lambda>k x. (socket_wait fd timeout k x)\<lparr>pipe_buf := buf, pipe_len := len, socket_addr := 0,
       socket_addrlen := 0, socket_msg := False, socket_write := True, socket_msg_addr := 0, socket_iov := 0,
       socket_iovlen := 0, socket_flags := 0\<rparr>) irq frame k"

definition cell_block_current_on_socket_sendmsg_timeout :: "int \<Rightarrow> u64 \<Rightarrow> u64 \<Rightarrow> irqs \<Rightarrow> trap_frame \<Rightarrow> kernel \<Rightarrow>
    (int \<times> trap_frame \<times> kernel) option" where
  "cell_block_current_on_socket_sendmsg_timeout fd msg_addr timeout irq frame k =
     block_current (\<lambda>k x. (socket_wait fd timeout k x)\<lparr>pipe_buf := 0, pipe_len := 0, socket_addr := 0,
       socket_addrlen := 0, socket_msg := True, socket_write := True, socket_msg_addr := msg_addr, socket_iov := 0,
       socket_iovlen := 0, socket_flags := 0\<rparr>) irq frame k"

definition cell_block_current_on_socket_msg_timeout :: "int \<Rightarrow> u64 \<Rightarrow> u64 \<Rightarrow> u64 \<Rightarrow> u64 \<Rightarrow> u64 \<Rightarrow> u32 \<Rightarrow> u64 \<Rightarrow>
    irqs \<Rightarrow> trap_frame \<Rightarrow> kernel \<Rightarrow> (int \<times> trap_frame \<times> kernel) option" where
  "cell_block_current_on_socket_msg_timeout fd msg_addr iov iovlen addr addrlen flags timeout irq frame k =
     block_current (\<lambda>k x. (socket_wait fd timeout k x)\<lparr>pipe_buf := 0, pipe_len := 0, socket_addr := addr,
       socket_addrlen := addrlen, socket_msg := True, socket_write := False, socket_msg_addr := msg_addr,
       socket_iov := iov, socket_iovlen := iovlen, socket_flags := flags\<rparr>) irq frame k"

definition cell_block_current_on_socket_msg :: "int \<Rightarrow> u64 \<Rightarrow> u64 \<Rightarrow> u64 \<Rightarrow> u64 \<Rightarrow> u64 \<Rightarrow> u32 \<Rightarrow> irqs \<Rightarrow>
    trap_frame \<Rightarrow> kernel \<Rightarrow> (int \<times> trap_frame \<times> kernel) option" where
  "cell_block_current_on_socket_msg fd msg_addr iov iovlen addr addrlen flags irq frame k =
     cell_block_current_on_socket_msg_timeout fd msg_addr iov iovlen addr addrlen flags 0 irq frame k"

definition cell_futex_wait_current :: "u64 \<Rightarrow> u32 \<Rightarrow> irqs \<Rightarrow> trap_frame \<Rightarrow> kernel \<Rightarrow>
    (int \<times> trap_frame \<times> kernel) option" where
  "cell_futex_wait_current uaddr expected irq frame k =
     (if cell_current_domain k = None \<or> cell_current_thread k = None \<or> uaddr AND 3 \<noteq> 0 then Some (- EINVAL, frame, k)
      else let (ok, k) = cell_ensure_user_range uaddr 4 VMM_ACCESS_READ k
      in if \<not> ok then Some (- EFAULT, frame, k)
      else case copy_from_domain (cell_current_domain k) uaddr 4 k of
        None \<Rightarrow> Some (- EFAULT, frame, k)
      | Some bs \<Rightarrow>
        if of_nat (bytes_nat bs) \<noteq> expected then Some (- EAGAIN, frame, k)
        else block_current (\<lambda>k x. x\<lparr>th_wait_reason := WAIT_FUTEX, futex_addr := uaddr\<rparr>) irq frame k)"

subsection \<open>Waiting for files\<close>

definition wait_for_files :: "bool \<Rightarrow> u64 \<Rightarrow> kernel \<Rightarrow> thread \<Rightarrow> thread" where
  "wait_for_files has_timeout timeout k x =
     x\<lparr>th_wait_reason := WAIT_POLL, poll_has_deadline := has_timeout, poll_deadline_tick := k_ticks k + timeout\<rparr>"

text \<open>Saving the frame twice is saving it once, so the block saves it again.\<close>

definition cell_ppoll_current :: "u64 \<Rightarrow> u64 \<Rightarrow> bool \<Rightarrow> u64 \<Rightarrow> irqs \<Rightarrow> trap_frame \<Rightarrow> kernel \<Rightarrow>
    (int \<times> trap_frame \<times> kernel) option" where
  "cell_ppoll_current ufds nfds has_timeout timeout irq frame k =
     (case cell_current_thread k of
        None \<Rightarrow> Some (- EINVAL, frame, k)
      | Some t \<Rightarrow>
        if cell_current_domain k = None \<or> nfds > CELL_MAX_POLL_FDS then Some (- EINVAL, frame, k)
        else do {
          let k = upd_thread t (\<lambda>x. x\<lparr>poll_kind := 1, poll_fds := ufds, poll_nfds := nfds\<rparr>) (cell_save_current frame k);
          (ready, k) \<leftarrow> ppoll_check (Some t) True k;
          if ready \<noteq> 0 \<or> has_timeout \<and> timeout = 0 then Some (ready, frame, upd_thread t clear_poll_wait k)
          else block_current (wait_for_files has_timeout timeout) irq frame k
        })"

definition cell_pselect6_current :: "u64 \<Rightarrow> u64 \<Rightarrow> u64 \<Rightarrow> u64 \<Rightarrow> bool \<Rightarrow> u64 \<Rightarrow> irqs \<Rightarrow> trap_frame \<Rightarrow> kernel \<Rightarrow>
    (int \<times> trap_frame \<times> kernel) option" where
  "cell_pselect6_current nfds rfds wfds efds has_timeout timeout irq frame k =
     (case cell_current_thread k of
        None \<Rightarrow> Some (- EINVAL, frame, k)
      | Some t \<Rightarrow>
        if cell_current_domain k = None \<or> nfds > 64 then Some (- EINVAL, frame, k)
        else do {
          let k = upd_thread t (\<lambda>x. x\<lparr>poll_kind := 2, poll_nfds := nfds, poll_readfds := rfds, poll_writefds := wfds,
                    poll_exceptfds := efds\<rparr>) (cell_save_current frame k);
          (ready, k) \<leftarrow> pselect_check (Some t) False k;
          (ready, k) \<leftarrow> (if ready > 0 then pselect_check (Some t) True k else Some (ready, k));
          if ready \<noteq> 0 \<or> has_timeout \<and> timeout = 0 then do {
            (ready, k) \<leftarrow> (if ready = 0 then pselect_check (Some t) True k else Some (ready, k));
            Some (ready, frame, upd_thread t clear_poll_wait k)
          }
          else block_current (wait_for_files has_timeout timeout) irq frame k
        })"

definition cell_fd_epoll_create :: "u32 \<Rightarrow> kernel \<Rightarrow> int \<times> kernel" where
  "cell_fd_epoll_create flags k =
     (if flags AND NOT CELL_O_CLOEXEC \<noteq> 0 then (- EINVAL, k)
      else install_file (flags AND CELL_O_CLOEXEC)
        (\<lambda>f. f\<lparr>of_type := OPEN_EPOLL, of_flags := flags AND NOT CELL_O_CLOEXEC\<rparr>) k)"

definition EPOLL_CTL_ADD :: int where "EPOLL_CTL_ADD = 1"
definition EPOLL_CTL_DEL :: int where "EPOLL_CTL_DEL = 2"
definition EPOLL_CTL_MOD :: int where "EPOLL_CTL_MOD = 3"

definition cell_fd_epoll_ctl :: "int \<Rightarrow> int \<Rightarrow> int \<Rightarrow> u32 \<Rightarrow> u64 \<Rightarrow> kernel \<Rightarrow> int \<times> kernel" where
  "cell_fd_epoll_ctl epfd op fd events data k =
     (let dp = cell_current_domain k
      in case (fd_file dp epfd k, fd_file dp fd k) of
           (Some e, Some i) \<Rightarrow>
             let ws = of_epoll_watches (k_files k ! e);
                 put = (\<lambda>j w. upd_file e (\<lambda>f. f\<lparr>of_epoll_watches := ws[j := w]\<rparr>) k)
             in if of_type (k_files k ! e) \<noteq> OPEN_EPOLL then (- 9, k)
             else (case find (\<lambda>j. ew_used (ws ! j) \<and> ew_fd (ws ! j) = fd) [0..<length ws] of
               Some j \<Rightarrow>
                 if op = EPOLL_CTL_DEL then (0, put j zero_epoll_watch)
                 else if op = EPOLL_CTL_MOD \<or> op = EPOLL_CTL_ADD then (0, put j ((ws ! j)\<lparr>ew_events := events, ew_data := data\<rparr>))
                 else (- EINVAL, k)
             | None \<Rightarrow>
                 if op = EPOLL_CTL_DEL then (- 9, k)
                 else if op \<noteq> EPOLL_CTL_ADD \<and> op \<noteq> EPOLL_CTL_MOD then (- EINVAL, k)
                 else (case find (\<lambda>j. \<not> ew_used (ws ! j)) [0..<length ws] of
                   None \<Rightarrow> (- 12, k)
                 | Some j \<Rightarrow> (0, put j \<lparr>ew_used = True, ew_fd = fd, ew_events = events, ew_data = data\<rparr>)))
         | _ \<Rightarrow> (- 9, k))"

definition cell_fd_epoll_wait :: "int \<Rightarrow> u64 \<Rightarrow> int \<Rightarrow> kernel \<Rightarrow> (int \<times> kernel) option" where
  "cell_fd_epoll_wait epfd events_addr maxevents k =
     (if maxevents \<le> 0 then Some (- EINVAL, k)
      else let dp = cell_current_domain k;
               (ok, k) = cell_ensure_user_range events_addr (nat maxevents * 16) VMM_ACCESS_WRITE k
           in if \<not> ok then Some (- EFAULT, k) else epoll_wait_for_domain dp epfd events_addr maxevents True k)"

text \<open>The caller passes a frame, so the NULL test on it has no counterpart.\<close>

definition cell_epoll_wait_current :: "int \<Rightarrow> u64 \<Rightarrow> int \<Rightarrow> int \<Rightarrow> irqs \<Rightarrow> trap_frame \<Rightarrow> kernel \<Rightarrow>
    (int \<times> trap_frame \<times> kernel) option" where
  "cell_epoll_wait_current epfd events_addr maxevents timeout_ms irq frame k = do {
     (ready, k) \<leftarrow> cell_fd_epoll_wait epfd events_addr maxevents k;
     if ready \<noteq> 0 \<or> timeout_ms = 0 then Some (ready, frame, k)
     else block_current (\<lambda>k x. x\<lparr>th_wait_reason := WAIT_EPOLL, epoll_fd := epfd, epoll_events := events_addr,
            epoll_maxevents := maxevents, poll_has_deadline := (timeout_ms > 0),
            poll_deadline_tick := (if timeout_ms > 0 then k_ticks k + (word_of_int timeout_ms + 9) div 10 else 0)\<rparr>)
            irq frame k
   }"

declare schedule_loop.simps [code]

end
