(* ===== verification/Kprocess.thy ===== *)
theory Kprocess
  imports Ksched
begin

text \<open>
  Processes, \<^verbatim>\<open>kernel/src/proc/process.c\<close>: leaving, forking, cloning threads, waiting for children and
  replacing the program. \<open>irq\<close> is what happens while the scheduler waits, as in \<open>Ksched\<close>.
\<close>

definition ECHILD :: int where "ECHILD = 10"
definition ENOMEM :: int where "ENOMEM = 12"
definition WNOHANG :: u32 where "WNOHANG = 1"
definition CLONE_SETTLS :: u64 where "CLONE_SETTLS = 0x80000"
definition CLONE_PARENT_SETTID :: u64 where "CLONE_PARENT_SETTID = 0x100000"
definition CLONE_CHILD_CLEARTID :: u64 where "CLONE_CHILD_CLEARTID = 0x200000"
definition CLONE_CHILD_SETTID :: u64 where "CLONE_CHILD_SETTID = 0x1000000"

subsection \<open>Leaving\<close>

text \<open>Clearing the thread identifier in user memory and waking one thread that waits for it.\<close>

definition clear_tid :: "nat \<Rightarrow> kernel \<Rightarrow> kernel" where
  "clear_tid t k =
     (let th = k_threads k ! t; addr = clear_child_tid th; dp = th_domain th
      in if addr = 0 then k
         else let k = (if cell_domain_as dp k \<noteq> None then snd (copy_to_domain dp addr (le_bytes 4 0) k) else k)
              in snd (cell_futex_wake_domain dp addr 1 k))"

definition mark_exited :: "int \<Rightarrow> domain \<Rightarrow> domain" where
  "mark_exited status x = x\<lparr>exit_status := status, term_signal := 0, zombie := True\<rparr>"

text \<open>The end of both exits: the thread becomes a zombie, the parent is told, another thread runs.\<close>

definition finish_exit :: "nat \<Rightarrow> nat \<Rightarrow> irqs \<Rightarrow> trap_frame \<Rightarrow> kernel \<Rightarrow> (trap_frame \<times> kernel) option" where
  "finish_exit d t irq frame k = do {
     k \<leftarrow> cell_wake_parent_of d (upd_thread t (\<lambda>x. x\<lparr>th_state := THREAD_ZOMBIE, running_cpu := - 1\<rparr>) k);
     cell_schedule irq frame k
   }"

definition cell_exit_thread_current :: "int \<Rightarrow> irqs \<Rightarrow> trap_frame \<Rightarrow> kernel \<Rightarrow> (trap_frame \<times> kernel) option" where
  "cell_exit_thread_current status irq frame k =
     (case cell_current_thread k of
        None \<Rightarrow> Some (frame, k)
      | Some t \<Rightarrow>
        let dp = th_domain (k_threads k ! t); k = clear_tid t (cell_futex_cleanup_robust_list t k)
        in (case dp of
              None \<Rightarrow> None
            | Some d \<Rightarrow>
              if cell_runnable_or_blocked_threads_in_domain dp k \<le> 1 then do {
                k \<leftarrow> cell_close_all_fds d (upd_domain d (mark_exited status) k);
                finish_exit d t irq frame k
              }
              else cell_schedule irq frame (cell_release_thread (Some t) k)))"

text \<open>The loop of \<^verbatim>\<open>cell_exit_group_current\<close> on one other thread of the domain.\<close>

definition retire_thread :: "nat \<Rightarrow> nat \<Rightarrow> nat \<Rightarrow> kernel \<Rightarrow> kernel" where
  "retire_thread d cur_t t k =
     (let th = k_threads k ! t
      in if t = cur_t \<or> th_domain th \<noteq> Some d then k
         else if running_cpu th \<ge> 0 then upd_thread t (\<lambda>x. x\<lparr>th_state := THREAD_ZOMBIE\<rparr>) k
         else drop_domain_ref d
                (upd_thread t (\<lambda>x. x\<lparr>th_state := THREAD_UNUSED, running_cpu := - 1, th_domain := None\<rparr>) k))"

definition cell_exit_group_current :: "int \<Rightarrow> irqs \<Rightarrow> trap_frame \<Rightarrow> kernel \<Rightarrow> (trap_frame \<times> kernel) option" where
  "cell_exit_group_current status irq frame k =
     (case cell_current_thread k of
        None \<Rightarrow> Some (frame, k)
      | Some t \<Rightarrow>
        (case th_domain (k_threads k ! t) of
           None \<Rightarrow> None
         | Some d \<Rightarrow> do {
             k \<leftarrow> cell_close_all_fds d (upd_domain d (mark_exited status) (clear_tid t k));
             let k = fold (retire_thread d t) [0..<length (k_threads k)] k;
             finish_exit d t irq frame k
           }))"

subsection \<open>Forking\<close>

text \<open>What a new thread takes over from its creator.\<close>

definition inherit_thread :: "thread \<Rightarrow> thread \<Rightarrow> thread" where
  "inherit_thread p c = set_x 0 0 (c\<lparr>th_state := THREAD_RUNNABLE, th_tf := th_tf p, th_fp := th_fp p,
     signal_mask := signal_mask p, pending_signals := 0, sigaltstack_sp := sigaltstack_sp p,
     sigaltstack_size := sigaltstack_size p, sigaltstack_flags := sigaltstack_flags p\<rparr>)"

text \<open>The domain part of a fork: metadata, open files and the parent.\<close>

definition inherit_domain :: "nat \<Rightarrow> nat \<Rightarrow> kernel \<Rightarrow> kernel" where
  "inherit_domain c p k =
     upd_domain c (\<lambda>x. x\<lparr>parent_id := dom_id (k_domains k ! p)\<rparr>)
       (cell_copy_fd_table c p (cell_copy_domain_metadata c p k))"

definition undo_fork :: "nat \<Rightarrow> nat \<Rightarrow> kernel \<Rightarrow> kernel" where
  "undo_fork c ct k =
     upd_domain c (\<lambda>x. x\<lparr>dom_used := False\<rparr>) (upd_thread ct (\<lambda>x. x\<lparr>th_state := THREAD_UNUSED\<rparr>) k)"

definition copy_name :: "nat \<Rightarrow> nat \<Rightarrow> kernel \<Rightarrow> kernel" where
  "copy_name c p k =
     upd_domain c (\<lambda>x. x\<lparr>dom_name := copy_cstr (dom_name x) 32 (Some (dom_name (k_domains k ! p)))\<rparr>) k"

definition cell_fork_current :: "trap_frame \<Rightarrow> kernel \<Rightarrow> (int \<times> kernel) option" where
  "cell_fork_current frame k =
     (let parent = cell_current_domain k; (child, k) = cell_alloc_domain k
      in case (cell_current_thread k, parent, domain_mm parent k) of
           (Some t, Some p, Some mm) \<Rightarrow>
             (case child of
                None \<Rightarrow> Some (- EAGAIN, k)
              | Some c \<Rightarrow>
                (case cell_alloc_thread c k of
                   (None, k) \<Rightarrow> Some (- EAGAIN, upd_domain c (\<lambda>x. x\<lparr>dom_used := False\<rparr>) k)
                 | (Some ct, k) \<Rightarrow> do {
                     (child_mm, k) \<leftarrow> cell_mm_clone_cow (Some mm) (cell_save_current frame k);
                     (ok, k) \<leftarrow> cell_domain_set_mm (Some c) child_mm k;
                     if \<not> ok then do {
                       k \<leftarrow> cell_mm_release child_mm k;
                       Some (- ENOMEM, undo_fork c ct k)
                     }
                     else
                       let k = inherit_domain c p k;
                           k = upd_thread ct (\<lambda>x. (inherit_thread (k_threads k ! t) x)
                                 \<lparr>tpidr_el0 := tpidr_el0 (k_threads k ! t)\<rparr>) k;
                           id = dom_id (k_domains k ! c)
                       in Some (id, copy_name c p (upd_thread t (ret id) k))
                   }))
         | _ \<Rightarrow> Some (- ENOMEM, k))"

text \<open>Writing an identifier to user memory when the flag asks for it; failure is reported.\<close>

definition store_tid :: "bool \<Rightarrow> u64 \<Rightarrow> nat \<Rightarrow> int \<Rightarrow> kernel \<Rightarrow> bool \<times> kernel" where
  "store_tid wanted addr d i k =
     (if wanted \<and> addr \<noteq> 0 then
        (if cell_domain_as (Some d) k = None then (False, k)
         else copy_to_domain (Some d) addr (le_bytes 4 (unat (word_of_int i :: u32))) k)
      else (True, k))"

definition abandon_child :: "nat \<Rightarrow> nat \<Rightarrow> kernel \<Rightarrow> kernel option" where
  "abandon_child c ct k = cell_destroy_domain c (cell_release_thread (Some ct) k)"

definition cell_vfork_current :: "u64 \<Rightarrow> u64 \<Rightarrow> u64 \<Rightarrow> u64 \<Rightarrow> u64 \<Rightarrow> irqs \<Rightarrow> trap_frame \<Rightarrow> kernel \<Rightarrow>
    (int \<times> trap_frame \<times> kernel) option" where
  "cell_vfork_current newsp flags parent_tid tls child_tid irq frame k =
     (case (cell_current_thread k, cell_current_domain k, domain_mm (cell_current_domain k) k) of
        (Some t, Some p, Some mm) \<Rightarrow>
          (case cell_alloc_domain k of
             (None, k) \<Rightarrow> Some (- EAGAIN, frame, k)
           | (Some c, k) \<Rightarrow>
             (case cell_alloc_thread c k of
                (None, k) \<Rightarrow> Some (- EAGAIN, frame, upd_domain c (\<lambda>x. x\<lparr>dom_used := False\<rparr>) k)
              | (Some ct, k) \<Rightarrow>
                let (mm, k) = cell_mm_retain (Some mm) (cell_save_current frame k)
                in do {
                  (ok, k) \<leftarrow> cell_domain_set_mm (Some c) mm k;
                  if \<not> ok then Some (- ENOMEM, frame, undo_fork c ct k)
                  else do {
                    let k = inherit_domain c p k;
                    let th = k_threads k ! t;
                    let k = upd_thread ct (\<lambda>x. let x = inherit_thread th x;
                               x = (if newsp \<noteq> 0 then x\<lparr>th_tf := (th_tf x)\<lparr>sp_el0 := newsp\<rparr>\<rparr> else x)
                             in x\<lparr>tpidr_el0 := (if flags AND CLONE_SETTLS \<noteq> 0 then tls else tpidr_el0 th),
                                  clear_child_tid := (if flags AND CLONE_CHILD_CLEARTID \<noteq> 0 then child_tid else 0)\<rparr>) k;
                    let id = dom_id (k_domains k ! c);
                    let (ok, k) = store_tid (flags AND CLONE_PARENT_SETTID \<noteq> 0) parent_tid p id k;
                    if \<not> ok then do { k \<leftarrow> abandon_child c ct k; Some (- EFAULT, frame, k) }
                    else do {
                      let (ok, k) = store_tid (flags AND CLONE_CHILD_SETTID \<noteq> 0) child_tid c id k;
                      if \<not> ok then do { k \<leftarrow> abandon_child c ct k; Some (- EFAULT, frame, k) }
                      else do {
                        let k = copy_name c p (upd_thread t (ret id) k);
                        let frame = frame\<lparr>tf_x := (tf_x frame)[0 := word_of_int id]\<rparr>;
                        (frame, k) \<leftarrow> cell_schedule irq frame
                           (upd_thread t (\<lambda>x. x\<lparr>th_state := THREAD_BLOCKED, running_cpu := - 1,
                              th_wait_reason := WAIT_VFORK, wait_target := id\<rparr>) k);
                        Some (CELL_SWITCHED, frame, k)
                      }
                    }
                  }
                }))
      | _ \<Rightarrow> Some (- ENOMEM, frame, k))"

definition cell_clone_thread_current :: "u64 \<Rightarrow> u64 \<Rightarrow> u64 \<Rightarrow> u64 \<Rightarrow> u64 \<Rightarrow> trap_frame \<Rightarrow> kernel \<Rightarrow> int \<times> kernel" where
  "cell_clone_thread_current flags newsp parent_tid tls child_tid frame k =
     (case (cell_current_domain k, cell_current_thread k) of
        (Some d, Some t) \<Rightarrow>
          if newsp = 0 then (- 22, k)
          else (case cell_alloc_thread d k of
            (None, k) \<Rightarrow> (- EAGAIN, k)
          | (Some ct, k) \<Rightarrow>
            let k = cell_save_current frame k; p = k_threads k ! t;
                k = upd_thread ct (\<lambda>x. set_x 0 0 (x\<lparr>th_state := THREAD_RUNNABLE, th_tf := (th_tf p)\<lparr>sp_el0 := newsp\<rparr>,
                      th_fp := th_fp p, signal_mask := signal_mask p, pending_signals := 0, sigaltstack_flags := 2,
                      tpidr_el0 := (if flags AND CLONE_SETTLS \<noteq> 0 then tls else tpidr_el0 p),
                      clear_child_tid := (if flags AND CLONE_CHILD_CLEARTID \<noteq> 0 then child_tid else 0)\<rparr>)) k;
                i = tid (k_threads k ! ct);
                k = snd (store_tid (flags AND CLONE_PARENT_SETTID \<noteq> 0) parent_tid d i k);
                k = snd (store_tid (flags AND CLONE_CHILD_SETTID \<noteq> 0) child_tid d i k)
            in (i, upd_thread t (ret i) k))
      | _ \<Rightarrow> (- 22, k))"

definition cell_set_tid_address_current :: "u64 \<Rightarrow> kernel \<Rightarrow> int \<times> kernel" where
  "cell_set_tid_address_current addr k =
     (case cell_current_thread k of
        None \<Rightarrow> (0, k)
      | Some t \<Rightarrow> (tid (k_threads k ! t), upd_thread t (\<lambda>x. x\<lparr>clear_child_tid := addr\<rparr>) k))"

subsection \<open>Waiting for a child\<close>

definition child_matches :: "int \<Rightarrow> int \<Rightarrow> domain \<Rightarrow> bool" where
  "child_matches parent pid x \<longleftrightarrow> dom_used x \<and> parent_id x = parent \<and> (pid \<le> 0 \<or> dom_id x = pid)"

definition find_waitable_child :: "int \<Rightarrow> int \<Rightarrow> kernel \<Rightarrow> nat option" where
  "find_waitable_child parent pid k =
     find (\<lambda>d. zombie (k_domains k ! d) \<and> child_matches parent pid (k_domains k ! d)) [0..<length (k_domains k)]"

definition has_child :: "int \<Rightarrow> int \<Rightarrow> kernel \<Rightarrow> bool" where
  "has_child parent pid k = list_ex (child_matches parent pid) (k_domains k)"

definition reap_child :: "nat \<Rightarrow> kernel \<Rightarrow> kernel option" where
  "reap_child c k =
     (let busy = domain_has_running_thread c k;
          k = (case cell_thread_for_domain c k of
                 None \<Rightarrow> k
               | Some ct \<Rightarrow> upd_thread ct (\<lambda>x. x\<lparr>th_state := if busy then THREAD_ZOMBIE else THREAD_UNUSED\<rparr>) k)
      in if busy then Some (upd_domain c (\<lambda>x. x\<lparr>parent_id := 0\<rparr>) k) else cell_destroy_domain c k)"

definition cell_wait4_options :: "int \<Rightarrow> u64 \<Rightarrow> u32 \<Rightarrow> irqs \<Rightarrow> trap_frame \<Rightarrow> kernel \<Rightarrow>
    (int \<times> trap_frame \<times> kernel) option" where
  "cell_wait4_options pid status_addr options irq frame k =
     (case (cell_current_thread k, cell_current_domain k) of
        (Some t, Some d) \<Rightarrow>
          let me = dom_id (k_domains k ! d)
          in (case find_waitable_child me pid k of
                None \<Rightarrow>
                  if \<not> has_child me pid k then Some (- ECHILD, frame, k)
                  else if options AND WNOHANG \<noteq> 0 then Some (0, frame, k)
                  else block_current (\<lambda>k x. x\<lparr>th_wait_reason := WAIT_CHILD, wait_target := pid\<rparr>) irq frame k
              | Some c \<Rightarrow>
                let child = k_domains k ! c;
                    (ok, k) = (if status_addr = 0 then (True, k)
                               else if cell_domain_as (Some d) k = None then (False, k)
                               else copy_to_domain (Some d) status_addr (le_bytes 4 (unat (wait_status child))) k)
                in if \<not> ok then Some (- 14, frame, k)
                   else do {
                     k \<leftarrow> reap_child c k;
                     Some (dom_id child, frame, upd_thread t (\<lambda>x. x\<lparr>wait_target := - 1, th_wait_reason := WAIT_NONE\<rparr>) k)
                   })
      | _ \<Rightarrow> Some (- ECHILD, frame, k))"

definition cell_wait4 :: "int \<Rightarrow> u64 \<Rightarrow> irqs \<Rightarrow> trap_frame \<Rightarrow> kernel \<Rightarrow> (int \<times> trap_frame \<times> kernel) option" where
  "cell_wait4 pid status_addr irq frame k = cell_wait4_options pid status_addr 0 irq frame k"

subsection \<open>Replacing the program\<close>

definition drop_sibling :: "nat \<Rightarrow> nat \<Rightarrow> nat \<Rightarrow> kernel \<Rightarrow> kernel" where
  "drop_sibling d cur_t t k =
     (if t = cur_t \<or> th_domain (k_threads k ! t) \<noteq> Some d then k
      else drop_domain_ref d (upd_thread t (\<lambda>x. x\<lparr>th_state := THREAD_UNUSED, th_domain := None\<rparr>) k))"

fun close_on_exec :: "nat \<Rightarrow> nat list \<Rightarrow> kernel \<Rightarrow> kernel option" where
  "close_on_exec d [] k = Some k"
| "close_on_exec d (fd # fs) k =
     (let x = k_domains k ! d
      in if fds x ! fd \<noteq> None \<and> fd_flags x ! fd \<noteq> 0 then do {
           k \<leftarrow> cell_release_open_file (fds x ! fd) k;
           close_on_exec d fs (set_fd d fd None 0 k)
         } else close_on_exec d fs k)"

definition exec_frame :: "u64 \<Rightarrow> u64 \<Rightarrow> trap_frame" where
  "exec_frame entry sp = zero_frame\<lparr>elr_el1 := entry, sp_el0 := sp, spsr_el1 := 0x340\<rparr>"

text \<open>On success the frame of the new program; the address space and areas given are then owned.\<close>

definition cell_exec_replace :: "user_address_space \<Rightarrow> vma_list \<Rightarrow> u64 \<Rightarrow> u64 \<Rightarrow> cstr option \<Rightarrow> cstr option list \<Rightarrow>
    kernel \<Rightarrow> (trap_frame option \<times> kernel) option" where
  "cell_exec_replace as vmas entry sp path argv k =
     (case (cell_current_domain k, cell_current_thread k) of
        (Some d, Some t) \<Rightarrow>
          (case cell_mm_from_owned (Some as) (Some vmas) k of
             (None, _, _, k) \<Rightarrow> Some (None, k)
           | (Some mm, _, _, k) \<Rightarrow> do {
               k \<leftarrow> close_on_exec d [0..<MAX_FDS] (fold (drop_sibling d t) [0..<length (k_threads k)] k);
               (ok, k) \<leftarrow> cell_domain_set_mm (Some d) (Some mm) k;
               let k = cell_set_domain_identity (Some d) path argv
                         (upd_domain d (\<lambda>x. x\<lparr>signal_actions := replicate 65 zero_action\<rparr>) k);
               let k = (case cell_domain_as (Some d) k of None \<Rightarrow> k | Some a \<Rightarrow> vmm_install_user a k);
               let k = upd_thread t (\<lambda>x. x\<lparr>th_tf := exec_frame entry sp, th_fp := zero_fp, tpidr_el0 := 0\<rparr>) k;
               let k = k\<lparr>k_fp := zero_fp, k_tpidr := 0\<rparr>;
               Some (Some (exec_frame entry sp), cell_wake_vfork_parent_of (dom_id (k_domains k ! d)) k)
             })
      | _ \<Rightarrow> Some (None, k))"

definition cell_set_budget :: "int \<Rightarrow> u64 \<Rightarrow> kernel \<Rightarrow> int \<times> kernel" where
  "cell_set_budget domain_id ticks k =
     (case self_or_find domain_id k of
        None \<Rightarrow> (- 3, k)
      | Some d \<Rightarrow> (0, upd_domain d (\<lambda>x. x\<lparr>budget := \<lparr>remaining_ticks = ticks, max_ticks = ticks\<rparr>\<rparr>) k))"

end
