(* ===== verification/Kframe.thy ===== *)
theory Kframe
  imports Kprocess Vmm_Range
begin

text \<open>
  What operations leave unchanged. The operations of the process code are built from a few
  elementary changes of the kernel state; a preorder on states that holds for those changes
  holds for every operation. The preorder is the parameter of the locales below, one per layer of
  the code; the theories that follow interpret them with the preorders their properties need.
\<close>

subsection \<open>Selectors after updates\<close>

lemma upd_domain_frame [simp]:
  "k_sys (upd_domain i f k) = k_sys k" "k_mms (upd_domain i f k) = k_mms k"
  "k_threads (upd_domain i f k) = k_threads k" "k_files (upd_domain i f k) = k_files k"
  "k_pipes (upd_domain i f k) = k_pipes k" "k_cpu (upd_domain i f k) = k_cpu k"
  "k_current (upd_domain i f k) = k_current k" "k_ticks (upd_domain i f k) = k_ticks k"
  "k_calls (upd_domain i f k) = k_calls k" "k_env (upd_domain i f k) = k_env k"
  "k_pipe_waking (upd_domain i f k) = k_pipe_waking k" "k_waiting (upd_domain i f k) = k_waiting k"
  "length (k_domains (upd_domain i f k)) = length (k_domains k)"
  by (simp_all add: upd_domain_def)

lemma upd_thread_frame [simp]:
  "k_sys (upd_thread i f k) = k_sys k" "k_mms (upd_thread i f k) = k_mms k"
  "k_domains (upd_thread i f k) = k_domains k" "k_files (upd_thread i f k) = k_files k"
  "k_pipes (upd_thread i f k) = k_pipes k" "k_cpu (upd_thread i f k) = k_cpu k"
  "k_current (upd_thread i f k) = k_current k" "k_ticks (upd_thread i f k) = k_ticks k"
  "k_calls (upd_thread i f k) = k_calls k" "k_env (upd_thread i f k) = k_env k"
  "k_pipe_waking (upd_thread i f k) = k_pipe_waking k" "k_waiting (upd_thread i f k) = k_waiting k"
  "length (k_threads (upd_thread i f k)) = length (k_threads k)"
  by (simp_all add: upd_thread_def)

lemma upd_file_frame [simp]:
  "k_sys (upd_file i f k) = k_sys k" "k_mms (upd_file i f k) = k_mms k"
  "k_domains (upd_file i f k) = k_domains k" "k_threads (upd_file i f k) = k_threads k"
  "k_pipes (upd_file i f k) = k_pipes k" "k_cpu (upd_file i f k) = k_cpu k"
  "k_current (upd_file i f k) = k_current k" "k_ticks (upd_file i f k) = k_ticks k"
  "k_calls (upd_file i f k) = k_calls k" "k_env (upd_file i f k) = k_env k"
  "k_pipe_waking (upd_file i f k) = k_pipe_waking k" "k_waiting (upd_file i f k) = k_waiting k"
  "length (k_files (upd_file i f k)) = length (k_files k)"
  by (simp_all add: upd_file_def)

lemma upd_mm_frame [simp]:
  "k_sys (upd_mm i f k) = k_sys k" "k_files (upd_mm i f k) = k_files k"
  "k_domains (upd_mm i f k) = k_domains k" "k_threads (upd_mm i f k) = k_threads k"
  "k_pipes (upd_mm i f k) = k_pipes k" "k_cpu (upd_mm i f k) = k_cpu k"
  "k_current (upd_mm i f k) = k_current k" "k_ticks (upd_mm i f k) = k_ticks k"
  "k_calls (upd_mm i f k) = k_calls k" "k_env (upd_mm i f k) = k_env k"
  "k_pipe_waking (upd_mm i f k) = k_pipe_waking k" "k_waiting (upd_mm i f k) = k_waiting k"
  "length (k_mms (upd_mm i f k)) = length (k_mms k)"
  by (simp_all add: upd_mm_def)

lemma upd_pipe_frame [simp]:
  "k_sys (upd_pipe i f k) = k_sys k" "k_files (upd_pipe i f k) = k_files k"
  "k_domains (upd_pipe i f k) = k_domains k" "k_threads (upd_pipe i f k) = k_threads k"
  "k_mms (upd_pipe i f k) = k_mms k" "k_cpu (upd_pipe i f k) = k_cpu k"
  "k_current (upd_pipe i f k) = k_current k" "k_ticks (upd_pipe i f k) = k_ticks k"
  "k_calls (upd_pipe i f k) = k_calls k" "k_env (upd_pipe i f k) = k_env k"
  "k_pipe_waking (upd_pipe i f k) = k_pipe_waking k" "k_waiting (upd_pipe i f k) = k_waiting k"
  "length (k_pipes (upd_pipe i f k)) = length (k_pipes k)"
  by (simp_all add: upd_pipe_def)

lemma set_machine_frame [simp]:
  "k_mms (set_machine m k) = k_mms k" "k_files (set_machine m k) = k_files k"
  "k_domains (set_machine m k) = k_domains k" "k_threads (set_machine m k) = k_threads k"
  "k_pipes (set_machine m k) = k_pipes k" "k_cpu (set_machine m k) = k_cpu k"
  "k_current (set_machine m k) = k_current k" "k_ticks (set_machine m k) = k_ticks k"
  "k_calls (set_machine m k) = k_calls k" "k_env (set_machine m k) = k_env k"
  "k_pipe_waking (set_machine m k) = k_pipe_waking k" "k_waiting (set_machine m k) = k_waiting k"
  "k_machine (set_machine m k) = m"
  by (simp_all add: set_machine_def k_machine_def)

lemma note_call_frame [simp]:
  "k_mms (note_call c k) = k_mms k" "k_files (note_call c k) = k_files k"
  "k_domains (note_call c k) = k_domains k" "k_threads (note_call c k) = k_threads k"
  "k_pipes (note_call c k) = k_pipes k" "k_cpu (note_call c k) = k_cpu k"
  "k_current (note_call c k) = k_current k" "k_ticks (note_call c k) = k_ticks k"
  "k_sys (note_call c k) = k_sys k" "k_env (note_call c k) = k_env k"
  "k_pipe_waking (note_call c k) = k_pipe_waking k" "k_waiting (note_call c k) = k_waiting k"
  "k_machine (note_call c k) = k_machine k"
  by (simp_all add: note_call_def k_machine_def)

lemma machine_frame [simp]:
  "k_machine (upd_domain i f1 k) = k_machine k" "k_machine (upd_thread i f2 k) = k_machine k"
  "k_machine (upd_file i f3 k) = k_machine k" "k_machine (upd_mm i f4 k) = k_machine k"
  "k_machine (upd_pipe i f5 k) = k_machine k"
  by (simp_all add: k_machine_def)

lemma nth_upd:
  "i < length (k_domains k) \<Longrightarrow> k_domains (upd_domain i f1 k) ! j = (if j = i then f1 (k_domains k ! i) else k_domains k ! j)"
  "i < length (k_threads k) \<Longrightarrow> k_threads (upd_thread i f2 k) ! j = (if j = i then f2 (k_threads k ! i) else k_threads k ! j)"
  "i < length (k_files k) \<Longrightarrow> k_files (upd_file i f3 k) ! j = (if j = i then f3 (k_files k ! i) else k_files k ! j)"
  "i < length (k_pipes k) \<Longrightarrow> k_pipes (upd_pipe i f4 k) ! j = (if j = i then f4 (k_pipes k ! i) else k_pipes k ! j)"
  "i < length (k_mms k) \<Longrightarrow> k_mms (upd_mm i f5 k) ! j = (if j = i then f5 (k_mms k ! i) else k_mms k ! j)"
  by (auto simp: upd_domain_def upd_thread_def upd_file_def upd_pipe_def upd_mm_def)

subsection \<open>Memory operations\<close>

locale mem_frame =
  fixes R :: "kernel \<Rightarrow> kernel \<Rightarrow> bool"
  assumes keeps_refl: "R k k"
    and keeps_trans: "R k1 k2 \<Longrightarrow> R k2 k3 \<Longrightarrow> R k1 k3"
    and keeps_machine: "R k (set_machine m k)"
    and keeps_note: "R k (note_call c k)"
    and keeps_fault: "R k (note_fault dp major k)"
    and keeps_grow: "vma_grow_down (mm_vmas (k_mms k ! i)) page fl = (True, l, g) \<Longrightarrow>
      R k (upd_mm i (\<lambda>mm. mm\<lparr>mm_vmas := l\<rparr>) k)"
begin

lemmas keeps_after = keeps_trans[OF _ keeps_machine] keeps_trans[OF _ keeps_note] keeps_trans[OF _ keeps_fault]

lemma keeps_on_machine: "on_machine f k = (r, k') \<Longrightarrow> R k k'"
  by (auto simp: on_machine_def Let_def keeps_machine split: prod.splits)

lemma keeps_ask:
  "ask_int c k = (r1, k') \<Longrightarrow> R k k'" "ask_bool c k = (r2, k') \<Longrightarrow> R k k'"
  "ask_bytes c k = (r3, k') \<Longrightarrow> R k k'" "ask_node c k = (r4, k') \<Longrightarrow> R k k'"
  by (auto simp: ask_int_def ask_bool_def ask_bytes_def ask_node_def keeps_note)

lemma keeps_ask_frame: "ask_frame c k = (r, k') \<Longrightarrow> R k k'"
  by (auto simp: ask_frame_def Let_def intro: keeps_trans[OF keeps_note keeps_machine] split: prod.splits)

lemma keeps_copy_to_domain: "copy_to_domain dp va bs k = (r, k') \<Longrightarrow> R k k'"
  by (auto simp: copy_to_domain_def keeps_refl intro: keeps_on_machine split: option.splits)

lemma keeps_file_copy_loop: "file_copy_loop node dst off n k = (r, k') \<Longrightarrow> R k k'"
proof (induction node dst off n k rule: file_copy_loop.induct)
  case (1 node dst off n k)
  obtain b k1 where a: "ask_bytes (VfsReadPage node (off AND NOT (PAGE_SIZE - 1))) k = (b, k1)"
    by fastforce
  have k1: "R k k1" by (rule keeps_ask(3)[OF a])
  show ?case
  proof (cases "n = 0 \<or> b = None")
    case True
    then show ?thesis using 1(2) a k1
      by (subst (asm) file_copy_loop.simps) (auto simp: Let_def keeps_refl split: if_splits)
  next
    case False
    then obtain page where n: "n \<noteq> 0" and Some: "b = Some page" by auto
    from 1(2) a k1 n Some 1(1)[OF n refl refl a[symmetric] Some refl refl] show ?thesis
      by (subst (asm) file_copy_loop.simps) (auto simp: Let_def intro: keeps_trans[OF keeps_trans[OF k1 keeps_machine]])
  qed
qed

lemma keeps_private_copy: "private_copy as v page k = (r, k') \<Longrightarrow> R k k'"
  by (auto simp: private_copy_def Let_def split: prod.splits if_splits
      dest!: keeps_file_copy_loop keeps_on_machine
      intro!: keeps_after intro: keeps_machine keeps_refl keeps_trans[OF keeps_machine] keeps_trans)

lemma keeps_fault_file_page: "fault_file_page dp v page k = (r, k') \<Longrightarrow> R k k'"
  by (auto simp: fault_file_page_def Let_def split: prod.splits if_splits option.splits
      dest!: keeps_on_machine keeps_private_copy keeps_ask_frame
      intro!: keeps_after intro: keeps_refl keeps_trans)

lemma keeps_cell_grow_down_vma: "cell_grow_down_vma page fl k = (r, k') \<Longrightarrow> R k k'"
  by (auto simp: cell_grow_down_vma_def Let_def keeps_refl split: prod.splits if_splits option.splits
      intro: keeps_grow)

lemma keeps_lookup_or_grow: "lookup_or_grow l page k = (r, k') \<Longrightarrow> R k k'"
  by (auto simp: lookup_or_grow_def keeps_refl split: option.splits dest: keeps_cell_grow_down_vma)

lemma keeps_ensure_mapped: "ensure_mapped dp as page access k = (r, k') \<Longrightarrow> R k k'"
  by (auto simp: ensure_mapped_def Let_def keeps_refl split: prod.splits if_splits option.splits
      dest!: keeps_on_machine keeps_fault_file_page keeps_lookup_or_grow
      intro!: keeps_after intro: keeps_trans)

lemma keeps_ensure_page: "ensure_page dp as access page k = (r, k') \<Longrightarrow> R k k'"
  by (auto simp: ensure_page_def Let_def split: prod.splits if_splits bool.splits
      dest!: keeps_on_machine keeps_ensure_mapped
      intro!: keeps_after intro: keeps_trans)

lemma keeps_ensure_pages: "ensure_pages dp as access ps k = (r, k') \<Longrightarrow> R k k'"
  by (induction ps arbitrary: k)
    (auto simp: keeps_refl split: prod.splits bool.splits dest!: keeps_ensure_page intro: keeps_trans)

lemma keeps_ensure_user_range: "cell_domain_ensure_user_range dp va len access k = (r, k') \<Longrightarrow> R k k'"
  by (auto simp: cell_domain_ensure_user_range_def Let_def keeps_refl split: if_splits option.splits
      dest: keeps_ensure_pages)

end

subsection \<open>Polling and waking\<close>

locale wake_frame = mem_frame +
  assumes keeps_thread: "(\<And>x. th_domain (f x) = th_domain x) \<Longrightarrow> (\<And>x. running_cpu (f x) = running_cpu x) \<Longrightarrow> R k (upd_thread t f k)"
    and keeps_poll_flag: "R k (k\<lparr>k_poll_waking := b\<rparr>)"
    and keeps_epoll_flag: "R k (k\<lparr>k_epoll_waking := b\<rparr>)"
begin

lemma keeps_resumed:
  "R k (upd_thread t (\<lambda>x. clear_poll_wait (resume (ret r x))) k)"
  "R k (upd_thread t (\<lambda>x. clear_epoll_wait (resume (ret r x))) k)"
  "R k (upd_thread t (\<lambda>x. clear_pipe_wait (resume (ret r x))) k)"
  by (rule keeps_thread; simp add: clear_poll_wait_def clear_epoll_wait_def clear_pipe_wait_def resume_def ret_def set_x_def)+

lemmas keeps_later = keeps_after keeps_resumed[THEN keeps_trans[rotated]] keeps_trans[OF _ keeps_poll_flag]
  keeps_trans[OF _ keeps_epoll_flag]

lemma keeps_poll_conditions: "poll_conditions i k = (r, k') \<Longrightarrow> R k k'"
  by (auto simp: poll_conditions_def Let_def keeps_refl split: prod.splits if_splits dest!: keeps_ask(2)
      intro: keeps_trans)

lemma keeps_poll_in: "poll_in i k = (r, k') \<Longrightarrow> R k k'"
  by (auto simp: poll_in_def Let_def keeps_refl split: if_splits open_file_type.splits
      dest!: keeps_ask(2) intro: keeps_trans[OF keeps_note])

lemma keeps_poll_out: "poll_out i k = (r, k') \<Longrightarrow> R k k'"
  by (auto simp: poll_out_def Let_def keeps_refl split: if_splits open_file_type.splits dest!: keeps_ask(2))

lemma keeps_snd:
  "R k (snd (copy_to_domain dp va bs k))" "R k (snd (poll_in i k))" "R k (snd (poll_out i k))"
  "R k (snd (poll_conditions i k))"
  using keeps_copy_to_domain[of dp va bs k] keeps_poll_in[of i k] keeps_poll_out[of i k] keeps_poll_conditions[of i k]
  by (metis prod.collapse)+

lemma keeps_any_ready:
  assumes "\<And>fd ev k r k'. events fd ev k = Some (r, k') \<Longrightarrow> R k k'"
  shows "any_ready events ws k = Some (r, k') \<Longrightarrow> R k k'"
  by (induction ws arbitrary: k)
    (auto simp: keeps_refl bind_eq_Some_conv split: if_splits dest!: assms intro: keeps_trans)

lemma keeps_poll_events_depth: "poll_events_depth n dp fd ev k = Some (r, k') \<Longrightarrow> R k k'"
proof (induction n arbitrary: fd ev k r k')
  case (Suc n)
  have keep: "any_ready (poll_events_depth n dp) ws j = Some (q, j') \<Longrightarrow> R j j'" for ws j q j'
    using keeps_any_ready[of "poll_events_depth n dp"] Suc.IH by blast
  from Suc.prems show ?case
    by (auto simp: keeps_refl bind_eq_Some_conv Let_def split_beta split: option.split_asm if_split_asm
        dest!: keep keeps_poll_in intro: keeps_trans[OF keeps_snd(4)] keeps_trans keeps_snd)
qed simp

lemma keeps_fd_poll_events: "fd_poll_events_for_domain dp fd ev k = Some (r, k') \<Longrightarrow> R k k'"
  unfolding fd_poll_events_for_domain_def by (rule keeps_poll_events_depth)

lemma keeps_copy_then: "R k b \<Longrightarrow> R (snd (copy_to_domain dp va bs b)) k' \<Longrightarrow> R k k'"
  by (blast intro: keeps_trans keeps_snd(1))

lemma keeps_ppoll_loop: "ppoll_loop t commit is ready k = Some (r, k') \<Longrightarrow> R k k'"
  by (induction "is" arbitrary: ready k)
    (auto simp: keeps_refl bind_eq_Some_conv Let_def split_beta split: option.split_asm if_split_asm
      dest!: keeps_fd_poll_events intro: keeps_trans keeps_snd(1) keeps_trans[OF keeps_snd(1)] keeps_copy_then)

lemma keeps_pselect_loop: "pselect_loop dp ri wi fs out k = Some (r, k') \<Longrightarrow> R k k'"
proof (induction fs arbitrary: out k)
  case (Cons fd fs)
  obtain ro wo n where "out = (ro, wo, n)" by (cases out) auto
  then show ?case using Cons.prems
    by (auto simp: bind_eq_Some_conv Let_def simp del: push_bit_of_1 split: if_split_asm
        dest!: keeps_fd_poll_events Cons.IH intro: keeps_trans)
qed (auto simp: keeps_refl)

lemma keeps_write_set: "write_set dp addr v k = (r, k') \<Longrightarrow> R k k'"
  by (auto simp: write_set_def keeps_refl split: if_splits dest: keeps_copy_to_domain)

lemma keeps_ppoll_check: "ppoll_check tp commit k = Some (r, k') \<Longrightarrow> R k k'"
  by (auto simp: ppoll_check_def Let_def keeps_refl split: option.splits if_splits dest: keeps_ppoll_loop)

lemma keeps_pselect_check: "pselect_check tp commit k = Some (r, k') \<Longrightarrow> R k k'"
  by (auto simp: pselect_check_def Let_def keeps_refl bind_eq_Some_conv split: option.splits if_splits prod.splits
      dest!: keeps_pselect_loop keeps_write_set intro: keeps_trans)

lemma keeps_poll_wait_check: "poll_wait_check t commit k = Some (r, k') \<Longrightarrow> R k k'"
  by (auto simp: poll_wait_check_def keeps_refl split: if_splits dest: keeps_ppoll_check keeps_pselect_check)

lemma keeps_epoll_loop: "epoll_loop dp addr mx commit ws w k = Some (r, k') \<Longrightarrow> R k k'"
  by (induction ws arbitrary: w k)
    (auto simp: keeps_refl bind_eq_Some_conv Let_def split: if_splits prod.splits
      dest!: keeps_fd_poll_events keeps_copy_to_domain intro: keeps_trans)

lemma keeps_epoll_wait: "epoll_wait_for_domain dp fd addr mx commit k = Some (r, k') \<Longrightarrow> R k k'"
  by (auto simp: epoll_wait_for_domain_def keeps_refl split: if_splits option.splits dest: keeps_epoll_loop)

lemma keeps_each_index:
  assumes "\<And>t k k'. f t k = Some k' \<Longrightarrow> R k k'"
  shows "each_index f ts k = Some k' \<Longrightarrow> R k k'"
  by (induction ts arbitrary: k) (auto simp: keeps_refl bind_eq_Some_conv dest!: assms intro: keeps_trans)

lemma keeps_wake_poll_waiter: "wake_poll_waiter t k = Some k' \<Longrightarrow> R k k'"
  by (auto simp: wake_poll_waiter_def Let_def keeps_refl bind_eq_Some_conv split: if_splits
      dest!: keeps_poll_wait_check intro!: keeps_later intro: keeps_trans)

lemma keeps_wake_epoll_waiter: "wake_epoll_waiter t k = Some k' \<Longrightarrow> R k k'"
  by (auto simp: wake_epoll_waiter_def Let_def keeps_refl bind_eq_Some_conv split: if_splits
      dest!: keeps_epoll_wait intro!: keeps_later intro: keeps_trans)

lemma keeps_each_waiter:
  "each_index wake_poll_waiter ts k = Some k' \<Longrightarrow> R k k'" "each_index wake_epoll_waiter ts k = Some k' \<Longrightarrow> R k k'"
  using keeps_each_index[of wake_poll_waiter] keeps_each_index[of wake_epoll_waiter]
    keeps_wake_poll_waiter keeps_wake_epoll_waiter by blast+

lemma keeps_wake_epoll_waiters: "wake_epoll_waiters k = Some k' \<Longrightarrow> R k k'"
  by (auto simp: wake_epoll_waiters_def keeps_refl bind_eq_Some_conv split: if_splits
      dest!: keeps_each_waiter intro!: keeps_later intro: keeps_trans[OF keeps_epoll_flag])

lemma keeps_wake_poll_waiters: "wake_poll_waiters k = Some k' \<Longrightarrow> R k k'"
  by (auto simp: wake_poll_waiters_def keeps_refl bind_eq_Some_conv split: if_splits
      dest!: keeps_each_waiter keeps_wake_epoll_waiters
      intro: keeps_trans keeps_trans[OF keeps_trans[OF keeps_poll_flag] keeps_poll_flag])

end

subsection \<open>Pipes\<close>

locale pipe_frame = wake_frame +
  assumes keeps_pipe: "R k (upd_pipe i g k)"
    and keeps_pipe_flag: "R k (k\<lparr>k_pipe_waking := b\<rparr>)"
begin

lemmas keeps_still = keeps_later keeps_trans[OF _ keeps_pipe] keeps_trans[OF _ keeps_pipe_flag]

lemma keeps_pipe_write_loop: "pipe_write_loop dp i va left k = (r, k') \<Longrightarrow> R k k'"
  by (induction rule: pipe_write_loop_induct)
    (auto simp: keeps_refl intro: keeps_trans[OF keeps_trans[OF keeps_machine keeps_pipe]])

lemma keeps_pipe_read_loop: "pipe_read_loop dp i va left k = (r, k') \<Longrightarrow> R k k'"
  by (induction rule: pipe_read_loop_induct)
    (auto simp: keeps_refl dest!: keeps_copy_to_domain intro: keeps_trans[OF keeps_trans[OF _ keeps_pipe]])

lemma keeps_pipe_then: "R k a \<Longrightarrow> R a b \<Longrightarrow> R (upd_pipe i g b) k' \<Longrightarrow> R k k'"
  by (blast intro: keeps_trans keeps_pipe)

lemma keeps_pipe_write_id:
  assumes "\<And>k k'. notify k = Some k' \<Longrightarrow> R k k'"
  shows "pipe_write_id notify dp pid buf len k = Some (r, k') \<Longrightarrow> R k k'"
  by (auto simp: pipe_write_id_def Let_def keeps_refl bind_eq_Some_conv split: if_splits option.splits prod.splits
      dest!: assms keeps_ensure_user_range keeps_pipe_write_loop intro: keeps_trans keeps_pipe_then)

lemma keeps_pipe_read_id:
  assumes "\<And>k k'. notify k = Some k' \<Longrightarrow> R k k'"
  shows "pipe_read_id notify dp pid buf len k = Some (r, k') \<Longrightarrow> R k k'"
  by (auto simp: pipe_read_id_def Let_def keeps_refl bind_eq_Some_conv split: if_splits option.splits prod.splits
      dest!: assms keeps_ensure_user_range keeps_pipe_read_loop intro: keeps_trans keeps_pipe_then)

lemma keeps_inner_transfer:
  "pipe_write_id wake_poll_waiters dp pid buf len k = Some (r, k') \<Longrightarrow> R k k'"
  "pipe_read_id wake_poll_waiters dp pid buf len k = Some (r, k') \<Longrightarrow> R k k'"
  using keeps_pipe_write_id[of wake_poll_waiters] keeps_pipe_read_id[of wake_poll_waiters] keeps_wake_poll_waiters
  by blast+

lemma keeps_retry: "retry_transfer th f k = Some (r, k') \<Longrightarrow> R k k'"
  by (auto simp: retry_transfer_def keeps_refl split: if_splits dest: keeps_inner_transfer)

lemma keeps_wake_pipe_waiter: "wake_pipe_waiter t k = Some k' \<Longrightarrow> R k k'"
  by (auto simp: wake_pipe_waiter_def Let_def keeps_refl keeps_resumed bind_eq_Some_conv split: if_splits option.splits
      dest!: keeps_retry intro!: keeps_still)

lemma keeps_each_pipe_waiter: "each_index wake_pipe_waiter ts k = Some k' \<Longrightarrow> R k k'"
  using keeps_each_index[of wake_pipe_waiter] keeps_wake_pipe_waiter by blast

lemma keeps_wake_pipe_waiters: "wake_pipe_waiters k = Some k' \<Longrightarrow> R k k'"
  by (auto simp: wake_pipe_waiters_def keeps_refl bind_eq_Some_conv split: if_splits
      dest!: keeps_each_pipe_waiter intro!: keeps_still intro: keeps_trans[OF keeps_pipe_flag])

lemma keeps_pipe_notify: "cell_pipe_notify k = Some k' \<Longrightarrow> R k k'"
  by (auto simp: cell_pipe_notify_def bind_eq_Some_conv dest!: keeps_wake_pipe_waiters keeps_wake_poll_waiters
      intro: keeps_trans)

lemma keeps_pipe_destroy: "R k (pipe_destroy i k)"
  by (auto simp: pipe_destroy_def pipe_free_storage_def intro!: keeps_still keeps_note)

lemma keeps_drop: "R k (cell_pipe_drop_reader p k)" "R k (cell_pipe_drop_writer p k)"
  by (auto simp: cell_pipe_drop_reader_def cell_pipe_drop_writer_def pipe_reap_def keeps_refl keeps_pipe
      intro: keeps_trans[OF keeps_pipe keeps_pipe_destroy] split: option.splits)

lemma keeps_release_file: "cell_pipe_release_file f k = (r, k') \<Longrightarrow> R k k'"
  by (auto simp: cell_pipe_release_file_def pipe_reap_def keeps_refl keeps_pipe split: option.splits if_splits
      intro: keeps_trans[OF keeps_pipe keeps_pipe_destroy])

lemma keeps_release_by_type: "release_by_type i k = Some k' \<Longrightarrow> R k k'"
  by (auto simp: release_by_type_def Let_def keeps_refl keeps_note bind_eq_Some_conv
      split: if_splits prod.splits open_file_type.splits
      dest!: keeps_release_file keeps_pipe_notify
      intro: keeps_trans keeps_trans[OF keeps_drop(1) keeps_trans[OF keeps_drop(2)]] keeps_after)

lemma keeps_pipe_storage: "R k (pipe_free_storage i k)"
  by (auto simp: pipe_free_storage_def intro!: keeps_still keeps_machine)

lemma keeps_alloc_pages: "alloc_pages js i k = (ok, k') \<Longrightarrow> R k k'"
proof (induction js arbitrary: k)
  case (Cons j js)
  obtain m pa where m: "pmm_alloc_zero_page (k_machine k) = (m, pa)" by fastforce
  define k1 where "k1 = upd_pipe i (\<lambda>p. p\<lparr>p_pages := (p_pages p)[j := pa]\<rparr>) (set_machine m k)"
  have "R k k1" unfolding k1_def by (rule keeps_trans[OF keeps_machine keeps_pipe])
  moreover have "R k1 k'" using Cons.prems m Cons.IH[of k1] keeps_pipe_storage[of k1 i]
    by (simp add: k1_def[symmetric] split: if_splits)
  ultimately show ?case by (rule keeps_trans)
qed (simp add: keeps_refl)

lemma keeps_alloc_pipe_obj: "cell_alloc_pipe_obj n k = (r, k') \<Longrightarrow> R k k'"
  by (auto simp: cell_alloc_pipe_obj_def pipe_alloc_storage_def keeps_refl split: option.splits prod.splits if_splits
      dest!: keeps_alloc_pages intro: keeps_trans[OF keeps_pipe] keeps_trans[OF keeps_trans[OF keeps_pipe] keeps_pipe])

lemma keeps_add: "R k (cell_pipe_add_reader p k)" "R k (cell_pipe_add_writer p k)"
  by (auto simp: cell_pipe_add_reader_def cell_pipe_add_writer_def keeps_refl keeps_pipe split: option.split)

end

subsection \<open>Open files\<close>

locale file_frame = pipe_frame +
  assumes keeps_refcount: "R k (upd_file i (\<lambda>f. f\<lparr>of_refcount := g f\<rparr>) k)"
    and keeps_unused: "R k (upd_file i (\<lambda>f. f\<lparr>of_used := False\<rparr>) k)"
    and keeps_vfs: "R k (vfs_note v k)"
    and keeps_fd: "R k (set_fd d fd None 0 k)"
begin

lemma keeps_release_open_file: "cell_release_open_file fp k = Some k' \<Longrightarrow> R k k'"
  by (auto simp: cell_release_open_file_def Let_def keeps_refl keeps_refcount bind_eq_Some_conv
      split: if_splits option.splits dest!: keeps_release_by_type keeps_trans[OF keeps_refcount]
      intro: keeps_trans[OF _ keeps_unused] keeps_trans[OF _ keeps_trans[OF keeps_vfs keeps_unused]])

lemma keeps_close_fds: "close_fds d ns k = Some k' \<Longrightarrow> R k k'"
  by (induction ns arbitrary: k)
    (auto simp: keeps_refl bind_eq_Some_conv dest!: keeps_release_open_file intro: keeps_trans[OF keeps_trans[OF _ keeps_fd]])

lemma keeps_close_all_fds: "cell_close_all_fds d k = Some k' \<Longrightarrow> R k k'"
  unfolding cell_close_all_fds_def by (rule keeps_close_fds)

end

subsection \<open>Address spaces\<close>

locale space_frame = file_frame +
  assumes keeps_mm: "(\<And>x. set (slots (mm_vmas (h x))) \<subseteq> set (slots (mm_vmas x))) \<Longrightarrow> R k (upd_mm i h k)"
    and keeps_sys: "R k (k\<lparr>k_sys := s\<rparr>)"
begin

lemma keeps_flush_page: "flush_page as v page (ok, k) = (r, k') \<Longrightarrow> R k k'"
  by (auto simp: flush_page_def Let_def keeps_refl split: if_splits prod.splits dest!: keeps_ask(1))

lemma keeps_flush_range: "flush_shared_file_vma_range as v start e k = Some (r, k') \<Longrightarrow> R k k'"
proof -
  have one: "R (snd s) (snd (flush_page as v p s))" for p s
    using keeps_flush_page[of as v p "fst s" "snd s"] by (metis prod.collapse)
  have "range_loop (flush_page as v) a b s = Some s' \<Longrightarrow> R (snd s) (snd s')" for a b s s'
    by (erule range_loop_rel[where P = "\<lambda>s s'. R (snd s) (snd s')"]) (auto intro: keeps_refl keeps_trans one)
  then have "range_loop (flush_page as v) a b (True, k) = Some (r, k') \<Longrightarrow> R k k'" for a b by fastforce
  then show "flush_shared_file_vma_range as v start e k = Some (r, k') \<Longrightarrow> R k k'"
    by (auto simp: flush_shared_file_vma_range_def Let_def keeps_refl split: if_splits)
qed

lemma keeps_flush_vmas: "flush_vmas as vs start e k = Some (r, k') \<Longrightarrow> R k k'"
  by (induction vs arbitrary: k)
    (auto simp: keeps_refl bind_eq_Some_conv split: if_splits dest!: keeps_flush_range intro: keeps_trans)

lemma keeps_drop_mm: "R k (drop_mm i areas k)"
  by (auto simp: drop_mm_def Let_def vma_list_destroy_def vma_list_init_def split: prod.splits
      dest!: keeps_on_machine intro!: keeps_trans[OF _ keeps_mm] keeps_trans[OF _ keeps_sys])

lemma keeps_mm_refcount: "R k (upd_mm i (\<lambda>mm. mm\<lparr>mm_refcount := n mm\<rparr>) k)"
  by (rule keeps_mm) simp

lemma keeps_mm_release: "cell_mm_release mm k = Some k' \<Longrightarrow> R k k'"
  by (auto simp: cell_mm_release_def flush_shared_file_vmas_def Let_def keeps_refl bind_eq_Some_conv
      split: option.splits if_splits dest!: keeps_flush_vmas
      intro: keeps_mm_refcount keeps_trans[OF keeps_mm_refcount] keeps_trans[OF keeps_mm_refcount keeps_drop_mm]
        keeps_trans[OF _ keeps_drop_mm] keeps_trans[OF keeps_trans[OF keeps_mm_refcount] keeps_drop_mm])

end

subsection \<open>Destruction\<close>

locale destroy_frame = space_frame +
  assumes keeps_parent: "R k (upd_domain c (\<lambda>x. x\<lparr>parent_id := p\<rparr>) k)"
    and keeps_unused_domain: "R k (upd_domain d (\<lambda>x. x\<lparr>dom_mm := None, dom_used := False, zombie := False, dom_refcount := 0\<rparr>) k)"
    and keeps_detach: "R k (k\<lparr>k_threads := map (detach_thread d) (k_threads k)\<rparr>)"
    and keeps_vfork: "R k (cell_wake_vfork_parent_of i k)"
begin

lemma keeps_reaped:
  "R k (upd_thread t (ret rc) k)" "R k (upd_thread t (\<lambda>x. x\<lparr>th_state := s\<rparr>) k)"
  "R k (upd_thread t (\<lambda>x. (resume x)\<lparr>wait_target := n\<rparr>) k)"
  by (rule keeps_thread; simp add: ret_def set_x_def resume_def)+

lemma keeps_hand_to_parent:
  assumes "\<And>k k'. destroy c k = Some k' \<Longrightarrow> R k k'"
    and "hand_to_parent destroy c p t k = Some k'"
  shows "R k k'"
proof -
  let ?b = "cell_current_domain k = Some c \<or> domain_has_running_thread c k"
  let ?a = "tf_x (th_tf (k_threads k ! t)) ! 1"
  define k1 where "k1 = (if ?a \<noteq> 0 \<and> cell_domain_as (Some p) k \<noteq> None
    then snd (copy_to_domain (Some p) ?a (le_bytes 4 (unat (wait_status (k_domains k ! c)))) k) else k)"
  define k2 where "k2 = upd_thread t (ret (dom_id (k_domains k ! c))) k1"
  define k3 where "k3 = (case cell_thread_for_domain c k2 of None \<Rightarrow> k2
    | Some ct \<Rightarrow> upd_thread ct (\<lambda>x. x\<lparr>th_state := if ?b then THREAD_ZOMBIE else THREAD_UNUSED\<rparr>) k2)"
  have "R k k1" unfolding k1_def by (simp add: keeps_refl keeps_snd)
  moreover have "R k1 k2" unfolding k2_def by (rule keeps_reaped)
  moreover have "R k2 k3" unfolding k3_def by (auto simp: keeps_refl intro: keeps_reaped split: option.split)
  moreover obtain k4 where k4: "(if ?b then Some (upd_domain c (\<lambda>x. x\<lparr>parent_id := 0\<rparr>) k3) else destroy c k3) = Some k4"
      "k' = upd_thread t (\<lambda>x. (resume x)\<lparr>wait_target := - 1\<rparr>) k4"
    using assms(2) unfolding hand_to_parent_def Let_def k1_def[symmetric] k2_def[symmetric] k3_def[symmetric]
    by (auto simp: bind_eq_Some_conv simp del: split_paired_Ex)
  then have "R k3 k4" using assms(1) by (auto simp: keeps_parent split: if_splits)
  moreover have "R k4 k'" unfolding k4(2) by (rule keeps_reaped)
  ultimately show ?thesis by (blast intro: keeps_trans)
qed

lemma keeps_wake_parent_with:
  assumes "\<And>k k'. destroy c k = Some k' \<Longrightarrow> R k k'"
    and "wake_parent_with destroy c k = Some k'"
  shows "R k k'"
proof -
  define k1 where "k1 = cell_wake_vfork_parent_of (dom_id (k_domains k ! c)) k"
  have "R k k1" unfolding k1_def by (rule keeps_vfork)
  moreover have hand: "hand_to_parent destroy c p t k1 = Some k' \<Longrightarrow> R k1 k'" for p t
    by (rule keeps_hand_to_parent[OF assms(1)])
  have "R k1 k'"
    using assms(2) unfolding wake_parent_with_def Let_def k1_def[symmetric]
    by (auto simp: keeps_refl split: option.splits if_splits dest: hand)
  ultimately show ?thesis by (rule keeps_trans)
qed

lemma keeps_reparent:
  assumes "\<And>c k k'. destroy c k = Some k' \<Longrightarrow> R k k'"
    and "reparent destroy d to c k = Some k'"
  shows "R k k'"
proof -
  have wake: "wake_parent_with destroy c k1 = Some k' \<Longrightarrow> R k1 k'" for k1
    by (rule keeps_wake_parent_with[OF assms(1)])
  show ?thesis using assms(2)
    by (auto simp: reparent_def Let_def keeps_refl keeps_parent split: if_splits dest!: wake
        intro: keeps_trans[OF keeps_parent])
qed

lemma keeps_destroy_depth: "destroy_depth n d k = Some k' \<Longrightarrow> R k k'"
proof (induction n arbitrary: d k k')
  case (Suc n)
  from Suc.prems obtain to k1 k2 k3 where
    k1: "each_index (reparent (destroy_depth n) d to) [0..<length (k_domains k)] k = Some k1" and
    k2: "cell_close_all_fds d (k1\<lparr>k_threads := map (detach_thread d) (k_threads k1)\<rparr>) = Some k2" and
    k3: "cell_mm_release (dom_mm (k_domains k2 ! d)) k2 = Some k3" and
    k': "k' = upd_domain d (\<lambda>x. x\<lparr>dom_mm := None, dom_used := False, zombie := False, dom_refcount := 0\<rparr>) k3"
    unfolding destroy_depth.simps Let_def bind_eq_Some_conv by blast
  have "R k k1" by (rule keeps_each_index[OF _ k1]) (rule keeps_reparent[OF Suc.IH])
  moreover have "R k1 k2" by (rule keeps_trans[OF keeps_detach keeps_close_all_fds[OF k2]])
  moreover have "R k2 k'" unfolding k' by (rule keeps_trans[OF keeps_mm_release[OF k3] keeps_unused_domain])
  ultimately show ?case by (blast intro: keeps_trans)
qed simp

lemma keeps_destroy_domain: "cell_destroy_domain d k = Some k' \<Longrightarrow> R k k'"
  unfolding cell_destroy_domain_def by (rule keeps_destroy_depth)

end

end
