(* ===== verification/Kshape.thy ===== *)
theory Kshape
  imports Kframe
begin

text \<open>
  The frame facts of the process code: waking, transfers and closing files change neither the identity
  of domains, nor the types of open files, nor which domain a thread belongs to, they only empty
  descriptors, and memory areas keep their ends. Waking by itself changes no pipe.
\<close>

subsection \<open>The shape of the process tables\<close>

definition domain_core :: "domain \<Rightarrow> int \<times> int \<times> bool \<times> bool \<times> nat option" where
  "domain_core x = (dom_id x, parent_id x, dom_used x, zombie x, dom_mm x)"

definition fds_shrink :: "domain \<Rightarrow> domain \<Rightarrow> bool" where
  "fds_shrink x y \<longleftrightarrow> length (fds y) = length (fds x) \<and>
     (\<forall>fd < length (fds x). fds y ! fd = fds x ! fd \<or> fds y ! fd = None)"

text \<open>No area in use ends in the last page of the address space, so that the page loops return.\<close>

definition areas_low :: "kernel \<Rightarrow> bool" where
  "areas_low k \<longleftrightarrow> (\<forall>mm \<in> set (k_mms k). \<forall>v \<in> set (slots (mm_vmas mm)). v_used v \<longrightarrow> v_end v \<le> 0xfffffffffffff000)"

definition same_shape :: "kernel \<Rightarrow> kernel \<Rightarrow> bool" where
  "same_shape k k' \<longleftrightarrow>
     map domain_core (k_domains k') = map domain_core (k_domains k) \<and>
     list_all2 fds_shrink (k_domains k) (k_domains k') \<and>
     map of_type (k_files k') = map of_type (k_files k) \<and>
     map th_domain (k_threads k') = map th_domain (k_threads k) \<and>
     length (k_mms k') = length (k_mms k) \<and>
     (areas_low k \<longrightarrow> areas_low k')"

lemma fds_shrink_refl [simp]: "fds_shrink x x"
  by (simp add: fds_shrink_def)

lemma fds_shrink_trans: "fds_shrink x y \<Longrightarrow> fds_shrink y z \<Longrightarrow> fds_shrink x z"
  unfolding fds_shrink_def by metis

lemma same_shape_refl [simp]: "same_shape k k"
  by (simp add: same_shape_def list_all2_refl)

lemma same_shape_trans: "same_shape k1 k2 \<Longrightarrow> same_shape k2 k3 \<Longrightarrow> same_shape k1 k3"
  unfolding same_shape_def using list_all2_trans[of fds_shrink fds_shrink fds_shrink "k_domains k1" "k_domains k2" "k_domains k3"]
    fds_shrink_trans by simp

lemma map_update_same: "(i < length xs \<Longrightarrow> f y = f (xs ! i)) \<Longrightarrow> map f (xs[i := y]) = map f xs"
  by (metis list_update_beyond list_update_id map_update not_le)

lemma list_all2_update: "(\<And>x. P x x) \<Longrightarrow> (i < length xs \<Longrightarrow> P (xs ! i) y) \<Longrightarrow> list_all2 P xs (xs[i := y])"
  by (cases "i < length xs") (auto simp: list_all2_conv_all_nth nth_list_update list_update_beyond not_less)

lemma same_shape_domain:
  assumes "\<And>x. domain_core (f x) = domain_core x" "\<And>x. fds_shrink x (f x)"
  shows "same_shape k (upd_domain i f k)"
  using assms by (simp add: same_shape_def upd_domain_def map_update_same list_all2_update areas_low_def)

lemma grow_down_ends:
  assumes "vma_grow_down l page fl = (True, l', g)"
    and "\<forall>v \<in> set (slots l). v_used v \<longrightarrow> v_end v \<le> b"
  shows "\<forall>v \<in> set (slots l'). v_used v \<longrightarrow> v_end v \<le> b"
  using assms
  by (auto simp: vma_grow_down_def Let_def vma_capacity_def find_Some_iff
      split: if_splits option.splits dest!: subsetD[OF set_update_subset_insert])

lemma areas_low_grow:
  assumes "vma_grow_down (mm_vmas (k_mms k ! i)) page fl = (True, l, g)" "areas_low k"
  shows "areas_low (upd_mm i (\<lambda>mm. mm\<lparr>mm_vmas := l\<rparr>) k)"
proof (cases "i < length (k_mms k)")
  case True
  then have "\<forall>v \<in> set (slots (mm_vmas (k_mms k ! i))). v_used v \<longrightarrow> v_end v \<le> 0xfffffffffffff000"
    using assms(2) by (auto simp: areas_low_def)
  from grow_down_ends[OF assms(1) this] show ?thesis using assms(2)
    by (auto simp: areas_low_def upd_mm_def dest!: subsetD[OF set_update_subset_insert])
qed (use assms(2) in \<open>simp add: areas_low_def upd_mm_def list_update_beyond not_less\<close>)

lemma areas_low_mm:
  assumes "\<And>x. set (slots (mm_vmas (h x))) \<subseteq> set (slots (mm_vmas x))" "areas_low k"
  shows "areas_low (upd_mm i h k)"
proof (cases "i < length (k_mms k)")
  case True
  then have "\<forall>v \<in> set (slots (mm_vmas (h (k_mms k ! i)))). v_used v \<longrightarrow> v_end v \<le> 0xfffffffffffff000"
    using assms(1)[of "k_mms k ! i"] assms(2) unfolding areas_low_def by (meson nth_mem subsetD)
  then show ?thesis using assms(2)
    by (auto simp: areas_low_def upd_mm_def dest!: subsetD[OF set_update_subset_insert])
qed (use assms(2) in \<open>simp add: areas_low_def upd_mm_def list_update_beyond not_less\<close>)

interpretation shape: space_frame same_shape
proof
  fix k dp major
  show "same_shape k (note_fault dp major k)"
    by (auto simp: note_fault_def domain_core_def fds_shrink_def split: option.splits intro!: same_shape_domain)
next
  fix k :: kernel and i page fl l g
  assume "vma_grow_down (mm_vmas (k_mms k ! i)) page fl = (True, l, g)"
  then show "same_shape k (upd_mm i (\<lambda>mm. mm\<lparr>mm_vmas := l\<rparr>) k)"
    using areas_low_grow by (simp add: same_shape_def list_all2_refl)
next
  fix f :: "thread \<Rightarrow> thread" and t and k :: kernel
  assume "\<And>x. th_domain (f x) = th_domain x" "\<And>x. running_cpu (f x) = running_cpu x"
  then show "same_shape k (upd_thread t f k)"
    by (simp add: same_shape_def upd_thread_def map_update_same list_all2_refl areas_low_def)
next
  fix k d fd
  show "same_shape k (set_fd d fd None 0 k)"
    unfolding set_fd_def
  proof (rule same_shape_domain)
    fix x :: domain
    have "(fds x)[fd := None] ! i = fds x ! i \<or> (fds x)[fd := None] ! i = None" if "i < length (fds x)" for i
      using that by (cases "i = fd") auto
    then show "fds_shrink x (x\<lparr>fds := (fds x)[fd := None], fd_flags := (fd_flags x)[fd := 0]\<rparr>)"
      by (simp add: fds_shrink_def)
  qed (simp add: domain_core_def)
next
  fix h :: "process_mm \<Rightarrow> process_mm" and i and k :: kernel
  assume "\<And>x. set (slots (mm_vmas (h x))) \<subseteq> set (slots (mm_vmas x))"
  then show "same_shape k (upd_mm i h k)"
    using areas_low_mm by (simp add: same_shape_def list_all2_refl)
next
  show "same_shape k1 k2 \<Longrightarrow> same_shape k2 k3 \<Longrightarrow> same_shape k1 k3" for k1 k2 k3 by (rule same_shape_trans)
qed (simp_all add: same_shape_def list_all2_refl areas_low_def upd_file_def map_update_same vfs_note_def)

definition same_pipes :: "kernel \<Rightarrow> kernel \<Rightarrow> bool" where
  "same_pipes k k' \<longleftrightarrow> k_pipes k' = k_pipes k"

interpretation still: wake_frame same_pipes
  by unfold_locales (auto simp: same_pipes_def note_fault_def split: option.splits)

end
