(* ===== verification/Kreturn.thy ===== *)
theory Kreturn
  imports Kshape
begin

text \<open>
  When the operations return. Without epoll files the readiness recursion has depth one, and without
  areas in the last page of the address space the write-back loops end; in such states waking, transfers,
  closing files and releasing an address space return.
\<close>

subsection \<open>Well-formed tables\<close>

definition below :: "nat \<Rightarrow> nat option \<Rightarrow> bool" where
  "below n x \<longleftrightarrow> (case x of None \<Rightarrow> True | Some i \<Rightarrow> i < n)"

definition kernel_wf :: "kernel \<Rightarrow> bool" where
  "kernel_wf k \<longleftrightarrow>
     list_all (\<lambda>x. length (fds x) = MAX_FDS \<and> list_all (below (length (k_files k))) (fds x)) (k_domains k) \<and>
     list_all (\<lambda>t. below (length (k_domains k)) (th_domain t)) (k_threads k)"

definition calm :: "kernel \<Rightarrow> bool" where
  "calm k \<longleftrightarrow> kernel_wf k \<and> list_all (\<lambda>f. of_type f \<noteq> OPEN_EPOLL) (k_files k) \<and> areas_low k"

lemma below_simps [simp]: "below n None" "below n (Some i) \<longleftrightarrow> i < n"
  by (simp_all add: below_def)

lemma shape_lengths:
  assumes "same_shape k k'"
  shows "length (k_domains k') = length (k_domains k)" "length (k_files k') = length (k_files k)"
    "length (k_threads k') = length (k_threads k)"
  using assms unfolding same_shape_def by (metis length_map)+

lemma shape_nth:
  assumes "same_shape k k'"
  shows "c < length (k_domains k) \<Longrightarrow> domain_core (k_domains k' ! c) = domain_core (k_domains k ! c)"
    "i < length (k_files k) \<Longrightarrow> of_type (k_files k' ! i) = of_type (k_files k ! i)"
    "t < length (k_threads k) \<Longrightarrow> th_domain (k_threads k' ! t) = th_domain (k_threads k ! t)"
    "c < length (k_domains k) \<Longrightarrow> fds_shrink (k_domains k ! c) (k_domains k' ! c)"
  using assms shape_lengths[OF assms] unfolding same_shape_def
  by (metis nth_map length_map, metis nth_map length_map, metis nth_map length_map, simp add: list_all2_nthD)

lemma kernel_wf_shape:
  assumes "same_shape k k'" "kernel_wf k"
  shows "kernel_wf k'"
proof -
  note n = shape_nth[OF assms(1)] and l = shape_lengths[OF assms(1)]
  have "length (fds (k_domains k' ! c)) = MAX_FDS \<and> list_all (below (length (k_files k))) (fds (k_domains k' ! c))"
    if c: "c < length (k_domains k)" for c
  proof -
    have "length (fds (k_domains k ! c)) = MAX_FDS" "list_all (below (length (k_files k))) (fds (k_domains k ! c))"
      using assms(2) c by (auto simp: kernel_wf_def list_all_length)
    then show ?thesis using n(4)[OF c] unfolding fds_shrink_def list_all_length by (metis below_simps(1))
  qed
  moreover have "below (length (k_domains k)) (th_domain (k_threads k' ! t))" if "t < length (k_threads k)" for t
    using assms(2) n(3)[OF that] that by (simp add: kernel_wf_def list_all_length)
  ultimately show ?thesis by (simp add: kernel_wf_def list_all_length l)
qed

lemma calm_shape: "same_shape k k' \<Longrightarrow> calm k \<Longrightarrow> calm k'"
  using kernel_wf_shape shape_nth(2) shape_lengths(2)
  by (auto simp: calm_def list_all_length) (auto simp: same_shape_def)

lemma fd_file_calm:
  assumes "calm k" "below (length (k_domains k)) dp" "fd_file dp fd k = Some i"
  shows "i < length (k_files k)" "of_type (k_files k ! i) \<noteq> OPEN_EPOLL"
proof -
  obtain d where d: "dp = Some d" "nat fd < MAX_FDS" "fds (k_domains k ! d) ! nat fd = Some i"
    using assms(3) by (auto simp: fd_file_def MAX_FDS_def split: option.splits if_splits)
  then show i: "i < length (k_files k)"
    using assms(1,2) by (fastforce simp: calm_def kernel_wf_def list_all_length)
  then show "of_type (k_files k ! i) \<noteq> OPEN_EPOLL" using assms(1) by (simp add: calm_def list_all_length)
qed

subsection \<open>Polling returns\<close>

lemma fd_poll_events_total:
  assumes "calm k" "below (length (k_domains k)) dp"
  shows "\<exists>r k'. fd_poll_events_for_domain dp fd ev k = Some (r, k')"
proof (cases "fd_file dp fd k")
  case (Some i)
  obtain r k1 where c: "poll_conditions i k = (r, k1)" by fastforce
  have "of_type (k_files k1 ! i) \<noteq> OPEN_EPOLL"
    using shape_nth(2)[OF shape.keeps_poll_conditions[OF c]] fd_file_calm[OF assms Some] by simp
  then show ?thesis using Some c by (simp add: fd_poll_events_for_domain_def Let_def split: prod.splits)
qed (simp add: fd_poll_events_for_domain_def)

lemma below_shape: "same_shape k k' \<Longrightarrow> below (length (k_domains k')) dp = below (length (k_domains k)) dp"
  by (simp add: shape_lengths)

text \<open>Returning with a value, or without one, in a state of the same shape.\<close>

definition returns :: "kernel \<Rightarrow> ('a \<times> kernel) option \<Rightarrow> bool" where
  "returns k x \<longleftrightarrow> (\<exists>r k'. x = Some (r, k') \<and> same_shape k k')"

definition returns_state :: "kernel \<Rightarrow> kernel option \<Rightarrow> bool" where
  "returns_state k x \<longleftrightarrow> (\<exists>k'. x = Some k' \<and> same_shape k k')"

lemma returns_Some [simp]:
  "returns k (Some (r, k')) = same_shape k k'" "returns_state k (Some k') = same_shape k k'"
  by (auto simp: returns_def returns_state_def)

lemma returns_Some_pair: "same_shape k (snd x) \<Longrightarrow> returns k (Some x)"
  by (cases x) simp

lemma returns_shift:
  "same_shape k k1 \<Longrightarrow> returns k1 x \<Longrightarrow> returns k x" "same_shape k k1 \<Longrightarrow> returns_state k1 y \<Longrightarrow> returns_state k y"
  by (auto simp: returns_def returns_state_def intro: same_shape_trans)

lemma returns_bind:
  assumes "returns k x" "\<And>r k1. same_shape k k1 \<Longrightarrow> returns k1 (g r k1)"
  shows "returns k (x \<bind> (\<lambda>(r, k1). g r k1))"
  using assms by (fastforce simp: returns_def intro: same_shape_trans)

lemma returns_bind_state:
  assumes "returns k x" "\<And>r k1. same_shape k k1 \<Longrightarrow> returns_state k1 (g r k1)"
  shows "returns_state k (x \<bind> (\<lambda>(r, k1). g r k1))"
  using assms by (fastforce simp: returns_def returns_state_def intro: same_shape_trans)

lemma returns_state_bind:
  assumes "returns_state k x" "\<And>k1. same_shape k k1 \<Longrightarrow> returns_state k1 (g k1)"
  shows "returns_state k (x \<bind> g)"
  using assms by (fastforce simp: returns_state_def intro: same_shape_trans)

lemma returns_state_bind_value:
  assumes "returns_state k x" "\<And>k1. same_shape k k1 \<Longrightarrow> returns k1 (g k1)"
  shows "returns k (x \<bind> g)"
  using assms by (fastforce simp: returns_state_def returns_def intro: same_shape_trans)

lemmas returns_binds = returns_bind returns_bind_state returns_state_bind returns_state_bind_value

text \<open>A calm state and a valid domain stay so in states of the same shape.\<close>

definition calm_for :: "nat option \<Rightarrow> kernel \<Rightarrow> bool" where
  "calm_for dp k \<longleftrightarrow> calm k \<and> below (length (k_domains k)) dp"

lemma calm_for_shape: "calm_for dp k \<Longrightarrow> same_shape k k' \<Longrightarrow> calm_for dp k'"
  by (auto simp: calm_for_def calm_shape below_shape)

lemma fd_poll_events_returns: "calm_for dp k \<Longrightarrow> returns k (fd_poll_events_for_domain dp fd ev k)"
  using fd_poll_events_total[of k dp fd ev] shape.keeps_fd_poll_events[of dp fd ev k]
  by (auto simp: returns_def calm_for_def)

lemma ppoll_loop_returns: "calm_for (th_domain t) k \<Longrightarrow> returns k (ppoll_loop t commit is ready k)"
proof (induction "is" arbitrary: ready k)
  case (Cons i "is")
  show ?case
  proof (cases "copy_from_domain (th_domain t) (poll_fds t + of_nat i * 8) 8 k")
    case (Some bs)
    show ?thesis
      unfolding ppoll_loop.simps Let_def Some option.case
    proof (rule returns_bind, goal_cases)
      case 1
      show ?case using fd_poll_events_returns[OF Cons.prems] by simp
    next
      case (2 rv k1)
      obtain ok k2 where w: "(if commit then copy_to_domain (th_domain t) (poll_fds t + of_nat i * 8)
          (take 6 bs @ le_bytes 2 (unat rv)) k1 else (True, k1)) = (ok, k2)" by fastforce
      then have s: "same_shape k1 k2" using shape.keeps_copy_to_domain by (auto split: if_splits)
      then have "calm_for (th_domain t) k2" using 2 Cons.prems by (blast intro: calm_for_shape)
      then show ?case using s w returns_shift(1)[OF s Cons.IH] by simp
    qed
  qed simp
qed simp

lemma pselect_loop_returns: "calm_for dp k \<Longrightarrow> returns k (pselect_loop dp ri wi fs out k)"
proof (induction fs arbitrary: out k)
  case (Cons fd fs)
  obtain ro wo n where "out = (ro, wo, n)" by (cases out) auto
  then show ?case using Cons
    by (auto simp: Let_def simp del: push_bit_of_1 intro!: returns_bind fd_poll_events_returns Cons.IH
        intro: calm_for_shape)
qed simp

lemma write_set_shape: "same_shape k k' \<Longrightarrow> same_shape k (snd (write_set dp addr v k'))"
  using shape.keeps_write_set[of dp addr v k'] by (metis prod.collapse same_shape_trans)

lemma poll_wait_check_returns:
  assumes "calm_for (th_domain (k_threads k ! t)) k"
  shows "returns k (poll_wait_check t commit k)"
proof -
  have "returns k (pselect_check (Some t) commit k)"
    using assms
    by (auto simp: pselect_check_def Let_def split_beta intro!: returns_bind pselect_loop_returns write_set_shape
        split: option.split)
  moreover have "returns k (ppoll_check (Some t) commit k)"
    using assms by (auto simp: ppoll_check_def Let_def intro!: ppoll_loop_returns)
  ultimately show ?thesis by (simp add: poll_wait_check_def)
qed

lemma thread_calm:
  assumes "calm k" "t < length (k_threads k)"
  shows "calm_for (th_domain (k_threads k ! t)) k"
  using assms by (simp add: calm_for_def calm_def kernel_wf_def list_all_length)

lemma poll_wait_check_later:
  assumes "calm k" "t < length (k_threads k)" "same_shape k k1"
  shows "returns k1 (poll_wait_check t commit k1)"
  using poll_wait_check_returns thread_calm[OF calm_shape[OF assms(3,1)]] shape_lengths(3)[OF assms(3)] assms(2) by simp

lemma wake_poll_waiter_returns:
  assumes "calm k" "t < length (k_threads k)"
  shows "returns_state k (wake_poll_waiter t k)"
  using poll_wait_check_later[OF assms]
  by (auto simp: wake_poll_waiter_def Let_def intro!: returns_binds shape.keeps_resumed intro: same_shape_trans)

lemma epoll_loop_returns: "calm_for dp k \<Longrightarrow> returns k (epoll_loop dp addr mx commit ws w k)"
proof (induction ws arbitrary: w k)
  case (Cons x ws)
  have "returns k1 (let (ok, k) = (if commit then copy_to_domain dp a b k1 else (True, k1))
      in if ok then epoll_loop dp addr mx commit ws (w + 1) k else Some (- 14, k))" if "same_shape k k1" for a b k1
  proof -
    obtain ok k2 where c: "(if commit then copy_to_domain dp a b k1 else (True, k1)) = (ok, k2)" by fastforce
    then have s: "same_shape k1 k2" using shape.keeps_copy_to_domain by (auto split: if_splits)
    then have "calm_for dp k2" using that Cons.prems by (blast intro: calm_for_shape)
    then show ?thesis using c s returns_shift(1)[OF s Cons.IH] by simp
  qed
  then show ?case using Cons.prems
    by (auto intro!: returns_bind fd_poll_events_returns Cons.IH intro: calm_for_shape)
qed simp

text \<open>Every operation that reaches epoll waiters is given an epoll descriptor; there are none here.\<close>

lemma epoll_wait_returns: "calm_for dp k \<Longrightarrow> returns k (epoll_wait_for_domain dp fd addr mx commit k)"
  by (auto simp: epoll_wait_for_domain_def intro!: epoll_loop_returns split: option.split)

lemma wake_epoll_waiter_returns:
  assumes "calm k" "t < length (k_threads k)"
  shows "returns_state k (wake_epoll_waiter t k)"
  using thread_calm[OF assms]
  by (auto simp: wake_epoll_waiter_def Let_def intro!: returns_binds shape.keeps_resumed epoll_wait_returns
      intro: same_shape_trans calm_for_shape)

lemma each_index_returns:
  assumes "\<And>t k. calm k \<Longrightarrow> t < length (k_threads k) \<Longrightarrow> returns_state k (f t k)"
  shows "calm k \<Longrightarrow> \<forall>t \<in> set ts. t < length (k_threads k) \<Longrightarrow> returns_state k (each_index f ts k)"
proof (induction ts arbitrary: k)
  case (Cons t ts)
  then show ?case using assms[of k t] calm_shape shape_lengths(3)
    by (auto intro!: returns_state_bind Cons.IH)
qed simp

lemma flags_shape:
  "same_shape k (k\<lparr>k_poll_waking := b\<rparr>)" "same_shape k (k\<lparr>k_epoll_waking := b\<rparr>)" "same_shape k (k\<lparr>k_pipe_waking := b\<rparr>)"
  by (rule shape.keeps_poll_flag shape.keeps_epoll_flag shape.keeps_pipe_flag)+

lemma each_waiter_returns:
  assumes "\<And>t k. calm k \<Longrightarrow> t < length (k_threads k) \<Longrightarrow> returns_state k (f t k)" "calm k" "same_shape k k1"
  shows "returns_state k (each_index f [0..<length (k_threads k)] k1)"
  using returns_shift(2)[OF assms(3) each_index_returns[OF assms(1) calm_shape[OF assms(3,2)]]] shape_lengths(3)[OF assms(3)]
  by simp

lemma wake_epoll_waiters_returns: "calm k \<Longrightarrow> returns_state k (wake_epoll_waiters k)"
  by (auto simp: wake_epoll_waiters_def flags_shape intro!: returns_state_bind each_waiter_returns wake_epoll_waiter_returns)

lemma wake_poll_waiters_returns:
  assumes "calm k"
  shows "returns_state k (wake_poll_waiters k)"
proof -
  have "returns_state k1 (wake_epoll_waiters (k1\<lparr>k_poll_waking := False\<rparr>))" if "same_shape k k1" for k1
    using returns_shift(2)[OF flags_shape(1)] wake_epoll_waiters_returns[OF calm_shape[OF flags_shape(1)]]
      calm_shape[OF that assms] by blast
  then show ?thesis using assms
    by (auto simp: wake_poll_waiters_def flags_shape intro!: returns_state_bind each_waiter_returns wake_poll_waiter_returns)
qed

subsection \<open>Transfers return\<close>

lemma transfer_shape:
  assumes "same_shape k k'"
  shows "same_shape k (snd (cell_domain_ensure_user_range dp va n access k'))"
    "same_shape k (snd (pipe_write_loop dp i va left k'))" "same_shape k (snd (pipe_read_loop dp i va left k'))"
    "same_shape k (upd_pipe i g k')" "same_shape k (set_machine m k')" "same_shape k (note_call c k')"
    "same_shape k (snd (copy_to_domain dp va bs k'))"
  by (rule same_shape_trans[OF assms],
      rule shape.keeps_ensure_user_range[OF prod.collapse[symmetric]] shape.keeps_pipe_write_loop[OF prod.collapse[symmetric]]
        shape.keeps_pipe_read_loop[OF prod.collapse[symmetric]] shape.keeps_pipe shape.keeps_machine shape.keeps_note
        shape.keeps_copy_to_domain[OF prod.collapse[symmetric]])+

lemma notify_then:
  assumes "\<And>k. calm k \<Longrightarrow> returns_state k (notify k)" "calm k" "same_shape k k1"
  shows "returns k (notify k1 \<bind> (\<lambda>k2. Some (v, k2)))"
  by (rule returns_shift(1)[OF assms(3)], rule returns_state_bind_value[OF assms(1)[OF calm_shape[OF assms(3,2)]]]) simp

lemma pipe_write_id_returns:
  assumes "\<And>k. calm k \<Longrightarrow> returns_state k (notify k)" "calm k"
  shows "returns k (pipe_write_id notify dp pid buf len k)"
  using assms(2) unfolding pipe_write_id_def Let_def split_beta
  by (auto intro!: notify_then[OF assms(1)] transfer_shape split: option.split)

lemma pipe_read_id_returns:
  assumes "\<And>k. calm k \<Longrightarrow> returns_state k (notify k)" "calm k"
  shows "returns k (pipe_read_id notify dp pid buf len k)"
  using assms(2) unfolding pipe_read_id_def Let_def split_beta
  by (auto intro!: notify_then[OF assms(1)] transfer_shape split: option.split)

lemma retry_transfer_returns: "calm k \<Longrightarrow> returns k (retry_transfer th f k)"
  by (auto simp: retry_transfer_def intro!: pipe_write_id_returns pipe_read_id_returns wake_poll_waiters_returns)

lemma wake_pipe_waiter_returns: "calm k \<Longrightarrow> returns_state k (wake_pipe_waiter t k)"
  by (auto simp: wake_pipe_waiter_def Let_def intro!: returns_binds shape.keeps_resumed retry_transfer_returns
      split: option.split)

lemma pipe_notify_returns:
  assumes "calm k"
  shows "returns_state k (cell_pipe_notify k)"
proof -
  have "returns_state k (wake_pipe_waiters k)" using assms
    by (auto simp: wake_pipe_waiters_def flags_shape intro!: returns_state_bind each_waiter_returns wake_pipe_waiter_returns)
  then show ?thesis unfolding cell_pipe_notify_def
    using assms by (auto intro!: returns_state_bind wake_poll_waiters_returns intro: calm_shape)
qed

subsection \<open>Closing files returns\<close>

lemma file_shape:
  assumes "same_shape k k'"
  shows "same_shape k (snd (cell_pipe_release_file f k'))" "same_shape k (cell_pipe_drop_reader pid k')"
    "same_shape k (cell_pipe_drop_writer pid k')" "same_shape k (vfs_note v k')" "same_shape k (set_fd d fd None 0 k')"
    "same_shape k (upd_file i (\<lambda>f. f\<lparr>of_used := False\<rparr>) k')" "same_shape k (upd_file i (\<lambda>f. f\<lparr>of_refcount := n f\<rparr>) k')"
  by (rule same_shape_trans[OF assms],
      rule shape.keeps_release_file[OF prod.collapse[symmetric]] shape.keeps_drop shape.keeps_vfs shape.keeps_fd
        shape.keeps_unused shape.keeps_refcount)+

lemma release_by_type_returns:
  assumes "calm k"
  shows "returns_state k (release_by_type i k)"
proof -
  have n: "returns_state k (cell_pipe_notify k1)" if "same_shape k k1" for k1
    using returns_shift(2)[OF that pipe_notify_returns[OF calm_shape[OF that assms]]] .
  show ?thesis unfolding release_by_type_def Let_def split_beta
    by (auto intro!: n returns_state_bind file_shape transfer_shape split: open_file_type.split)
qed

lemma release_open_file_returns:
  assumes "calm k"
  shows "returns_state k (cell_release_open_file fp k)"
proof -
  have n: "returns_state k (release_by_type i k1 \<bind> g)"
    if "same_shape k k1" "\<And>k2. returns_state k2 (g k2)" for i k1 and g :: "kernel \<Rightarrow> kernel option"
    using returns_shift(2)[OF that(1) returns_state_bind[OF release_by_type_returns[OF calm_shape[OF that(1) assms]]]] that(2)
    by blast
  show ?thesis unfolding cell_release_open_file_def Let_def
    by (auto intro!: n file_shape split: option.split)
qed

lemma close_fds_returns: "calm k \<Longrightarrow> returns_state k (close_fds d ns k)"
proof (induction ns arbitrary: k)
  case (Cons fd ns)
  have "returns_state k1 (close_fds d ns (set_fd d fd None 0 k1))" if "same_shape k k1" for k1
  proof -
    have s: "same_shape k1 (set_fd d fd None 0 k1)" by (rule shape.keeps_fd)
    show ?thesis using returns_shift(2)[OF s Cons.IH] calm_shape[OF s] calm_shape[OF that Cons.prems] by blast
  qed
  then show ?case using Cons.prems by (auto intro!: returns_state_bind release_open_file_returns)
qed simp

lemma close_all_fds_returns: "calm k \<Longrightarrow> returns_state k (cell_close_all_fds d k)"
  unfolding cell_close_all_fds_def by (rule close_fds_returns)

subsection \<open>Releasing an address space returns\<close>

lemma flush_range_returns:
  assumes "v_used v \<longrightarrow> v_end v \<le> 0xfffffffffffff000"
  shows "returns k (flush_shared_file_vma_range as v start e k)"
proof (cases "vma_is_shared_writable_file v")
  case True
  let ?e = "if e < v_end v then e else v_end v"
  have "?e \<le> 0xfffffffffffff000" using assms True by (auto simp: vma_is_shared_writable_file_def)
  then have "\<exists>x. flush_shared_file_vma_range as v start e k = Some x"
    unfolding flush_shared_file_vma_range_def Let_def using True by (simp add: range_loop_fold)
  then obtain x where "flush_shared_file_vma_range as v start e k = Some x" ..
  then show ?thesis using shape.keeps_flush_range[of as v start e k] by (cases x) (auto simp: returns_def)
qed (simp add: flush_shared_file_vma_range_def)

lemma flush_vmas_returns:
  "\<forall>v \<in> set vs. v_used v \<longrightarrow> v_end v \<le> 0xfffffffffffff000 \<Longrightarrow> returns k (flush_vmas as vs start e k)"
  by (induction vs arbitrary: k) (auto intro!: returns_bind flush_range_returns)

lemma mm_release_returns:
  assumes "calm k" "below (length (k_mms k)) mm"
  shows "returns_state k (cell_mm_release mm k)"
proof (cases mm)
  case (Some i)
  define k1 where "k1 = upd_mm i (\<lambda>mm. mm\<lparr>mm_refcount := mm_refcount mm - 1\<rparr>) k"
  have s: "same_shape k k1" unfolding k1_def by (rule shape.keeps_mm_refcount)
  then have "areas_low k1" using assms(1) by (simp add: calm_def same_shape_def)
  moreover have "i < length (k_mms k1)" using assms(2) Some s by (simp add: same_shape_def)
  ultimately have "returns k1 (flush_shared_file_vmas i 0 (- 1) k1)"
    by (auto simp: flush_shared_file_vmas_def Let_def areas_low_def intro!: flush_vmas_returns)
  then have "returns_state k1 (flush_shared_file_vmas i 0 (- 1) k1 \<bind> (\<lambda>(ok, k). Some (drop_mm i True k)))"
    by (rule returns_bind_state) (simp add: shape.keeps_drop_mm)
  from returns_shift(2)[OF s this] s show ?thesis
    unfolding cell_mm_release_def Some option.case Let_def k1_def[symmetric] by simp
qed (simp add: cell_mm_release_def)

end
