(* ===== verification/Kdestroy.thy ===== *)
theory Kdestroy
  imports Kreturn
begin

text \<open>
  Destroying a domain returns. The recursion through the waiting parent happens only for a child that is
  handed to the first domain, so the number of domains in use whose parent is neither nobody nor the first
  domain bounds its depth.
\<close>

subsection \<open>States along a destruction\<close>

text \<open>Domains keep their identifiers, are only taken out of use, get parents of a given set, and lose their memory.\<close>

definition domain_thins :: "int set \<Rightarrow> domain \<Rightarrow> domain \<Rightarrow> bool" where
  "domain_thins S x y \<longleftrightarrow> dom_id y = dom_id x \<and> (dom_used y \<longrightarrow> dom_used x) \<and>
     (parent_id y = parent_id x \<or> parent_id y \<in> S) \<and> (dom_mm y = dom_mm x \<or> dom_mm y = None)"

definition thins :: "int set \<Rightarrow> kernel \<Rightarrow> kernel \<Rightarrow> bool" where
  "thins S k k' \<longleftrightarrow>
     list_all2 (domain_thins S) (k_domains k) (k_domains k') \<and>
     list_all2 (\<lambda>t u. th_domain u = th_domain t \<or> th_domain u = None) (k_threads k) (k_threads k') \<and>
     length (k_mms k') = length (k_mms k) \<and> (calm k \<longrightarrow> calm k')"

definition domain_sound :: "nat \<Rightarrow> domain \<Rightarrow> bool" where
  "domain_sound mms x \<longleftrightarrow> below mms (dom_mm x) \<and> (dom_used x \<longrightarrow> dom_id x \<noteq> 0)"

definition whole :: "kernel \<Rightarrow> bool" where
  "whole k \<longleftrightarrow> calm k \<and> list_all (domain_sound (length (k_mms k))) (k_domains k)"

definition stray :: "domain \<Rightarrow> bool" where
  "stray x \<longleftrightarrow> dom_used x \<and> parent_id x \<notin> {0, 1}"

definition strays :: "kernel \<Rightarrow> nat set" where
  "strays k = {c. c < length (k_domains k) \<and> stray (k_domains k ! c)}"

lemma thins_refl [simp]: "thins S k k"
  by (simp add: thins_def domain_thins_def list_all2_conv_all_nth)

lemma domain_thins_trans: "domain_thins S x y \<Longrightarrow> domain_thins S y z \<Longrightarrow> domain_thins S x z"
  by (auto simp: domain_thins_def)

lemma thins_trans:
  assumes "thins S k1 k2" "thins S k2 k3"
  shows "thins S k1 k3"
proof -
  have "list_all2 (domain_thins S) (k_domains k1) (k_domains k3)"
    using assms unfolding thins_def list_all2_conv_all_nth by (metis domain_thins_trans)
  moreover have "list_all2 (\<lambda>t u. th_domain u = th_domain t \<or> th_domain u = None) (k_threads k1) (k_threads k3)"
    using assms unfolding thins_def list_all2_conv_all_nth by metis
  ultimately show ?thesis using assms by (simp add: thins_def)
qed

lemma thins_mono: "thins S k k' \<Longrightarrow> S \<subseteq> T \<Longrightarrow> thins T k k'"
  by (auto simp: thins_def domain_thins_def list_all2_conv_all_nth)

lemma thins_nth:
  assumes "thins S k k'"
  shows "length (k_domains k') = length (k_domains k)" "length (k_threads k') = length (k_threads k)"
    "length (k_mms k') = length (k_mms k)" "calm k \<Longrightarrow> calm k'"
    "c < length (k_domains k) \<Longrightarrow> domain_thins S (k_domains k ! c) (k_domains k' ! c)"
    "t < length (k_threads k) \<Longrightarrow> th_domain (k_threads k' ! t) \<in> {th_domain (k_threads k ! t), None}"
  using assms by (auto simp: thins_def list_all2_conv_all_nth)

lemma thins_shape:
  assumes "same_shape k k'"
  shows "thins S k k'"
  using shape_lengths[OF assms] shape_nth(1,3)[OF assms] calm_shape[OF assms] assms
  by (auto simp: thins_def list_all2_conv_all_nth domain_thins_def domain_core_def same_shape_def)

lemma whole_thins:
  assumes "thins S k k'" "whole k"
  shows "whole k'"
proof -
  have "domain_sound (length (k_mms k)) (k_domains k' ! c)" if "c < length (k_domains k)" for c
    using assms(2) thins_nth(5)[OF assms(1) that] that
    by (auto simp: whole_def list_all_length domain_sound_def domain_thins_def)
  then show ?thesis using assms(2) thins_nth(1,3,4)[OF assms(1)] by (auto simp: whole_def list_all_length)
qed

lemma finite_strays [simp]: "finite (strays k)"
  by (simp add: strays_def)

lemma strays_thins: "thins S k k' \<Longrightarrow> S \<subseteq> {0, 1} \<Longrightarrow> strays k' \<subseteq> strays k"
  using thins_nth(1,5)[of S k k'] by (fastforce simp: strays_def stray_def domain_thins_def)

lemma strays_bound: "card (strays k) \<le> length (k_domains k)"
proof -
  have "strays k \<subseteq> {..< length (k_domains k)}" by (auto simp: strays_def)
  from card_mono[OF _ this] show ?thesis by simp
qed

subsection \<open>Updates\<close>

lemma thins_domain:
  assumes "\<And>x. domain_thins S x (g x)" "\<And>x. fds (g x) = fds x"
  shows "thins S k (upd_domain c g k)"
proof -
  have f: "fds (k_domains (upd_domain c g k) ! n) = fds (k_domains k ! n)" if "n < length (k_domains k)" for n
    using that assms(2) by (cases "n = c") (auto simp: upd_domain_def)
  have "kernel_wf (upd_domain c g k)" if "kernel_wf k"
    using that f unfolding kernel_wf_def list_all_length by (simp add: upd_domain_def)
  then have "calm k \<longrightarrow> calm (upd_domain c g k)" by (simp add: calm_def areas_low_def upd_domain_def)
  moreover have "list_all2 (domain_thins S) (k_domains k) (k_domains (upd_domain c g k))"
    unfolding upd_domain_def using assms(1) by (simp, intro list_all2_update) (auto simp: domain_thins_def)
  ultimately show ?thesis by (simp add: thins_def upd_domain_def list_all2_refl)
qed

lemma thins_adopt: "p \<in> S \<Longrightarrow> thins S k (upd_domain c (\<lambda>x. x\<lparr>parent_id := p\<rparr>) k)"
  by (rule thins_domain) (auto simp: domain_thins_def)

lemma thins_detach: "thins S k (k\<lparr>k_threads := map (detach_thread d) (k_threads k)\<rparr>)"
  by (auto simp: thins_def calm_def kernel_wf_def areas_low_def list_all2_conv_all_nth list_all_length
      domain_thins_def detach_thread_def)

lemma thins_unused:
  "thins S k (upd_domain d (\<lambda>x. x\<lparr>dom_mm := None, dom_used := False, zombie := False, dom_refcount := 0\<rparr>) k)"
  by (rule thins_domain) (auto simp: domain_thins_def)

lemma shape_threads:
  assumes "\<And>t. th_domain (g t) = th_domain t"
  shows "same_shape k (k\<lparr>k_threads := map g (k_threads k)\<rparr>)" "same_shape k (upd_thread i g k)"
  using assms by (auto simp: same_shape_def areas_low_def upd_thread_def map_update_same list_all2_refl)

subsection \<open>Returning along a destruction\<close>

definition thinned :: "int set \<Rightarrow> kernel \<Rightarrow> kernel option \<Rightarrow> bool" where
  "thinned S k x \<longleftrightarrow> (\<exists>k'. x = Some k' \<and> thins S k k')"

lemma thinned_Some [simp]: "thinned S k (Some k') = thins S k k'"
  by (simp add: thinned_def)

lemma thinned_bind:
  assumes "thinned S k x" "\<And>k1. thins S k k1 \<Longrightarrow> thinned S k1 (g k1)"
  shows "thinned S k (x \<bind> g)"
  using assms by (fastforce simp: thinned_def intro: thins_trans)

lemma thinned_shift: "thins S k k1 \<Longrightarrow> thinned S k1 x \<Longrightarrow> thinned S k x"
  by (auto simp: thinned_def intro: thins_trans)

lemma thinned_state: "returns_state k x \<Longrightarrow> thinned S k x"
  by (auto simp: thinned_def returns_state_def intro: thins_shape)

lemma hand_to_parent_thinned:
  assumes "\<And>k'. same_shape k k' \<Longrightarrow> thinned S k' (destroy c k')" "0 \<in> S"
  shows "thinned S k (hand_to_parent destroy c p t k)"
proof -
  let ?b = "cell_current_domain k = Some c \<or> domain_has_running_thread c k"
  have finish: "thinned S k ((if ?b then Some (upd_domain c (\<lambda>x. x\<lparr>parent_id := 0\<rparr>) k1) else destroy c k1) \<bind>
      (\<lambda>k. Some (upd_thread t (\<lambda>x. (resume x)\<lparr>wait_target := - 1\<rparr>) k)))" if s: "same_shape k k1" for k1
  proof (rule thinned_shift[OF thins_shape[OF s]], rule thinned_bind)
    show "thinned S k1 (if ?b then Some (upd_domain c (\<lambda>x. x\<lparr>parent_id := 0\<rparr>) k1) else destroy c k1)"
      using assms s by (simp add: thins_adopt)
  qed (auto simp: resume_def intro!: thins_shape shape_threads)
  have up: "same_shape k (upd_thread i g k1)" if "same_shape k k1" "\<And>t. th_domain (g t) = th_domain t" for i g k1
    using same_shape_trans[OF that(1) shape_threads(2)[OF that(2)]] .
  let ?a = "tf_x (th_tf (k_threads k ! t)) ! 1"
  define k1 where "k1 = (if ?a \<noteq> 0 \<and> cell_domain_as (Some p) k \<noteq> None
    then snd (copy_to_domain (Some p) ?a (le_bytes 4 (unat (wait_status (k_domains k ! c)))) k) else k)"
  define k2 where "k2 = upd_thread t (ret (dom_id (k_domains k ! c))) k1"
  define k3 where "k3 = (case cell_thread_for_domain c k2 of None \<Rightarrow> k2
    | Some ct \<Rightarrow> upd_thread ct (\<lambda>x. x\<lparr>th_state := if ?b then THREAD_ZOMBIE else THREAD_UNUSED\<rparr>) k2)"
  have "same_shape k k1" unfolding k1_def by (simp add: transfer_shape)
  then have "same_shape k k2" unfolding k2_def by (rule up) (simp add: ret_def set_x_def)
  then have "same_shape k k3" unfolding k3_def by (auto intro: up split: option.split)
  from finish[OF this] show ?thesis
    unfolding hand_to_parent_def Let_def k1_def[symmetric] k2_def[symmetric] k3_def[symmetric] .
qed

lemma wake_parent_thinned:
  assumes "\<And>k'. same_shape k k' \<Longrightarrow> thinned S k' (destroy c k')" "0 \<in> S"
  shows "thinned S k (wake_parent_with destroy c k)"
proof -
  define k1 where "k1 = cell_wake_vfork_parent_of (dom_id (k_domains k ! c)) k"
  have s: "same_shape k k1" unfolding k1_def cell_wake_vfork_parent_of_def
    by (rule shape_threads) (simp add: wake_vfork_thread_def resume_def)
  have "thinned S k1 (hand_to_parent destroy c p t k1)" for p t
    using assms s by (blast intro: hand_to_parent_thinned same_shape_trans)
  then show ?thesis unfolding wake_parent_with_def Let_def k1_def[symmetric]
    using thins_shape[OF s] by (auto split: option.split intro: thinned_shift)
qed

text \<open>A destroying function that returns as long as fewer than \<open>n\<close> domains can be handed over.\<close>

definition destroys :: "nat \<Rightarrow> (nat \<Rightarrow> kernel \<Rightarrow> kernel option) \<Rightarrow> bool" where
  "destroys n destroy \<longleftrightarrow> (\<forall>c k. card (strays k) < n \<and> whole k \<and> c < length (k_domains k) \<and> dom_id (k_domains k ! c) \<noteq> 0 \<longrightarrow>
     thinned {0, 1} k (destroy c k))"

text \<open>One child: afterwards it is not a child of the destroyed domain in use any more.\<close>

definition orphan :: "int \<Rightarrow> domain \<Rightarrow> bool" where
  "orphan i x \<longleftrightarrow> \<not> (dom_used x \<and> parent_id x = i)"

lemma orphan_thins: "domain_thins S x y \<Longrightarrow> i \<notin> S \<Longrightarrow> orphan i x \<Longrightarrow> orphan i y"
  unfolding domain_thins_def orphan_def by metis

lemma reparent_returns:
  assumes ih: "destroys n destroy"
    and k: "whole k" "card (strays k) \<le> n" "c < length (k_domains k)"
    and to: "to \<in> {0, 1}" "dom_id (k_domains k ! d) \<notin> {0, to}"
  shows "\<exists>k'. reparent destroy d to c k = Some k' \<and> thins {0, to} k k' \<and> orphan (dom_id (k_domains k ! d)) (k_domains k' ! c)"
proof (cases "dom_used (k_domains k ! c) \<and> parent_id (k_domains k ! c) = dom_id (k_domains k ! d)")
  case True
  define k1 where "k1 = upd_domain c (\<lambda>x. x\<lparr>parent_id := to\<rparr>) k"
  have t1: "thins {0, to} k k1" unfolding k1_def by (rule thins_adopt) simp
  have o1: "orphan (dom_id (k_domains k ! d)) (k_domains k1 ! c)" using k(3) to(2) by (simp add: k1_def orphan_def upd_domain_def)
  have len: "c < length (k_domains k1)" using thins_nth(1)[OF t1] k(3) by simp
  have "thinned {0, to} k1 (wake_parent_with destroy c k1)" if "to \<noteq> 0"
  proof (rule wake_parent_thinned)
    fix k2 assume s: "same_shape k1 k2"
    have "stray (k_domains k ! c)" "\<not> stray (k_domains k1 ! c)"
      using True that to k(3) unfolding stray_def k1_def upd_domain_def by simp_all
    then have "c \<in> strays k" "c \<notin> strays k1" using k(3) by (simp_all add: strays_def)
    moreover have "strays k1 \<subseteq> strays k" by (rule strays_thins[OF t1]) (use to(1) in auto)
    ultimately have "strays k1 \<subset> strays k" by blast
    from psubset_card_mono[OF finite_strays this] have "card (strays k1) < n" using k(2) by simp
    moreover have "card (strays k2) \<le> card (strays k1)"
      by (rule card_mono[OF finite_strays strays_thins[OF thins_shape[OF s, of "{}"]]]) simp
    moreover have "whole k2" by (rule whole_thins[OF thins_shape[OF s] whole_thins[OF t1 k(1)]])
    moreover have "dom_id (k_domains k2 ! c) = dom_id (k_domains k ! c)"
      using thins_nth(5)[OF thins_trans[OF t1 thins_shape[OF s]] k(3)] by (simp add: domain_thins_def)
    moreover have "dom_id (k_domains k ! c) \<noteq> 0" using k(1,3) True by (auto simp: whole_def list_all_length domain_sound_def)
    moreover have "c < length (k_domains k2)" using len shape_lengths(1)[OF s] by simp
    ultimately have "thinned {0, 1} k2 (destroy c k2)" using ih unfolding destroys_def by (metis le_less_trans)
    then show "thinned {0, to} k2 (destroy c k2)" using that to(1) by simp
  qed simp
  then have "thinned {0, to} k1 (reparent destroy d to c k)"
    using True unfolding reparent_def Let_def k1_def[symmetric] by simp
  then obtain k' where k': "reparent destroy d to c k = Some k'" "thins {0, to} k1 k'" by (auto simp: thinned_def)
  have "orphan (dom_id (k_domains k ! d)) (k_domains k' ! c)" using orphan_thins[OF thins_nth(5)[OF k'(2) len] to(2) o1] .
  with k'(1) thins_trans[OF t1 k'(2)] show ?thesis by simp
next
  case False
  then show ?thesis by (simp add: reparent_def orphan_def)
qed

lemma reparent_loop_returns:
  assumes ih: "destroys n destroy"
    and "whole k" "card (strays k) \<le> n" "\<forall>c \<in> set cs. c < length (k_domains k)" "d < length (k_domains k)"
    and to: "to \<in> {0, 1}" "dom_id (k_domains k ! d) \<notin> {0, to}"
  shows "\<exists>k'. each_index (reparent destroy d to) cs k = Some k' \<and> thins {0, to} k k' \<and>
    (\<forall>c \<in> set cs. orphan (dom_id (k_domains k ! d)) (k_domains k' ! c))"
  using assms(2-7)
proof (induction cs arbitrary: k)
  case (Cons c cs)
  let ?i = "dom_id (k_domains k ! d)"
  obtain k1 where k1: "reparent destroy d to c k = Some k1" "thins {0, to} k k1" "orphan ?i (k_domains k1 ! c)"
    using reparent_returns[OF ih Cons.prems(1,2) _ Cons.prems(5,6), of c] Cons.prems(3) by auto
  have len: "length (k_domains k1) = length (k_domains k)" by (rule thins_nth(1)[OF k1(2)])
  have i: "dom_id (k_domains k1 ! d) = ?i" using thins_nth(5)[OF k1(2) Cons.prems(4)] by (simp add: domain_thins_def)
  have "strays k1 \<subseteq> strays k" by (rule strays_thins[OF k1(2)]) (use Cons.prems(5) in auto)
  then have "card (strays k1) \<le> n" using card_mono[OF finite_strays] Cons.prems(2) by (meson le_trans)
  moreover have "\<forall>c \<in> set cs. c < length (k_domains k1)" "d < length (k_domains k1)" "dom_id (k_domains k1 ! d) \<notin> {0, to}"
    using Cons.prems(3,4,6) len i by simp_all
  ultimately obtain k2 where k2: "each_index (reparent destroy d to) cs k1 = Some k2" "thins {0, to} k1 k2"
      "\<forall>c \<in> set cs. orphan ?i (k_domains k2 ! c)"
    using Cons.IH[OF whole_thins[OF k1(2) Cons.prems(1)] _ _ _ Cons.prems(5)] i by metis
  have "orphan ?i (k_domains k2 ! c)"
    using orphan_thins[OF thins_nth(5)[OF k2(2)] _ k1(3)] Cons.prems(3,6) len by simp
  with k1(1) k2(1,3) thins_trans[OF k1(2) k2(2)] show ?case by simp
qed simp

subsection \<open>Destruction returns\<close>

lemma close_fds_closed:
  "close_fds d ns k = Some k' \<Longrightarrow> d < length (k_domains k) \<Longrightarrow> fd \<in> set ns \<Longrightarrow> fd < length (fds (k_domains k ! d)) \<Longrightarrow>
    fds (k_domains k' ! d) ! fd = None"
proof (induction ns arbitrary: k)
  case (Cons n ns)
  from Cons.prems(1) obtain k1 where k1: "cell_release_open_file (fds (k_domains k ! d) ! n) k = Some k1"
      "close_fds d ns (set_fd d n None 0 k1) = Some k'" by (auto simp: bind_eq_Some_conv)
  let ?k2 = "set_fd d n None 0 k1"
  have s: "same_shape k k1" using k1(1) by (rule shape.keeps_release_open_file)
  have d1: "d < length (k_domains k1)" using shape_lengths(1)[OF s] Cons.prems(2) by simp
  have l1: "length (fds (k_domains k1 ! d)) = length (fds (k_domains k ! d))"
    using shape_nth(4)[OF s Cons.prems(2)] by (simp add: fds_shrink_def)
  have d2: "d < length (k_domains ?k2)" "fd < length (fds (k_domains ?k2 ! d))"
    using d1 l1 Cons.prems(4) by (simp_all add: set_fd_def upd_domain_def)
  show ?case
  proof (cases "fd \<in> set ns")
    case False
    then have "fds (k_domains ?k2 ! d) ! fd = None"
      using Cons.prems(3,4) d1 l1 by (simp add: set_fd_def upd_domain_def)
    then show ?thesis
      using shape_nth(4)[OF shape.keeps_close_fds[OF k1(2)] d2(1)] d2(2) unfolding fds_shrink_def by metis
  qed (use Cons.IH[OF k1(2) d2(1) _ d2(2)] in blast)
qed simp

text \<open>What is left of a destroyed domain: nothing in use, no memory, no descriptors, no threads, no children.\<close>

definition gone :: "nat \<Rightarrow> kernel \<Rightarrow> bool" where
  "gone d k \<longleftrightarrow> \<not> dom_used (k_domains k ! d) \<and> dom_mm (k_domains k ! d) = None \<and>
     list_all (\<lambda>f. f = None) (fds (k_domains k ! d)) \<and> list_all (\<lambda>t. th_domain t \<noteq> Some d) (k_threads k) \<and>
     list_all (orphan (dom_id (k_domains k ! d))) (k_domains k)"

lemma orphans_thins:
  assumes "thins S k k'" "i \<notin> S" "list_all (orphan i) (k_domains k)"
  shows "list_all (orphan i) (k_domains k')"
  using assms(3) orphan_thins[OF thins_nth(5)[OF assms(1)] assms(2)] thins_nth(1)[OF assms(1)]
  by (simp add: list_all_length)

text \<open>The rest of a destruction, once the children are handed over.\<close>

definition bury :: "nat \<Rightarrow> kernel \<Rightarrow> kernel option" where
  "bury d k = do {
     k \<leftarrow> cell_close_all_fds d (k\<lparr>k_threads := map (detach_thread d) (k_threads k)\<rparr>);
     k \<leftarrow> cell_mm_release (dom_mm (k_domains k ! d)) k;
     Some (upd_domain d (\<lambda>x. x\<lparr>dom_mm := None, dom_used := False, zombie := False, dom_refcount := 0\<rparr>) k)
   }"

lemma destroy_depth_bury:
  "destroy_depth (Suc n) d k =
     (let to = (if dom_id (k_domains k ! d) \<noteq> 1 \<and> cell_find_domain 1 k \<noteq> None then 1 else 0)
      in each_index (reparent (destroy_depth n) d to) [0..<length (k_domains k)] k \<bind> bury d)"
  by (simp only: destroy_depth.simps bury_def[abs_def])

lemma bury_returns:
  assumes w: "whole k" and d: "d < length (k_domains k)" and i: "i = dom_id (k_domains k ! d)"
    and o: "list_all (orphan i) (k_domains k)"
  shows "\<exists>k'. bury d k = Some k' \<and> thins {} k k' \<and> gone d k'"
proof -
  define k1 where "k1 = k\<lparr>k_threads := map (detach_thread d) (k_threads k)\<rparr>"
  have t1: "thins {} k k1" unfolding k1_def by (rule thins_detach)
  have w1: "whole k1" by (rule whole_thins[OF t1 w])
  then obtain k2 where k2: "cell_close_all_fds d k1 = Some k2" "same_shape k1 k2"
    using close_all_fds_returns[of k1 d] by (auto simp: whole_def returns_state_def)
  have w2: "whole k2" by (rule whole_thins[OF thins_shape[OF k2(2), of "{}"] w1])
  have d1: "d < length (k_domains k1)" using d by (simp add: k1_def)
  then have d2: "d < length (k_domains k2)" using shape_lengths(1)[OF k2(2)] by simp
  then have "below (length (k_mms k2)) (dom_mm (k_domains k2 ! d))" "calm k2"
    using w2 by (simp_all add: whole_def list_all_length domain_sound_def)
  then obtain k3 where k3: "cell_mm_release (dom_mm (k_domains k2 ! d)) k2 = Some k3" "same_shape k2 k3"
    using mm_release_returns[of k2] by (auto simp: returns_state_def)
  have d3: "d < length (k_domains k3)" using d2 shape_lengths(1)[OF k3(2)] by simp
  define k4 where "k4 = upd_domain d (\<lambda>x. x\<lparr>dom_mm := None, dom_used := False, zombie := False, dom_refcount := 0\<rparr>) k3"
  have s3: "same_shape k1 k3" by (rule same_shape_trans[OF k2(2) k3(2)])
  have t4: "thins {} k k4"
    unfolding k4_def by (rule thins_trans[OF thins_trans[OF t1 thins_shape[OF s3]] thins_unused])
  have l1: "length (fds (k_domains k1 ! d)) = MAX_FDS" using w1 d1 by (auto simp: whole_def calm_def kernel_wf_def list_all_length)
  have "list_all (\<lambda>f. f = None) (fds (k_domains k3 ! d))"
    using close_fds_closed[OF k2(1)[unfolded cell_close_all_fds_def] d1] shape_nth(4)[OF k3(2) d2] shape_nth(4)[OF k2(2) d1] l1
    by (auto simp: list_all_length fds_shrink_def)
  moreover have "list_all (\<lambda>t. th_domain t \<noteq> Some d) (k_threads k3)"
    using shape_nth(3)[OF s3] shape_lengths(3)[OF s3] by (auto simp: list_all_length k1_def detach_thread_def)
  moreover have "list_all (orphan i) (k_domains k4)" using orphans_thins[OF t4 _ o] by simp
  moreover have "dom_id (k_domains k4 ! d) = i" using thins_nth(5)[OF t4 d] i by (simp add: domain_thins_def)
  ultimately have "gone d k4" using d3 unfolding gone_def by (simp add: k4_def upd_domain_def)
  moreover have "bury d k = Some k4"
    unfolding bury_def k1_def[symmetric] k4_def by (simp add: k2(1) k3(1))
  ultimately show ?thesis using t4 by blast
qed

lemma destroy_depth_returns:
  "card (strays k) < n \<Longrightarrow> whole k \<Longrightarrow> d < length (k_domains k) \<Longrightarrow> dom_id (k_domains k ! d) \<noteq> 0 \<Longrightarrow>
    \<exists>k'. destroy_depth n d k = Some k' \<and> thins {0, 1} k k' \<and> gone d k'"
proof (induction n arbitrary: d k)
  case (Suc n)
  define to :: int where "to = (if dom_id (k_domains k ! d) \<noteq> 1 \<and> cell_find_domain 1 k \<noteq> None then 1 else 0)"
  have to: "to \<in> {0, 1}" "dom_id (k_domains k ! d) \<notin> {0, to}" using Suc.prems(4) by (auto simp: to_def)
  have "destroys n (destroy_depth n)"
    unfolding destroys_def thinned_def using Suc.IH by blast
  then obtain k1 where k1: "each_index (reparent (destroy_depth n) d to) [0..<length (k_domains k)] k = Some k1"
      "thins {0, to} k k1" "\<forall>c < length (k_domains k). orphan (dom_id (k_domains k ! d)) (k_domains k1 ! c)"
    using reparent_loop_returns[OF _ Suc.prems(2) _ _ Suc.prems(3) to, of n "destroy_depth n" "[0..<length (k_domains k)]"]
      Suc.prems(1) by auto
  have l: "length (k_domains k1) = length (k_domains k)" by (rule thins_nth(1)[OF k1(2)])
  have i: "dom_id (k_domains k ! d) = dom_id (k_domains k1 ! d)"
    using thins_nth(5)[OF k1(2) Suc.prems(3)] by (simp add: domain_thins_def)
  have "list_all (orphan (dom_id (k_domains k ! d))) (k_domains k1)" using k1(3) l by (simp add: list_all_length)
  from bury_returns[OF whole_thins[OF k1(2) Suc.prems(2)] _ i this] Suc.prems(3) l
  obtain k' where k': "bury d k1 = Some k'" "thins {} k1 k'" "gone d k'" by auto
  have "thins {0, 1} k k'" using thins_trans[OF k1(2) thins_mono[OF k'(2)]] to(1) by (auto intro: thins_mono)
  moreover have "destroy_depth (Suc n) d k = Some k'"
    using k1(1) k'(1) unfolding destroy_depth_bury Let_def to_def[symmetric] by simp
  ultimately show ?case using k'(3) by blast
qed simp

lemma destroy_domain_returns:
  assumes "whole k" "d < length (k_domains k)" "dom_id (k_domains k ! d) \<noteq> 0"
  shows "\<exists>k'. cell_destroy_domain d k = Some k' \<and> thins {0, 1} k k' \<and> gone d k'"
  unfolding cell_destroy_domain_def
  by (rule destroy_depth_returns[OF _ assms]) (simp add: strays_bound le_imp_less_Suc)

end
