(* ===== verification/Kdemo.thy ===== *)
theory Kdemo
  imports Kernel
begin

text \<open>
  Concrete states: a kernel on one processor with given tables, at which the theorems about the process code
  are applied.
\<close>

definition demo_env :: kenv where
  "demo_env = \<lparr>env_int = (\<lambda>_. 0), env_bool = (\<lambda>_. False), env_bytes = (\<lambda>_. None), env_node = (\<lambda>_. None),
     env_frame = (\<lambda>_ m. (None, m))\<rparr>"

definition demo_sys :: vma_sys where
  "demo_sys = \<lparr>vs_machine = \<lparr>mpmm = \<lparr>hhdm_base = 0, bitmap = [], refcounts = [], tracked_page_count = 0,
     bitmap_word_count = 0, total_page_count = 0, free_page_count = 0, next_free_page = 0, metadata_start_page = 0,
     metadata_page_count = 0, stats = \<lparr>alloc_attempts = 0, alloc_successes = 0, alloc_failures = 0,
     bitmap_words_scanned = 0\<rparr>\<rparr>, phys = (\<lambda>_. 0)\<rparr>, vma_hhdm_offset = 0, vs_calls = []\<rparr>"

definition demo_kernel :: "domain list \<Rightarrow> thread list \<Rightarrow> open_file list \<Rightarrow> pipe_obj list \<Rightarrow> kernel" where
  "demo_kernel ds ts fs ps = \<lparr>k_sys = demo_sys, k_mms = [], k_domains = ds, k_threads = ts, k_files = fs, k_pipes = ps,
     k_next_domain_id = 1, k_next_thread_id = 1, k_ticks = 0, k_cpu = 0, k_current = [if ts = [] then None else Some 0],
     k_waiting = [False], k_fp = zero_fp, k_tpidr = 0, k_ttbr0 = 0, k_pipe_waking = False, k_poll_waking = False,
     k_epoll_waking = False, k_calls = [], k_env = demo_env\<rparr>"

definition demo_domain :: "int \<Rightarrow> int \<Rightarrow> domain" where
  "demo_domain i p = zero_domain\<lparr>dom_used := True, dom_id := i, parent_id := p\<rparr>"

definition demo_thread :: "nat \<Rightarrow> thread_state \<Rightarrow> int \<Rightarrow> thread" where
  "demo_thread d s cpu = zero_thread\<lparr>th_domain := Some d, th_state := s, running_cpu := cpu\<rparr>"

lemma demo_kernel_simps [simp]:
  "k_domains (demo_kernel ds ts fs ps) = ds" "k_threads (demo_kernel ds ts fs ps) = ts"
  "k_files (demo_kernel ds ts fs ps) = fs" "k_pipes (demo_kernel ds ts fs ps) = ps"
  "k_mms (demo_kernel ds ts fs ps) = []" "k_cpu (demo_kernel ds ts fs ps) = 0"
  "k_current (demo_kernel ds ts fs ps) = [if ts = [] then None else Some 0]"
  by (simp_all add: demo_kernel_def)

lemma demo_domain_simps [simp]:
  "dom_used (demo_domain i p)" "dom_id (demo_domain i p) = i" "parent_id (demo_domain i p) = p"
  "fds (demo_domain i p) = replicate MAX_FDS None" "dom_mm (demo_domain i p) = None"
  by (simp_all add: demo_domain_def zero_domain_def)

lemma demo_thread_simps [simp]:
  "th_domain (demo_thread d s cpu) = Some d" "th_state (demo_thread d s cpu) = s"
  "running_cpu (demo_thread d s cpu) = cpu"
  by (simp_all add: demo_thread_def)

end
