(* ===== verification/Kdemo_Whole.thy ===== *)
theory Kdemo_Whole
  imports Kdestroy Kdemo
begin

text \<open>Concrete states with sound tables.\<close>

lemma demo_whole:
  assumes "list_all (\<lambda>x. dom_mm x = None \<and> dom_id x \<noteq> 0 \<and> fds x = replicate MAX_FDS None) ds"
    and "list_all (\<lambda>t. below (length ds) (th_domain t)) ts"
  shows "whole (demo_kernel ds ts [] ps)"
  using assms by (auto simp: whole_def calm_def kernel_wf_def areas_low_def domain_sound_def list_all_length)

end
