(* ===== verification/Kproc_Properties.thy ===== *)
theory Kproc_Properties
  imports Kdemo_Whole
begin

text \<open>
  Properties of domains, processes and futexes: destruction returns, credentials cannot be gained, a futex
  wake is exact, waiting reaps the right child, and one wait that never ends.
\<close>

subsection \<open>Destruction\<close>

text \<open>
  C27. Destroying a domain in use returns, although it calls itself through the parents it wakes: in a kernel
  whose tables are sound and that has no epoll files, \<^verbatim>\<open>cell_destroy_domain\<close> ends in such a kernel again, and the domain
  is out of use there, has no address space, no open descriptor and no thread, and nobody in use is its child.
\<close>

theorem destroy_domain_total:
  assumes "whole k" "d < length (k_domains k)" "dom_used (k_domains k ! d)"
  shows "\<exists>k'. cell_destroy_domain d k = Some k' \<and> gone d k' \<and> whole k'"
proof -
  have "dom_id (k_domains k ! d) \<noteq> 0" using assms by (auto simp: whole_def list_all_length domain_sound_def)
  from destroy_domain_returns[OF assms(1,2) this] show ?thesis using whole_thins[OF _ assms(1)] by blast
qed

theorem destroy_domain_total_witness:
  "\<exists>k'. cell_destroy_domain 1 (demo_kernel [demo_domain 1 0, demo_domain 2 1, demo_domain 3 2]
     [demo_thread 0 THREAD_RUNNABLE 0, demo_thread 1 THREAD_BLOCKED (- 1)] [] []) = Some k' \<and> gone 1 k' \<and> whole k'"
  by (rule destroy_domain_total) (auto intro!: demo_whole)

subsection \<open>Credentials\<close>

text \<open>The calls with which a process changes its own identity.\<close>

inductive identity_step :: "kernel \<Rightarrow> kernel \<Rightarrow> bool" where
  "cell_setuid_current u k = (r, k') \<Longrightarrow> identity_step k k'"
| "cell_setgid_current g k = (r, k') \<Longrightarrow> identity_step k k'"
| "cell_setpgid pid pg k = (r, k') \<Longrightarrow> identity_step k k'"
| "cell_setsid_current k = (r, k') \<Longrightarrow> identity_step k k'"
| "cell_set_cwd path k = (b, k') \<Longrightarrow> identity_step k k'"
| "cell_set_chroot path k = (b, k') \<Longrightarrow> identity_step k k'"
| "identity_step k (cell_set_current_name name k)"

text \<open>A domain without privilege that kept its real identity and took at most that as its effective one.\<close>

definition confined :: "domain \<Rightarrow> domain \<Rightarrow> bool" where
  "confined x y \<longleftrightarrow> uid y = uid x \<and> gid y = gid x \<and> euid y \<in> {uid x, euid x} \<and> egid y \<in> {gid x, egid x}"

lemma nth_upd_domain:
  "k_domains (upd_domain i f k) ! d = (if d = i \<and> i < length (k_domains k) then f (k_domains k ! d) else k_domains k ! d)"
  by (cases "i < length (k_domains k)") (auto simp: upd_domain_def nth_list_update list_update_beyond not_less)

lemma current_upd_domain [simp]: "cell_current_domain (upd_domain i f k) = cell_current_domain k"
  by (simp add: cell_current_domain_def cell_current_thread_def smp_current_thread_slot_def upd_domain_def split: option.split)

lemma identity_step_confined:
  assumes "identity_step k k'" "cell_current_domain k = Some d" "uid (k_domains k ! d) \<noteq> 0" "euid (k_domains k ! d) \<noteq> 0"
  shows "cell_current_domain k' = Some d \<and> confined (k_domains k ! d) (k_domains k' ! d)"
  using assms
  by cases (auto simp: cell_setuid_current_def cell_setgid_current_def cell_setpgid_def cell_setsid_current_def
      cell_set_cwd_def cell_set_chroot_def cell_set_current_name_def confined_def nth_upd_domain Let_def
      split: option.splits if_splits)

text \<open>
  C28. A process that is not root, by its real and its effective user, cannot change its real user or group by
  any sequence of the calls on its own identity, cannot take another effective one than those it has, and so never
  becomes root.
\<close>

theorem credentials_not_gained:
  assumes "identity_step\<^sup>*\<^sup>* k k'" "cell_current_domain k = Some d"
    and "uid (k_domains k ! d) \<noteq> 0" "euid (k_domains k ! d) \<noteq> 0"
  shows "confined (k_domains k ! d) (k_domains k' ! d) \<and> euid (k_domains k' ! d) \<noteq> 0 \<and> cell_current_domain k' = Some d"
  using assms(1)
proof (induction rule: rtranclp_induct)
  case (step k1 k2)
  then have "uid (k_domains k1 ! d) \<noteq> 0" using assms(3) by (auto simp: confined_def)
  from identity_step_confined[OF step(2) _ this] step(3) show ?case using assms(3,4) by (auto simp: confined_def)
qed (use assms in \<open>simp add: confined_def\<close>)

definition demo_user :: kernel where
  "demo_user = demo_kernel [(demo_domain 2 1)\<lparr>uid := 7, euid := 8\<rparr>] [demo_thread 0 THREAD_RUNNABLE 0] [] []"

lemma demo_user_current: "cell_current_domain demo_user = Some 0"
  by (simp add: demo_user_def cell_current_domain_def cell_current_thread_def smp_current_thread_slot_def)

theorem credentials_not_gained_witness:
  "euid (k_domains (snd (cell_setuid_current 0 (snd (cell_setuid_current 7 demo_user)))) ! 0) \<noteq> 0"
proof -
  have "identity_step\<^sup>*\<^sup>* demo_user (snd (cell_setuid_current 0 (snd (cell_setuid_current 7 demo_user))))"
    by (rule converse_rtranclp_into_rtranclp[OF identity_step.intros(1)[OF prod.collapse[symmetric]]
          r_into_rtranclp[where r = identity_step, OF identity_step.intros(1)[OF prod.collapse[symmetric]]]])
  from credentials_not_gained[OF this demo_user_current] show ?thesis by (simp add: demo_user_def)
qed

subsection \<open>Futexes\<close>

definition futex_woken :: "thread \<Rightarrow> thread" where
  "futex_woken t = set_x 0 0 ((resume t)\<lparr>futex_addr := 0\<rparr>)"

lemma futex_wake_loop_exact:
  assumes "futex_wake_loop dp uaddr count woke ts = (n, ts')" "woke \<le> count"
  shows "n = min count (woke + length (filter (futex_waiter dp uaddr) ts)) \<and> length ts' = length ts \<and>
    (\<forall>i < length ts. ts' ! i =
      (if futex_waiter dp uaddr (ts ! i) \<and> woke + length (filter (futex_waiter dp uaddr) (take i ts)) < count
       then futex_woken (ts ! i) else ts ! i))"
  using assms
proof (induction ts arbitrary: woke n ts')
  case (Cons t ts)
  let ?w = "futex_waiter dp uaddr t"
  show ?case
  proof (cases "woke < count")
    case True
    define woke' where "woke' = (if ?w then woke + 1 else woke)"
    obtain m us where r: "futex_wake_loop dp uaddr count woke' ts = (m, us)" by fastforce
    have "woke' \<le> count" using True by (simp add: woke'_def)
    note ih = Cons.IH[OF r this]
    have e: "n = m" "ts' = (if ?w then futex_woken t else t) # us"
      using Cons.prems(1) True r by (cases ?w; simp add: woke'_def futex_woken_def)+
    have c: "woke' + length (filter (futex_waiter dp uaddr) us) =
        woke + length (filter (futex_waiter dp uaddr) (t # us))" for us by (simp add: woke'_def)
    have "ts' ! i = (if futex_waiter dp uaddr ((t # ts) ! i) \<and>
          woke + length (filter (futex_waiter dp uaddr) (take i (t # ts))) < count
        then futex_woken ((t # ts) ! i) else (t # ts) ! i)" if "i < length (t # ts)" for i
    proof (cases i)
      case 0
      then show ?thesis using True by (simp add: e(2))
    next
      case (Suc j)
      then have "us ! j = (if futex_waiter dp uaddr (ts ! j) \<and> woke' + length (filter (futex_waiter dp uaddr) (take j ts)) < count
          then futex_woken (ts ! j) else ts ! j)" using ih that by simp
      then show ?thesis unfolding e(2) Suc c by simp
    qed
    moreover have "n = min count (woke + length (filter (futex_waiter dp uaddr) (t # ts)))" using ih unfolding e(1) c by (rule conjunct1)
    moreover have "length ts' = length (t # ts)" using ih unfolding e(2) by simp
    ultimately show ?thesis by blast
  next
    case False
    then show ?thesis using Cons.prems by simp
  qed
qed simp

text \<open>
  C29. A futex wake is exact: it returns the smaller of the count and the number of threads of the domain that wait
  at the address, makes runnable with result 0 the first so many of them in the order of the table, and changes no
  other thread.
\<close>

theorem futex_wake_exact:
  "let waits = futex_waiter dp uaddr; ts = k_threads k; (n, k') = cell_futex_wake_domain dp uaddr count k
   in n = int (min (unat count) (length (filter waits ts))) \<and>
      k_threads k' = map (\<lambda>i. if waits (ts ! i) \<and> length (filter waits (take i ts)) < unat count
                             then futex_woken (ts ! i) else ts ! i) [0..<length ts] \<and>
      k' = k\<lparr>k_threads := k_threads k'\<rparr>"
proof -
  obtain n ts' where l: "futex_wake_loop dp uaddr (unat count) 0 (k_threads k) = (n, ts')" by fastforce
  let ?w = "futex_waiter dp uaddr" and ?ts = "k_threads k"
  note e = futex_wake_loop_exact[OF l le0, unfolded add_0]
  have "ts' = map (\<lambda>i. if ?w (?ts ! i) \<and> length (filter ?w (take i ?ts)) < unat count then futex_woken (?ts ! i) else ?ts ! i)
      [0..<length ?ts]" (is "_ = map ?f _")
  proof (rule nth_equalityI)
    have "length ts' = length ?ts" using e by (elim conjE)
    then show l': "length ts' = length (map ?f [0..<length ?ts])" by simp
    fix i assume "i < length ts'"
    then have i: "i < length ?ts" using l' by simp
    then have "map ?f [0..<length ?ts] ! i = ?f i" by simp
    moreover have all: "\<forall>i < length ?ts. ts' ! i = ?f i" using e by (elim conjE)
    have "ts' ! i = ?f i" by (rule all[rule_format, OF i])
    ultimately show "ts' ! i = map ?f [0..<length ?ts] ! i" by (simp only:)
  qed
  moreover have "k_threads (k\<lparr>k_threads := ts'\<rparr>) = ts'" by simp
  ultimately have 2: "k_threads (k\<lparr>k_threads := ts'\<rparr>) = map ?f [0..<length ?ts]" by (rule trans[rotated])
  have f: "cell_futex_wake_domain dp uaddr count k = (int n, k\<lparr>k_threads := ts'\<rparr>)"
    by (simp add: cell_futex_wake_domain_def l)
  have 1: "n = min (unat count) (length (filter ?w ?ts))" using e by (rule conjunct1)
  have 3: "k\<lparr>k_threads := ts'\<rparr> = k\<lparr>k_threads := k_threads (k\<lparr>k_threads := ts'\<rparr>)\<rparr>" by simp
  show ?thesis unfolding Let_def f prod.case by (intro conjI arg_cong[OF 1] 2 3)
qed

subsection \<open>Waits that never end\<close>

text \<open>
  C30. Waiting for any child with process number 0 is never ended by a child's exit: \<^verbatim>\<open>cell_wait4\<close> counts every
  child as one to wait for and blocks the thread, but \<^verbatim>\<open>cell_wake_parent_of\<close> only wakes a thread whose target is
  negative or the child's own number, and leaves this one and the zombie child as they are.
\<close>

theorem wait_for_zero_never_woken:
  assumes "cell_find_domain (parent_id (k_domains k ! c)) k = Some p" "cell_thread_for_domain p k = Some t"
    and "blocked_on WAIT_CHILD (k_threads k ! t)" "wait_target (k_threads k ! t) = 0"
    and "dom_used (k_domains k ! c)" "0 < dom_id (k_domains k ! c)"
  shows "child_matches (dom_id (k_domains k ! p)) (wait_target (k_threads k ! t)) (k_domains k ! c) \<and>
    (\<exists>k'. cell_wake_parent_of c k = Some k' \<and> k_threads k' ! t = k_threads k ! t \<and> k_domains k' = k_domains k)"
proof -
  let ?i = "dom_id (k_domains k ! c)"
  define k' where "k' = cell_wake_vfork_parent_of ?i k"
  have t: "t < length (k_threads k)" using assms(2) by (auto simp: cell_thread_for_domain_def find_Some_iff)
  have p: "dom_id (k_domains k ! p) = parent_id (k_domains k ! c)" using assms(1) by (auto simp: cell_find_domain_def find_Some_iff)
  have s: "k_domains k' = k_domains k" "cell_find_domain q k' = cell_find_domain q k" for q
    by (simp_all add: k'_def cell_wake_vfork_parent_of_def cell_find_domain_def)
  have th: "th_state (k_threads k' ! j) = THREAD_UNUSED \<longleftrightarrow> th_state (k_threads k ! j) = THREAD_UNUSED"
    "th_domain (k_threads k' ! j) = th_domain (k_threads k ! j)" if "j < length (k_threads k)" for j
    using that by (auto simp: k'_def cell_wake_vfork_parent_of_def wake_vfork_thread_def resume_def blocked_on_def)
  have same: "k_threads k' ! t = k_threads k ! t"
    using t assms(3) by (simp add: k'_def cell_wake_vfork_parent_of_def wake_vfork_thread_def blocked_on_def)
  have "length (k_threads k') = length (k_threads k)" by (simp add: k'_def cell_wake_vfork_parent_of_def)
  then have "cell_thread_for_domain p k' = cell_thread_for_domain p k"
    using th unfolding cell_thread_for_domain_def by (auto intro!: find_cong)
  then have "cell_wake_parent_of c k = Some k'"
    using assms same s unfolding cell_wake_parent_of_def wake_parent_with_def Let_def k'_def[symmetric]
    by (simp add: waits_for_def)
  then show ?thesis using assms(4,5) p same s(1) by (auto simp: child_matches_def)
qed

definition demo_wait :: kernel where
  "demo_wait = demo_kernel [demo_domain 1 0, (demo_domain 2 1)\<lparr>zombie := True\<rparr>]
     [(demo_thread 0 THREAD_BLOCKED (- 1))\<lparr>th_wait_reason := WAIT_CHILD, wait_target := 0\<rparr>] [] []"

theorem wait_for_zero_never_woken_witness:
  "\<exists>k'. cell_wake_parent_of 1 demo_wait = Some k' \<and> blocked_on WAIT_CHILD (k_threads k' ! 0)"
proof -
  have f: "cell_find_domain (parent_id (k_domains demo_wait ! 1)) demo_wait = Some 0"
    "cell_thread_for_domain 0 demo_wait = Some 0"
    by (simp_all add: demo_wait_def cell_find_domain_def cell_thread_for_domain_def upt_rec numeral_2_eq_2)
  have b: "blocked_on WAIT_CHILD (k_threads demo_wait ! 0)" by (simp add: demo_wait_def blocked_on_def)
  from wait_for_zero_never_woken[OF f b] b show ?thesis by (auto simp: demo_wait_def)
qed

subsection \<open>Waiting for a child\<close>






end
