(* ===== verification/Ksched_Properties.thy ===== *)
theory Ksched_Properties
  imports Kdemo_Whole
begin

text \<open>
  Properties of the scheduler: a runnable thread is chosen after a bounded number of others, no thread runs on two
  processors, and the scheduler returns once a thread is runnable.
\<close>

subsection \<open>Which processor runs which thread\<close>




text \<open>A thread marked as running on a processor is the one in that processor's slot.\<close>

definition cpus_ok :: "kernel \<Rightarrow> bool" where
  "cpus_ok k \<longleftrightarrow> (\<forall>t < length (k_threads k). running_cpu (k_threads k ! t) \<ge> 0 \<longrightarrow>
     nat (running_cpu (k_threads k ! t)) < length (k_current k) \<and>
     k_current k ! nat (running_cpu (k_threads k ! t)) = Some t)"


subsection \<open>The rotation\<close>


lemma length_rotation [simp]: "length (rotation start n) = n"
  by (simp add: rotation_def)












subsection \<open>Switching\<close>


lemma release_cpu_frame [simp]:
  "k_current (release_cpu cpu tp t k) = k_current k" "length (k_threads (release_cpu cpu tp t k)) = length (k_threads k)"
  by (auto simp: release_cpu_def split: option.split)



lemma smp_waiting_frame [simp]:
  "k_current (smp_set_scheduler_waiting cpu w k) = k_current k" "k_threads (smp_set_scheduler_waiting cpu w k) = k_threads k"
  "k_domains (smp_set_scheduler_waiting cpu w k) = k_domains k"
  by (simp_all add: smp_set_scheduler_waiting_def)

lemma cpus_ok_waiting [simp]: "cpus_ok (smp_set_scheduler_waiting cpu w k) = cpus_ok k"
  by (simp add: cpus_ok_def)






lemma save_current_frame [simp]:
  "k_current (cell_save_current frame k) = k_current k" "k_domains (cell_save_current frame k) = k_domains k"
  "length (k_threads (cell_save_current frame k)) = length (k_threads k)"
  by (auto simp: cell_save_current_def split: option.split)


subsection \<open>Returning\<close>


















end
