(* ===== verification/Kfd_Refs.thy ===== *)
theory Kfd_Refs
  imports Kdestroy
begin

text \<open>
  Reference counts of open files: the count of a file is the number of descriptors that refer to it, plus
  the references the running operation holds itself, and a file is in use iff its count is not 0.
\<close>

subsection \<open>What waking and pipes leave alone\<close>

definition file_ref :: "open_file \<Rightarrow> bool \<times> u16" where
  "file_ref f = (of_used f, of_refcount f)"

definition same_refs :: "kernel \<Rightarrow> kernel \<Rightarrow> bool" where
  "same_refs k k' \<longleftrightarrow> map fds (k_domains k') = map fds (k_domains k) \<and> map file_ref (k_files k') = map file_ref (k_files k) \<and>
     map th_domain (k_threads k') = map th_domain (k_threads k) \<and> k_current k' = k_current k \<and> k_cpu k' = k_cpu k"

lemma same_refs_domain: "(\<And>x. fds (g x) = fds x) \<Longrightarrow> same_refs k (upd_domain d g k)"
  by (simp add: same_refs_def upd_domain_def map_update_same)

lemma same_refs_file: "(\<And>f. file_ref (g f) = file_ref f) \<Longrightarrow> same_refs k (upd_file i g k)"
  by (simp add: same_refs_def upd_file_def map_update_same)

interpretation frefs: pipe_frame same_refs
proof
  fix k dp major
  show "same_refs k (note_fault dp major k)"
    by (auto simp: note_fault_def intro!: same_refs_domain split: option.split) (simp add: same_refs_def)
next
  fix f :: "thread \<Rightarrow> thread" and t and k :: kernel
  assume "\<And>x. th_domain (f x) = th_domain x" "\<And>x. running_cpu (f x) = running_cpu x"
  then show "same_refs k (upd_thread t f k)" by (simp add: same_refs_def upd_thread_def map_update_same)
qed (simp_all add: same_refs_def)

lemma same_refs_current:
  assumes "same_refs k k'" and b: "below (length (k_threads k)) (cell_current_thread k)"
  shows "cell_current_domain k' = cell_current_domain k"
proof -
  have "cell_current_thread k' = cell_current_thread k"
    using assms(1) by (simp add: same_refs_def cell_current_thread_def smp_current_thread_slot_def)
  moreover have "th_domain (k_threads k' ! t) = th_domain (k_threads k ! t)" if "t < length (k_threads k)" for t
    using assms(1) that unfolding same_refs_def by (metis length_map nth_map)
  ultimately show ?thesis using b by (auto simp: cell_current_domain_def split: option.splits)
qed

subsection \<open>Counting\<close>

definition held :: "nat option \<Rightarrow> nat \<Rightarrow> int" where
  "held fp i = (if fp = Some i then 1 else 0)"

definition refs :: "nat \<Rightarrow> kernel \<Rightarrow> nat" where
  "refs i k = sum_list (map (\<lambda>x. count_list (fds x) (Some i)) (k_domains k))"

definition refs_bal :: "(nat \<Rightarrow> int) \<Rightarrow> kernel \<Rightarrow> bool" where
  "refs_bal e k \<longleftrightarrow>
     list_all (\<lambda>x. length (fds x) = MAX_FDS \<and> list_all (below (length (k_files k))) (fds x)) (k_domains k) \<and>
     (\<forall>i < length (k_files k). uint (of_refcount (k_files k ! i)) = int (refs i k) + e i \<and>
        (of_used (k_files k ! i) \<longleftrightarrow> of_refcount (k_files k ! i) \<noteq> 0))"

lemma refs_same: "same_refs k k' \<Longrightarrow> refs i k' = refs i k"
proof -
  assume "same_refs k k'"
  then have "map (\<lambda>x. count_list x (Some i)) (map fds (k_domains k')) = map (\<lambda>x. count_list x (Some i)) (map fds (k_domains k))"
    by (simp only: same_refs_def)
  then show ?thesis by (simp add: refs_def comp_def)
qed

lemma refs_bal_same:
  assumes "same_refs k k'" "refs_bal e k"
  shows "refs_bal e k'"
proof -
  have l: "length (k_files k') = length (k_files k)" using assms(1) unfolding same_refs_def by (metis length_map)
  have f: "file_ref (k_files k' ! i) = file_ref (k_files k ! i)" if "i < length (k_files k)" for i
    using assms(1) l that unfolding same_refs_def by (metis nth_map)
  have "list_all P (map fds (k_domains k')) = list_all P (map fds (k_domains k))" for P
    using assms(1) by (simp only: same_refs_def)
  then have d: "list_all (P \<circ> fds) (k_domains k') = list_all (P \<circ> fds) (k_domains k)" for P by (simp add: list.pred_map)
  show ?thesis using assms(2) f refs_same[OF assms(1)] d[of "\<lambda>x. length x = MAX_FDS \<and> list_all (below (length (k_files k))) x"]
    unfolding refs_bal_def l by (simp add: file_ref_def comp_def)
qed

lemma refs_files [simp]: "refs i (upd_file j g k) = refs i k"
  by (simp add: refs_def)

lemma count_list_update:
  "n < length xs \<Longrightarrow> count_list (xs[n := y]) z + of_bool (xs ! n = z) = count_list xs z + of_bool (y = z)"
proof (induction xs arbitrary: n)
  case (Cons x xs)
  show ?case using Cons.prems Cons.IH[of "n - 1"] by (cases n) auto
qed simp

lemma refs_set_fd:
  assumes "d < length (k_domains k)" "fd < length (fds (k_domains k ! d))"
  shows "int (refs i (set_fd d fd fp fl k)) + held (fds (k_domains k ! d) ! fd) i = int (refs i k) + held fp i"
proof -
  let ?c = "\<lambda>x. count_list (fds x) (Some i)"
  let ?x = "k_domains k ! d"
  let ?y = "?x\<lparr>fds := (fds ?x)[fd := fp], fd_flags := (fd_flags ?x)[fd := fl]\<rparr>"
  have "sum_list (map ?c ((k_domains k)[d := ?y])) + ?c ?x = sum_list (map ?c (k_domains k)) + ?c ?y"
    using assms(1) member_le_sum_list[of "?c ?x" "map ?c (k_domains k)"] by (simp add: map_update sum_list_update)
  moreover have "int (?c ?y) + held (fds ?x ! fd) i = int (?c ?x) + held fp i"
    using count_list_update[OF assms(2), of fp "Some i"] by (simp add: held_def of_bool_def split: if_splits)
  ultimately show ?thesis unfolding refs_def set_fd_def upd_domain_def by simp
qed

definition same_here :: "kernel \<Rightarrow> kernel \<Rightarrow> bool" where
  "same_here k k' \<longleftrightarrow> map th_domain (k_threads k') = map th_domain (k_threads k) \<and> k_current k' = k_current k \<and>
     k_cpu k' = k_cpu k \<and> length (k_domains k') = length (k_domains k) \<and> length (k_files k') = length (k_files k)"

lemma same_here_refl [simp]: "same_here k k"
  by (simp add: same_here_def)

lemma same_here_trans: "same_here k1 k2 \<Longrightarrow> same_here k2 k3 \<Longrightarrow> same_here k1 k3"
  by (simp add: same_here_def)

lemma same_here_refs: "same_refs k k' \<Longrightarrow> same_here k k'"
  unfolding same_here_def same_refs_def by (metis length_map)

lemma same_here_upd [simp]: "same_here k (upd_file i g k)" "same_here k (set_fd d fd fp fl k)"
  by (simp_all add: same_here_def set_fd_def)

subsection \<open>Steps\<close>

lemma refs_bal_fds:
  assumes "refs_bal e k" "d < length (k_domains k)"
  shows "length (fds (k_domains k ! d)) = MAX_FDS" "list_all (below (length (k_files k))) (fds (k_domains k ! d))"
  using assms by (simp_all add: refs_bal_def list_all_length)

lemma refs_bal_set_fd:
  assumes "refs_bal e k" "d < length (k_domains k)" "fd < MAX_FDS" "below (length (k_files k)) fp"
  shows "refs_bal (\<lambda>i. e i + held (fds (k_domains k ! d) ! fd) i - held fp i) (set_fd d fd fp fl k)"
proof -
  note l = refs_bal_fds[OF assms(1,2)]
  have "int (refs i (set_fd d fd fp fl k)) + (e i + held (fds (k_domains k ! d) ! fd) i - held fp i) = int (refs i k) + e i" for i
    using refs_set_fd[OF assms(2), of fd i fp fl] assms(3) l(1) by simp
  moreover have "list_all (below (length (k_files k))) ((fds (k_domains k ! d))[fd := fp])"
    using l(2) assms(4) by (auto simp: list_all_iff dest!: subsetD[OF set_update_subset_insert])
  ultimately show ?thesis using assms(1,2) l(1)
    by (auto simp: refs_bal_def set_fd_def upd_domain_def list_all_length nth_list_update)
qed

lemma refs_bal_file:
  assumes "refs_bal e k" "i < length (k_files k)"
    and "uint (of_refcount (g (k_files k ! i))) = int (refs i k) + n" "of_used (g (k_files k ! i)) \<longleftrightarrow> of_refcount (g (k_files k ! i)) \<noteq> 0"
  shows "refs_bal (e(i := n)) (upd_file i g k)"
  using assms by (auto simp: refs_bal_def nth_upd)

lemma refs_bal_retain:
  assumes "refs_bal e k" "i < length (k_files k)" "int (refs i k) + e i < 65535" "0 < int (refs i k) + e i"
  shows "refs_bal (e(i := e i + 1)) (cell_retain_open_file (Some i) k)"
proof -
  have c: "uint (of_refcount (k_files k ! i)) = int (refs i k) + e i" "of_used (k_files k ! i) \<longleftrightarrow> of_refcount (k_files k ! i) \<noteq> 0"
    using assms(1,2) by (simp_all add: refs_bal_def)
  have u: "uint (of_refcount (k_files k ! i) + 1) = int (refs i k) + (e i + 1)"
    using c(1) assms(3,4) by (simp add: uint_word_ariths)
  moreover have "of_refcount (k_files k ! i) + 1 \<noteq> 0"
  proof
    assume "of_refcount (k_files k ! i) + 1 = 0"
    then show False using u assms(4) by simp
  qed
  moreover have "of_used (k_files k ! i)" using c assms(4) by auto
  ultimately show ?thesis unfolding cell_retain_open_file_def option.case
    by (intro refs_bal_file[OF assms(1,2)]) auto
qed

lemma refs_bal_alloc:
  assumes "refs_bal e k" "cell_alloc_open_file k = (fp, k')"
  shows "(case fp of None \<Rightarrow> k' = k | Some i \<Rightarrow> i < length (k_files k) \<and> refs_bal (e(i := e i + 1)) k' \<and> int (refs i k) + e i = 0) \<and>
    k_domains k' = k_domains k \<and> same_here k k'"
proof (cases fp)
  case (Some i)
  with assms(2) have i: "i < length (k_files k)" "\<not> of_used (k_files k ! i)"
      "k' = upd_file i (\<lambda>_. zero_file\<lparr>of_used := True, of_refcount := 1\<rparr>) k"
    by (auto simp: cell_alloc_open_file_def find_Some_iff split: option.splits)
  then have z: "int (refs i k) + e i = 0" using assms(1) by (auto simp: refs_bal_def)
  then have "refs_bal (e(i := e i + 1)) k'" unfolding i(3) by (intro refs_bal_file[OF assms(1) i(1)]) simp_all
  then show ?thesis using Some i z by simp
qed (use assms(2) in \<open>auto simp: cell_alloc_open_file_def split: option.splits\<close>)

lemma uint_minus_one:
  assumes "n \<noteq> 0"
  shows "uint (n - 1 :: u16) = uint n - 1"
proof -
  have "0 < unat n" using assms by (simp add: unat_gt_0)
  then have "int (unat (n - 1)) = int (unat n) - 1" using unat_minus_one[OF assms] by simp
  then show ?thesis by (simp only: uint_nat)
qed

lemma same_refs_unuse:
  assumes "same_refs k k'"
  shows "same_refs (upd_file i (\<lambda>f. f\<lparr>of_used := False\<rparr>) k) (upd_file i (\<lambda>f. f\<lparr>of_used := False\<rparr>) k')"
proof -
  have m: "map file_ref (k_files (upd_file i (\<lambda>f. f\<lparr>of_used := False\<rparr>) q)) =
      (map file_ref (k_files q))[i := (False, snd (map file_ref (k_files q) ! i))]" for q
    by (cases "i < length (k_files q)") (auto simp: upd_file_def map_update file_ref_def list_update_beyond)
  show ?thesis using assms unfolding same_refs_def m by simp
qed

lemma refs_bal_release:
  assumes "refs_bal e k" "i < length (k_files k)" "0 < int (refs i k) + e i" "cell_release_open_file (Some i) k = Some k'"
  shows "refs_bal (e(i := e i - 1)) k' \<and> map fds (k_domains k') = map fds (k_domains k) \<and> same_here k k'"
proof -
  let ?n = "of_refcount (k_files k ! i)"
  define k1 where "k1 = upd_file i (\<lambda>f. f\<lparr>of_refcount := of_refcount f - 1\<rparr>) k"
  have c: "uint ?n = int (refs i k) + e i" "of_used (k_files k ! i) \<longleftrightarrow> ?n \<noteq> 0" using assms(1,2) by (simp_all add: refs_bal_def)
  then have n: "?n \<noteq> 0" using assms(3) by auto
  have m: "uint (?n - 1) = int (refs i k) + (e i - 1)" using uint_minus_one[OF n] c(1) by simp
  have r1: "of_refcount (k_files k1 ! i) = ?n - 1" using assms(2) by (simp add: k1_def nth_upd)
  have l1: "k_domains k1 = k_domains k" "same_here k k1" by (simp_all add: k1_def)
  show ?thesis
  proof (cases "?n - 1 = 0")
    case False
    then have "k' = k1" using assms(4) n r1 by (simp add: cell_release_open_file_def Let_def k1_def[symmetric])
    moreover have "refs_bal (e(i := e i - 1)) k1" unfolding k1_def
      by (rule refs_bal_file[OF assms(1,2)]) (use m c n False in auto)
    ultimately show ?thesis using l1 by simp
  next
    case True
    then obtain k2 v where k2: "release_by_type i k1 = Some k2"
        "k' = upd_file i (\<lambda>f. f\<lparr>of_used := False\<rparr>) (if v then vfs_note (Release (of_node (k_files k2 ! i))) k2 else k2)"
      using assms(4) n r1 by (auto simp: cell_release_open_file_def Let_def k1_def[symmetric] bind_eq_Some_conv)
    define k3 where "k3 = (if v then vfs_note (Release (of_node (k_files k2 ! i))) k2 else k2)"
    have "same_refs k2 k3" by (simp add: k3_def same_refs_def vfs_note_def)
    then have s: "same_refs k1 k3" using frefs.keeps_release_by_type[OF k2(1)] frefs.keeps_trans by blast
    let ?g = "\<lambda>f :: open_file. f\<lparr>of_used := False\<rparr>"
    have "refs_bal (e(i := e i - 1)) (upd_file i (?g \<circ> (\<lambda>f. f\<lparr>of_refcount := of_refcount f - 1\<rparr>)) k)"
      by (rule refs_bal_file[OF assms(1,2)]) (use m True in auto)
    also have "upd_file i (?g \<circ> (\<lambda>f. f\<lparr>of_refcount := of_refcount f - 1\<rparr>)) k = upd_file i ?g k1"
      using assms(2) by (simp add: k1_def upd_file_def)
    finally have b: "refs_bal (e(i := e i - 1)) (upd_file i ?g k1)" .
    have s': "same_refs (upd_file i ?g k1) k'" unfolding k2(2) k3_def[symmetric] by (rule same_refs_unuse[OF s])
    then have "map fds (k_domains k') = map fds (k_domains k)" using l1 by (simp add: same_refs_def)
    moreover have "same_here k k'" using same_here_trans[OF same_here_trans[OF l1(2) same_here_upd(1)] same_here_refs[OF s']] .
    ultimately show ?thesis using refs_bal_same[OF s' b] by simp
  qed
qed

lemma count_bound:
  "list_all (\<lambda>x. length (fds x) = MAX_FDS) ds \<Longrightarrow> sum_list (map (\<lambda>x. count_list (fds x) y) ds) \<le> MAX_FDS * length ds"
proof (induction ds)
  case (Cons x ds)
  then show ?case using count_le_length[of "fds x" y] by simp
qed simp

lemma refs_bound: "refs_bal e k \<Longrightarrow> refs i k \<le> MAX_FDS * length (k_domains k)"
  unfolding refs_def by (rule count_bound) (auto simp: refs_bal_def list_all_iff)

lemma refs_bal_cong: "refs_bal e k \<Longrightarrow> (\<And>i. i < length (k_files k) \<Longrightarrow> e' i = e i) \<Longrightarrow> refs_bal e' k"
  by (simp add: refs_bal_def)

lemma refs_pos:
  assumes "d < length (k_domains k)" "fd < length (fds (k_domains k ! d))" "fds (k_domains k ! d) ! fd = Some i"
  shows "0 < refs i k"
  using refs_set_fd[OF assms(1,2), of i None 0] assms(3) by (simp add: held_def)

subsection \<open>Operations\<close>

definition fd_ready :: "kernel \<Rightarrow> bool" where
  "fd_ready k \<longleftrightarrow> refs_bal (\<lambda>_. 0) k \<and> below (length (k_threads k)) (cell_current_thread k) \<and>
     below (length (k_domains k)) (cell_current_domain k) \<and> length (k_domains k) < MAX_DOMAINS"

lemma same_here_current:
  assumes "same_here k k'" and b: "below (length (k_threads k)) (cell_current_thread k)"
  shows "cell_current_thread k' = cell_current_thread k" "cell_current_domain k' = cell_current_domain k"
    "length (k_threads k') = length (k_threads k)"
proof -
  show t: "cell_current_thread k' = cell_current_thread k"
    using assms(1) by (simp add: same_here_def cell_current_thread_def smp_current_thread_slot_def)
  show l: "length (k_threads k') = length (k_threads k)" using assms(1) unfolding same_here_def by (metis length_map)
  have "th_domain (k_threads k' ! t) = th_domain (k_threads k ! t)" if "t < length (k_threads k)" for t
    using assms(1) that l unfolding same_here_def by (metis nth_map)
  then show "cell_current_domain k' = cell_current_domain k" using b t by (auto simp: cell_current_domain_def split: option.splits)
qed

lemma fd_ready_step: "fd_ready k \<Longrightarrow> same_here k k' \<Longrightarrow> refs_bal e k' \<Longrightarrow> (\<And>i. e i = 0) \<Longrightarrow> fd_ready k'"
  using same_here_current[of k k'] refs_bal_cong[of e k' "\<lambda>_. 0"] by (auto simp: fd_ready_def same_here_def)

lemma free_fd:
  assumes "cell_find_free_fd (Some d) s k = fd" "\<not> fd < 0"
  shows "nat fd < MAX_FDS" "fds (k_domains k ! d) ! nat fd = None" "nat s \<le> nat fd"
  using assms by (auto simp: cell_find_free_fd_def find_Some_iff nat_add_distrib split: option.splits)

lemma install_file_ready:
  assumes "fd_ready k" "\<And>f. file_ref (init f) = file_ref f" "install_file c init k = (r, k')"
  shows "fd_ready k'"
proof (cases "k' = k")
  case False
  with assms(3) obtain d i k1 where d: "cell_current_domain k = Some d" "\<not> cell_find_free_fd (Some d) 0 k < 0"
      "cell_alloc_open_file k = (Some i, k1)"
      "k' = set_fd d (nat (cell_find_free_fd (Some d) 0 k)) (Some i) (if c \<noteq> 0 then 1 else 0) (upd_file i init k1)"
    by (auto simp: install_file_def Let_def cell_alloc_open_file_def split: option.splits if_splits prod.splits)
  let ?fd = "cell_find_free_fd (Some d) 0 k" and ?k2 = "upd_file i init k1"
  note f = free_fd[OF refl d(2)]
  have a: "i < length (k_files k)" "refs_bal ((\<lambda>_. 0)(i := 1)) k1" "k_domains k1 = k_domains k" "same_here k k1"
    using refs_bal_alloc[OF _ d(3), of "\<lambda>_. 0"] assms(1) by (auto simp: fd_ready_def)
  have "refs_bal ((\<lambda>_. 0)(i := 1)) ?k2" by (rule refs_bal_same[OF same_refs_file a(2)]) (rule assms(2))
  moreover have "d < length (k_domains ?k2)" using assms(1) d(1) a(3) by (simp add: fd_ready_def)
  ultimately have "refs_bal (\<lambda>j. ((\<lambda>_. 0)(i := 1)) j + held (fds (k_domains ?k2 ! d) ! nat ?fd) j - held (Some i) j) k'"
    unfolding d(4) by (rule refs_bal_set_fd[OF _ _ f(1)]) (use a(1,4) in \<open>simp add: same_here_def\<close>)
  moreover have "same_here k k'" unfolding d(4) using a(4) same_here_upd same_here_trans by metis
  ultimately show ?thesis using fd_ready_step[OF assms(1)] f(2) a(3) by (auto simp: held_def)
qed (use assms(1) in simp)

text \<open>The descriptor the current domain names, and its file.\<close>

lemma fd_file_ready:
  assumes "fd_ready k" "cell_current_domain k = Some d" "fd_file (Some d) fd k = Some i"
  shows "d < length (k_domains k)" "0 \<le> fd" "nat fd < MAX_FDS" "fds (k_domains k ! d) ! nat fd = Some i"
    "i < length (k_files k)" "0 < refs i k" "refs i k < 65535"
proof -
  show d: "d < length (k_domains k)" using assms(1,2) by (simp add: fd_ready_def)
  show f: "0 \<le> fd" "nat fd < MAX_FDS" "fds (k_domains k ! d) ! nat fd = Some i"
    using assms(3) by (auto simp: fd_file_def split: if_splits)
  have b: "refs_bal (\<lambda>_. 0) k" using assms(1) by (simp add: fd_ready_def)
  note l = refs_bal_fds[OF b d]
  show "i < length (k_files k)" using l f(2,3) by (metis below_simps(2) list_all_length)
  show "0 < refs i k" using refs_pos[OF d _ f(3)] l(1) f(2) by simp
  show "refs i k < 65535" using refs_bound[OF b, of i] assms(1) by (simp add: fd_ready_def MAX_FDS_def MAX_DOMAINS_def)
qed

lemma retain_frame [simp]:
  "k_domains (cell_retain_open_file fp k) = k_domains k" "same_here k (cell_retain_open_file fp k)"
  "refs i (cell_retain_open_file fp k) = refs i k"
  by (simp_all add: cell_retain_open_file_def refs_def split: option.split)

lemma retain_set_fd: "cell_retain_open_file fp (set_fd d fd fq fl k) = set_fd d fd fq fl (cell_retain_open_file fp k)"
  by (simp add: cell_retain_open_file_def set_fd_def upd_domain_def upd_file_def split: option.split)

lemma dup_ready:
  assumes "fd_ready k" "cell_fd_dup oldfd minfd k = (r, k')"
  shows "fd_ready k'"
proof (cases "k' = k")
  case False
  with assms(2) obtain d i where d: "cell_current_domain k = Some d" "fd_file (Some d) oldfd k = Some i"
      "\<not> cell_find_free_fd (Some d) minfd k < 0"
      "k' = set_fd d (nat (cell_find_free_fd (Some d) minfd k)) (Some i) 0 (cell_retain_open_file (Some i) k)"
    by (auto simp: cell_fd_dup_def Let_def retain_set_fd split: option.splits if_splits)
  note f = fd_file_ready[OF assms(1) d(1,2)] and g = free_fd[OF refl d(3)]
  let ?k1 = "cell_retain_open_file (Some i) k"
  have b: "refs_bal ((\<lambda>_. 0)(i := 0 + 1)) ?k1"
    by (rule refs_bal_retain) (use assms(1) f(5,6,7) in \<open>auto simp: fd_ready_def\<close>)
  have "below (length (k_files ?k1)) (Some i)" using f(5) retain_frame(2)[of k "Some i"] by (simp add: same_here_def)
  from refs_bal_set_fd[OF b _ g(1) this, of d 0]
  have bal: "refs_bal (\<lambda>j. ((\<lambda>_. 0)(i := 0 + 1)) j + held None j - held (Some i) j) k'" unfolding d(4) using f(1) g(2) by simp
  have "same_here k k'" unfolding d(4) using same_here_trans[OF retain_frame(2) same_here_upd(2)] .
  from fd_ready_step[OF assms(1) this bal] show ?thesis by (simp add: held_def)
qed (use assms(1) in simp)

lemma close_ready:
  assumes "fd_ready k" "cell_fd_close fd k = Some (r, k')"
  shows "fd_ready k'"
proof (cases "cell_current_domain k = None \<or> fd_file (cell_current_domain k) fd k = None")
  case False
  with assms(2) obtain d i k1 where d: "cell_current_domain k = Some d" "fd_file (Some d) fd k = Some i"
      "cell_release_open_file (Some i) k = Some k1" "k' = set_fd d (nat fd) None 0 k1"
    by (auto simp: cell_fd_close_def bind_eq_Some_conv)
  note f = fd_file_ready[OF assms(1) d(1,2)]
  have r: "refs_bal ((\<lambda>_. 0)(i := 0 - 1)) k1" "map fds (k_domains k1) = map fds (k_domains k)" "same_here k k1"
    using refs_bal_release[OF _ f(5) _ d(3), of "\<lambda>_. 0"] assms(1) f(6) by (auto simp: fd_ready_def)
  have dl: "d < length (k_domains k1)" using r(3) f(1) by (simp add: same_here_def)
  have s: "fds (k_domains k1 ! d) ! nat fd = Some i" using r(2) dl f(1,4) by (metis nth_map)
  from refs_bal_set_fd[OF r(1) dl f(3), of None 0]
  have bal: "refs_bal (\<lambda>j. ((\<lambda>_. 0)(i := 0 - 1)) j + held (Some i) j - held None j) k'" unfolding d(4) s by simp
  have "same_here k k'" unfolding d(4) using same_here_trans[OF r(3) same_here_upd(2)] .
  from fd_ready_step[OF assms(1) this bal] show ?thesis by (simp add: held_def)
qed (use assms in \<open>auto simp: cell_fd_close_def split: option.splits\<close>)

text \<open>Releasing the file of a descriptor, or nothing.\<close>

lemma refs_bal_release_opt:
  assumes "refs_bal e k" "below (length (k_files k)) fp" "\<And>i. fp = Some i \<Longrightarrow> 0 < int (refs i k) + e i"
    and "cell_release_open_file fp k = Some k'"
  shows "refs_bal (\<lambda>j. e j - held fp j) k' \<and> map fds (k_domains k') = map fds (k_domains k) \<and> same_here k k'"
proof (cases fp)
  case (Some i)
  then have "refs_bal (e(i := e i - 1)) k' \<and> map fds (k_domains k') = map fds (k_domains k) \<and> same_here k k'"
    using refs_bal_release[OF assms(1)] assms(2-4) by auto
  then show ?thesis using refs_bal_cong[of "e(i := e i - 1)" k' "\<lambda>j. e j - held fp j"] Some by (simp add: held_def)
qed (use assms in \<open>auto simp: cell_release_open_file_def held_def\<close>)

lemma dup3_ready:
  assumes "fd_ready k" "cell_fd_dup3 oldfd newfd flags k = Some (r, k')"
  shows "fd_ready k'"
proof (cases "\<exists>d i k1. cell_current_domain k = Some d \<and> fd_file (Some d) oldfd k = Some i \<and> 0 \<le> newfd \<and> newfd < int MAX_FDS \<and>
    cell_release_open_file (fds (k_domains k ! d) ! nat newfd) (cell_retain_open_file (Some i) k) = Some k1 \<and>
    k' = set_fd d (nat newfd) (Some i) (if flags AND CELL_O_CLOEXEC \<noteq> 0 then 1 else 0) k1")
  case True
  then obtain d i k1 where d: "cell_current_domain k = Some d" "fd_file (Some d) oldfd k = Some i" "0 \<le> newfd" "newfd < int MAX_FDS"
      "cell_release_open_file (fds (k_domains k ! d) ! nat newfd) (cell_retain_open_file (Some i) k) = Some k1"
      "k' = set_fd d (nat newfd) (Some i) (if flags AND CELL_O_CLOEXEC \<noteq> 0 then 1 else 0) k1" by blast
  note f = fd_file_ready[OF assms(1) d(1,2)]
  let ?k = "cell_retain_open_file (Some i) k" and ?old = "fds (k_domains k ! d) ! nat newfd"
  have n: "nat newfd < MAX_FDS" using d(3,4) by simp
  have b: "refs_bal (\<lambda>_. 0) k" using assms(1) by (simp add: fd_ready_def)
  have lk: "length (k_files ?k) = length (k_files k)" using retain_frame(2)[of k "Some i"] by (simp add: same_here_def)
  have b1: "refs_bal ((\<lambda>_. 0)(i := 0 + 1)) ?k" by (rule refs_bal_retain[OF b]) (use f(5,6,7) in auto)
  have "below (length (k_files ?k)) ?old" using refs_bal_fds[OF b f(1)] n lk by (simp add: list_all_length)
  moreover have "0 < int (refs j ?k) + ((\<lambda>_. 0)(i := 0 + 1)) j" if "?old = Some j" for j
    using refs_pos[OF f(1) _ that] refs_bal_fds(1)[OF b f(1)] n by simp
  ultimately have r: "refs_bal (\<lambda>j. ((\<lambda>_. 0)(i := 0 + 1)) j - held ?old j) k1" "map fds (k_domains k1) = map fds (k_domains k)"
      "same_here ?k k1"
    using refs_bal_release_opt[OF b1 _ _ d(5)] by simp_all
  have h: "same_here k k1" by (rule same_here_trans[OF retain_frame(2) r(3)])
  then have dl: "d < length (k_domains k1)" "below (length (k_files k1)) (Some i)" using f(1,5) by (simp_all add: same_here_def)
  have s: "fds (k_domains k1 ! d) ! nat newfd = ?old" using r(2) dl(1) f(1) by (metis nth_map)
  from refs_bal_set_fd[OF r(1) dl(1) n dl(2)]
  have bal: "refs_bal (\<lambda>j. ((\<lambda>_. 0)(i := 0 + 1)) j - held ?old j + held ?old j - held (Some i) j) k'" unfolding d(6) s .
  from fd_ready_step[OF assms(1) _ bal] show ?thesis unfolding d(6) using same_here_trans[OF h same_here_upd(2)] by (simp add: held_def)
next
  case False
  then have "k' = k" using assms(2) by (auto simp: cell_fd_dup3_def bind_eq_Some_conv not_less split: option.splits if_splits)
  then show ?thesis using assms(1) by simp
qed

text \<open>What an operation does to the tables besides the counts of files.\<close>

definition same_table :: "kernel \<Rightarrow> kernel \<Rightarrow> bool" where
  "same_table k k' \<longleftrightarrow> map fds (k_domains k') = map fds (k_domains k) \<and> same_here k k'"

lemma same_table_trans: "same_table k1 k2 \<Longrightarrow> same_table k2 k3 \<Longrightarrow> same_table k1 k3"
  by (auto simp: same_table_def intro: same_here_trans)

lemma same_table_refs: "same_refs k k' \<Longrightarrow> same_table k k'"
  by (simp add: same_table_def same_here_refs) (simp add: same_refs_def)

lemma same_table_nth: "same_table k k' \<Longrightarrow> d < length (k_domains k) \<Longrightarrow> fds (k_domains k' ! d) = fds (k_domains k ! d)"
  unfolding same_table_def same_here_def by (metis nth_map)

lemma refs_bal_alloc_opt:
  assumes "refs_bal e k" "cell_alloc_open_file k = (fp, k')"
  shows "refs_bal (\<lambda>j. e j + held fp j) k' \<and> below (length (k_files k)) fp \<and> same_table k k'"
proof (cases fp)
  case (Some i)
  then have "refs_bal (e(i := e i + 1)) k'" "i < length (k_files k)" "same_table k k'"
    using refs_bal_alloc[OF assms] by (auto simp: same_table_def)
  then show ?thesis using refs_bal_cong[of "e(i := e i + 1)" k' "\<lambda>j. e j + held fp j"] Some by (simp add: held_def)
next
  case None
  then have "k' = k" using refs_bal_alloc[OF assms] by simp
  then show ?thesis using assms(1) None by (simp add: held_def same_table_def)
qed

lemma refs_bal_release_files:
  assumes "refs_bal (\<lambda>j. e j + sum_list (map (\<lambda>f. held f j) fps)) k" "\<And>j. 0 \<le> e j" "list_all (below (length (k_files k))) fps"
    and "release_files fps k = Some k'"
  shows "refs_bal e k' \<and> same_table k k'"
  using assms(1,3,4)
proof (induction fps arbitrary: k)
  case (Cons fp fps)
  from Cons.prems(3) obtain k1 where k1: "cell_release_open_file fp k = Some k1" "release_files fps k1 = Some k'"
    by (auto simp: bind_eq_Some_conv)
  have nonneg: "0 \<le> sum_list (map (\<lambda>f. held f j) fs)" for j fs by (induction fs) (auto simp: held_def)
  have pos: "0 < int (refs i k) + (e i + sum_list (map (\<lambda>f. held f i) (fp # fps)))" if "fp = Some i" for i
    using assms(2)[of i] nonneg[of i fps] that by (simp add: held_def)
  from refs_bal_release_opt[OF Cons.prems(1) _ pos k1(1)] Cons.prems(2)
  have r: "refs_bal (\<lambda>j. e j + sum_list (map (\<lambda>f. held f j) (fp # fps)) - held fp j) k1" "same_table k k1"
    by (auto simp: same_table_def)
  have "refs_bal (\<lambda>j. e j + sum_list (map (\<lambda>f. held f j) fps)) k1" using refs_bal_cong[OF r(1)] by simp
  moreover have "length (k_files k1) = length (k_files k)" using r(2) by (simp add: same_table_def same_here_def)
  ultimately show ?case using Cons.IH[OF _ _ k1(2)] Cons.prems(2) same_table_trans[OF r(2)] by simp
qed (simp add: same_table_def)

lemma fd_ready_table: "fd_ready k \<Longrightarrow> same_table k k' \<Longrightarrow> refs_bal (\<lambda>_. 0) k' \<Longrightarrow> fd_ready k'"
  using fd_ready_step[of k k' "\<lambda>_. 0"] by (simp add: same_table_def)

lemma set_two_ready:
  assumes "fd_ready k" "same_table k k1" "refs_bal (\<lambda>j. held (Some r) j + held (Some w) j) k1"
    and "d < length (k_domains k)" "rd < MAX_FDS" "wr < MAX_FDS" "rd \<noteq> wr"
    and "fds (k_domains k ! d) ! rd = None" "fds (k_domains k ! d) ! wr = None"
    and "r < length (k_files k)" "w < length (k_files k)"
  shows "fd_ready (set_fd d wr (Some w) fl (set_fd d rd (Some r) fl k1))"
proof -
  let ?k2 = "set_fd d rd (Some r) fl k1" and ?k3 = "set_fd d wr (Some w) fl (set_fd d rd (Some r) fl k1)"
  have l: "length (k_domains k1) = length (k_domains k)" "length (k_files k1) = length (k_files k)"
    using assms(2) by (simp_all add: same_table_def same_here_def)
  have s: "fds (k_domains k1 ! d) = fds (k_domains k ! d)" by (rule same_table_nth[OF assms(2,4)])
  have s2: "fds (k_domains ?k2 ! d) ! wr = None" using assms(4,7,9) s l(1) by (simp add: set_fd_def upd_domain_def)
  have "refs_bal (\<lambda>j. held (Some r) j + held (Some w) j + held None j - held (Some r) j) ?k2"
    using refs_bal_set_fd[OF assms(3) _ assms(5), of d "Some r" fl] assms(4,8,10) l s by simp
  from refs_bal_set_fd[OF this _ assms(6), of d "Some w" fl] s2
  have "refs_bal (\<lambda>j. held (Some r) j + held (Some w) j + held None j - held (Some r) j + held None j - held (Some w) j) ?k3"
    using assms(4,11) l by (simp add: set_fd_def)
  moreover have "same_here k ?k3" using assms(2) same_here_upd(2) same_here_trans unfolding same_table_def by blast
  ultimately show ?thesis using fd_ready_step[OF assms(1)] by (simp add: held_def)
qed

lemma pipe2_ready:
  assumes "fd_ready k" "cell_fd_pipe2 addr flags k = Some (rc, k')"
  shows "fd_ready k'"
proof (cases "flags AND NOT (CELL_O_CLOEXEC OR CELL_O_NONBLOCK) \<noteq> 0 \<or> cell_current_domain k = None")
  case False
  then obtain d where d: "cell_current_domain k = Some d" "flags AND NOT (CELL_O_CLOEXEC OR CELL_O_NONBLOCK) = 0" by auto
  define rd where "rd = cell_find_free_fd (Some d) 0 k"
  define wr where "wr = (if rd < 0 then - 1 else cell_find_free_fd (Some d) (rd + 1) k)"
  obtain id k0 where k0: "cell_alloc_pipe_obj 0 k = (id, k0)" by fastforce
  obtain rf k1 where k1: "cell_alloc_open_file k0 = (rf, k1)" by fastforce
  obtain wf k2 where k2: "cell_alloc_open_file k1 = (wf, k2)" by fastforce
  have b: "refs_bal (\<lambda>_. 0) k" using assms(1) by (simp add: fd_ready_def)
  have s0: "same_refs k k0" by (rule frefs.keeps_alloc_pipe_obj[OF k0])
  have a1: "refs_bal (\<lambda>j. 0 + held rf j) k1" "below (length (k_files k0)) rf" "same_table k0 k1"
    using refs_bal_alloc_opt[OF refs_bal_same[OF s0 b] k1] by simp_all
  have a2: "refs_bal (\<lambda>j. 0 + held rf j + held wf j) k2" "below (length (k_files k1)) wf" "same_table k1 k2"
    using refs_bal_alloc_opt[OF a1(1) k2] by simp_all
  have s2: "same_table k k2" by (rule same_table_trans[OF same_table_trans[OF same_table_refs[OF s0] a1(3)] a2(3)])
  have bl: "below (length (k_files k)) rf" "below (length (k_files k)) wf" "length (k_files k2) = length (k_files k)"
    using a1(2,3) a2(2,3) same_table_refs[OF s0] by (simp_all add: same_table_def same_here_def)
  have drop: "fd_ready q'" if q: "same_table k2 q" "refs_bal (\<lambda>j. 0 + held rf j + held wf j) q" "release_files [rf, wf] q = Some q'" for q q'
  proof -
    have "length (k_files q) = length (k_files k)" using q(1) bl(3) by (simp add: same_table_def same_here_def)
    then have "refs_bal (\<lambda>_. 0) q' \<and> same_table q q'"
      using refs_bal_release_files[of "\<lambda>_. 0" "[rf, wf]" q q'] q(2,3) bl by simp
    then show ?thesis using fd_ready_table[OF assms(1)] same_table_trans[OF same_table_trans[OF s2 q(1)]] by blast
  qed
  define pid where "pid = (word_of_int id :: u8)"
  define k3 where "k3 r w = upd_file w (pipe_end flags pid True) (upd_file r (pipe_end flags pid False)
    (cell_pipe_add_writer pid (cell_pipe_add_reader pid k2)))" for r w
  let ?bs = "le_bytes 4 (nat rd) @ le_bytes 4 (nat wr)" and ?fl = "if flags AND CELL_O_CLOEXEC \<noteq> 0 then 1 else 0"
  consider (none) "k' = k" | (pipe) "k' = k0" | (files) "release_files [rf, wf] k2 = Some k'"
    | (both) r w ok k4 where "rf = Some r" "wf = Some w" "\<not> rd < 0" "\<not> wr < 0" "copy_to_domain (Some d) addr ?bs (k3 r w) = (ok, k4)"
      "if ok then k' = set_fd d (nat wr) wf ?fl (set_fd d (nat rd) rf ?fl k4) else release_files [rf, wf] k4 = Some k'"
    using assms(2) unfolding cell_fd_pipe2_def Let_def d option.case rd_def[symmetric] wr_def[symmetric] k0 prod.case
      pid_def[symmetric] k1 k2 k3_def
    by (auto simp: bind_eq_Some_conv split: if_split_asm option.split_asm prod.split_asm)
  then show ?thesis
  proof cases
    case pipe
    then show ?thesis using fd_ready_table[OF assms(1) same_table_refs[OF s0]] refs_bal_same[OF s0 b] by simp
  next
    case files
    then show ?thesis using drop[of k2 k'] a2(1) by (simp add: same_table_def)
  next
    case (both r w ok k4)
    have f: "file_ref (pipe_end flags pid e f) = file_ref f" for e f by (simp add: file_ref_def pipe_end_def)
    have "same_refs k2 (k3 r w)" unfolding k3_def
      by (rule frefs.keeps_trans[OF frefs.keeps_trans[OF frefs.keeps_trans[OF frefs.keeps_add(1) frefs.keeps_add(2)]
            same_refs_file[OF f]] same_refs_file[OF f]])
    then have s4: "same_refs k2 k4" using frefs.keeps_trans frefs.keeps_copy_to_domain[OF both(5)] by blast
    have b4: "refs_bal (\<lambda>j. 0 + held rf j + held wf j) k4" by (rule refs_bal_same[OF s4 a2(1)])
    have t4: "same_table k k4" by (rule same_table_trans[OF s2 same_table_refs[OF s4]])
    show ?thesis
    proof (cases ok)
      case False
      then show ?thesis using both(6) drop[OF same_table_refs[OF s4] b4] by simp
    next
      case True
      note r = free_fd[OF rd_def[symmetric] both(3)]
      have "cell_find_free_fd (Some d) (rd + 1) k = wr" using both(3) by (simp add: wr_def)
      note w = free_fd[OF this both(4)]
      have dl: "d < length (k_domains k)" using assms(1) d(1) by (simp add: fd_ready_def)
      have "nat rd \<noteq> nat wr" using w(3) both(3) by linarith
      from set_two_ready[OF assms(1) t4 _ dl r(1) w(1) this r(2) w(2)] b4 both(1,2,6) True bl show ?thesis by simp
    qed
  qed (use assms(1) in simp)
qed (use assms in \<open>auto simp: cell_fd_pipe2_def split: option.splits if_splits\<close>)

end
