(* ===== verification/Kfd_Properties.thy ===== *)
theory Kfd_Properties
  imports Kfd_Refs Kdemo
begin

text \<open>
  Properties of descriptors: reference counts are exact, event counters never wrap around, and an epoll file can be
  made to watch itself.
\<close>

subsection \<open>Reference counts\<close>




definition demo_open :: kernel where
  "demo_open = demo_kernel [(demo_domain 1 0)\<lparr>fds := (replicate MAX_FDS None)[0 := Some 0]\<rparr>] [demo_thread 0 THREAD_RUNNABLE 0]
     [zero_file\<lparr>of_used := True, of_refcount := 1, of_type := OPEN_EPOLL\<rparr>, zero_file] []"

lemma demo_open_current: "cell_current_thread demo_open = Some 0" "cell_current_domain demo_open = Some 0"
  by (simp_all add: demo_open_def cell_current_domain_def cell_current_thread_def smp_current_thread_slot_def)




subsection \<open>Event counters\<close>

definition same_files :: "kernel \<Rightarrow> kernel \<Rightarrow> bool" where
  "same_files k k' \<longleftrightarrow> k_files k' = k_files k"

interpretation ffiles: wake_frame same_files
  by unfold_locales (auto simp: same_files_def note_fault_def split: option.splits)

lemma add_below_max:
  fixes v a :: u64
  assumes "a < - 1 - v"
  shows "unat (v + a) = unat v + unat a" "unat v + unat a < 2 ^ 64 - 1"
proof -
  have "unat (- 1 - v) = 2 ^ 64 - 1 - unat v"
    using unat_sub[of v "- 1"] by (simp add: word_order.extremum unsigned_minus_1_eq_mask mask_eq_exp_minus_1)
  then show m: "unat v + unat a < 2 ^ 64 - 1" using assms by (simp add: word_less_nat_alt)
  then show "unat (v + a) = unat v + unat a" by (intro unat_add_lem[THEN iffD1]) simp
qed

text \<open>
  C35. An event counter never wraps around. A write either adds the 64-bit number it reads from memory, the counter
  staying below its maximum, and returns 8, or changes nothing; a read takes the whole counter, or 1 in semaphore
  mode, never more than it holds.
\<close>

theorem eventfd_bounds:
  assumes "i < length (k_files k)"
  shows "(\<forall>rc k'. cell_eventfd_write_from_domain dp i buf len k = Some (rc, k') \<longrightarrow>
      (rc = 8 \<and> (\<exists>bs. copy_from_domain dp buf 8 k = Some bs \<and>
         unat (of_eventfd_value (k_files k' ! i)) = unat (of_eventfd_value (k_files k ! i)) + unat (of_nat (bytes_nat bs) :: u64) \<and>
         unat (of_eventfd_value (k_files k' ! i)) < 2 ^ 64 - 1) \<or>
       rc \<in> {- EINVAL, - EFAULT, - EAGAIN} \<and> k' = k)) \<and>
    (\<forall>rc k'. cell_eventfd_read_to_domain dp i buf len k = Some (rc, k') \<longrightarrow>
      unat (of_eventfd_value (k_files k' ! i)) \<in>
        {unat (of_eventfd_value (k_files k ! i)), if of_eventfd_semaphore (k_files k ! i) then unat (of_eventfd_value (k_files k ! i)) - 1 else 0})"
proof (intro conjI allI impI)
  fix rc k' assume w: "cell_eventfd_write_from_domain dp i buf len k = Some (rc, k')"
  let ?v = "of_eventfd_value (k_files k ! i)"
  show "rc = 8 \<and> (\<exists>bs. copy_from_domain dp buf 8 k = Some bs \<and>
      unat (of_eventfd_value (k_files k' ! i)) = unat ?v + unat (of_nat (bytes_nat bs) :: u64) \<and>
      unat (of_eventfd_value (k_files k' ! i)) < 2 ^ 64 - 1) \<or> rc \<in> {- EINVAL, - EFAULT, - EAGAIN} \<and> k' = k"
  proof (cases "k' = k \<and> rc \<in> {- EINVAL, - EFAULT, - EAGAIN}")
    case False
    then obtain bs where bs: "copy_from_domain dp buf 8 k = Some bs" "\<not> - 1 - ?v \<le> (of_nat (bytes_nat bs) :: u64)" "rc = 8"
        "wake_poll_waiters (upd_file i (\<lambda>f. f\<lparr>of_eventfd_value := of_eventfd_value f + of_nat (bytes_nat bs)\<rparr>) k) = Some k'"
      using w by (auto simp: cell_eventfd_write_from_domain_def Let_def bind_eq_Some_conv split: if_splits option.splits)
    from ffiles.keeps_wake_poll_waiters[OF bs(4)] have "of_eventfd_value (k_files k' ! i) = ?v + of_nat (bytes_nat bs)"
      using assms by (simp add: same_files_def nth_upd)
    then show ?thesis using add_below_max[of "of_nat (bytes_nat bs)" ?v] bs by (simp add: not_le)
  qed simp
next
  fix rc k' assume r: "cell_eventfd_read_to_domain dp i buf len k = Some (rc, k')"
  let ?f = "k_files k ! i"
  let ?v = "of_eventfd_value ?f" and ?a = "if of_eventfd_semaphore ?f then 1 else of_eventfd_value ?f"
  have "unat (?v - ?a) = (if of_eventfd_semaphore ?f then unat ?v - 1 else 0)" if "?v \<noteq> 0"
    using unat_minus_one[OF that] by simp
  moreover have "of_eventfd_value (k_files k' ! i) \<in> {?v, ?v - ?a} \<and> (?v = 0 \<longrightarrow> k' = k)"
  proof (cases "len < 8 \<or> ?v = 0")
    case False
    define k1 where "k1 = upd_file i (\<lambda>f. f\<lparr>of_eventfd_value := of_eventfd_value f - ?a\<rparr>) k"
    obtain ok k2 where c: "copy_to_domain dp buf (le_bytes 8 (unat ?a)) k1 = (ok, k2)" by fastforce
    have "same_files k1 k2" by (rule ffiles.keeps_copy_to_domain[OF c])
    moreover have "same_files k2 k'" using r False c
      by (auto simp: cell_eventfd_read_to_domain_def Let_def k1_def[symmetric] bind_eq_Some_conv ffiles.keeps_refl
          split: if_splits dest: ffiles.keeps_wake_poll_waiters)
    ultimately show ?thesis using assms False by (simp add: same_files_def k1_def nth_upd)
  qed (use r in \<open>auto simp: cell_eventfd_read_to_domain_def Let_def split: if_splits\<close>)
  ultimately show "unat (of_eventfd_value (k_files k' ! i)) \<in> {unat ?v, if of_eventfd_semaphore ?f then unat ?v - 1 else 0}"
    by (cases "?v = 0") auto
qed

definition demo_event :: kernel where
  "demo_event = demo_kernel [] [] [zero_file\<lparr>of_type := OPEN_EVENTFD, of_eventfd_value := 5, of_eventfd_semaphore := True\<rparr>] []"

theorem eventfd_bounds_witness:
  "\<exists>k'. cell_eventfd_read_to_domain None 0 0 8 demo_event = Some (- EFAULT, k') \<and>
    unat (of_eventfd_value (k_files k' ! 0)) \<in> {5, 4}"
proof -
  have r: "\<exists>k'. cell_eventfd_read_to_domain None 0 0 8 demo_event = Some (- EFAULT, k')"
    by (simp add: cell_eventfd_read_to_domain_def Let_def copy_to_domain_def cell_domain_as_def demo_event_def
        domain_mm_def le_bytes_def)
  have "0 < length (k_files demo_event)" by (simp add: demo_event_def)
  from eventfd_bounds[OF this, of None 0 8] r show ?thesis by (auto simp: demo_event_def)
qed

subsection \<open>Epoll files\<close>

lemma epoll_conditions: "of_type (k_files k ! i) = OPEN_EPOLL \<Longrightarrow> poll_conditions i k = (0, k)"
  by (simp add: poll_conditions_def Let_def raise_if_def)

lemma self_watch_never_ready:
  assumes "fd_file dp fd k = Some i" "of_type (k_files k ! i) = OPEN_EPOLL" "of_epoll_watches (k_files k ! i) = w # ws"
    and "ew_used w" "ew_fd w = fd" "ew_events w AND CELL_POLLIN \<noteq> 0" "events AND CELL_POLLIN \<noteq> 0"
  shows "poll_events_depth n dp fd events k = None"
  using assms(7)
proof (induction n arbitrary: events)
  case (Suc n)
  have "any_ready (poll_events_depth n dp) (w # ws) k = None" using Suc.IH[OF assms(6)] assms(4,5) by simp
  then show ?case using Suc.prems assms(1-3) by (simp add: epoll_conditions)
qed simp

text \<open>
  C36. An epoll file can be made to watch itself, and then asking whether it is readable does not return.
  \<^verbatim>\<open>cell_fd_epoll_ctl\<close> accepts an epoll file without watches as its own first watch; afterwards the recursion over
  watches has no result at any depth.
\<close>

theorem epoll_watches_itself:
  assumes "cell_current_domain k = Some d" "fd_file (Some d) ep k = Some i" "i < length (k_files k)"
    and "of_type (k_files k ! i) = OPEN_EPOLL" "of_epoll_watches (k_files k ! i) = replicate CELL_EPOLL_WATCH_CAP zero_epoll_watch"
  shows "fst (cell_fd_epoll_ctl ep EPOLL_CTL_ADD ep CELL_POLLIN data k) = 0 \<and>
    (\<forall>n. poll_events_depth n (Some d) ep CELL_POLLIN (snd (cell_fd_epoll_ctl ep EPOLL_CTL_ADD ep CELL_POLLIN data k)) = None)"
proof -
  let ?w = "\<lparr>ew_used = True, ew_fd = ep, ew_events = CELL_POLLIN, ew_data = data\<rparr>"
  let ?ws = "replicate CELL_EPOLL_WATCH_CAP zero_epoll_watch"
  define k' where "k' = upd_file i (\<lambda>f. f\<lparr>of_epoll_watches := ?ws[0 := ?w]\<rparr>) k"
  have z: "find (\<lambda>j. ew_used (?ws ! j) \<and> ew_fd (?ws ! j) = ep) [0..<length ?ws] = None"
    by (auto simp: find_None_iff zero_epoll_watch_def)
  have f: "find (\<lambda>j. \<not> ew_used (?ws ! j)) [0..<length ?ws] = Some 0"
    by (auto simp: find_Some_iff zero_epoll_watch_def CELL_EPOLL_WATCH_CAP_def intro!: exI[of _ 0])
  have c: "cell_fd_epoll_ctl ep EPOLL_CTL_ADD ep CELL_POLLIN data k = (0, k')"
    unfolding cell_fd_epoll_ctl_def Let_def assms(1,2) using assms(4) z f
    by (simp add: assms(5) k'_def EPOLL_CTL_ADD_def EPOLL_CTL_DEL_def EPOLL_CTL_MOD_def)
  have "fd_file (Some d) ep k' = Some i" using assms(2) by (simp add: fd_file_def k'_def split: if_splits)
  moreover have "of_type (k_files k' ! i) = OPEN_EPOLL" using assms(3,4) by (simp add: k'_def nth_upd)
  moreover have "of_epoll_watches (k_files k' ! i) = ?w # replicate 15 zero_epoll_watch"
    using assms(3) by (simp add: k'_def nth_upd CELL_EPOLL_WATCH_CAP_def numeral_eq_Suc)
  ultimately have "poll_events_depth n (Some d) ep CELL_POLLIN k' = None" for n
    by (rule self_watch_never_ready) (simp_all add: CELL_POLLIN_def)
  then show ?thesis by (simp add: c)
qed

theorem epoll_watches_itself_witness:
  "poll_events_depth 5 (Some 0) 0 CELL_POLLIN (snd (cell_fd_epoll_ctl 0 EPOLL_CTL_ADD 0 CELL_POLLIN 7 demo_open)) = None"
proof -
  have "fd_file (Some 0) 0 demo_open = Some 0" by (simp add: fd_file_def demo_open_def MAX_FDS_def)
  from epoll_watches_itself[OF demo_open_current(2) this] show ?thesis by (simp add: demo_open_def zero_file_def)
qed

end
