(* ===== verification/Kpipe_Bounds.thy ===== *)
theory Kpipe_Bounds
  imports Kdestroy Kdemo
begin

text \<open>
  The ring of a pipe stays within its sixteen pages, whatever transfers and notifications happen.
\<close>

subsection \<open>Bounds of the ring\<close>

definition pipe_ok :: "pipe_obj \<Rightarrow> bool" where
  "pipe_ok p \<longleftrightarrow> p_head p < PIPE_CAP \<and> p_len p \<le> PIPE_CAP"

definition pipes_ok :: "kernel \<Rightarrow> bool" where
  "pipes_ok k \<longleftrightarrow> list_all pipe_ok (k_pipes k)"

lemma pipes_ok_same: "same_pipes k k' \<Longrightarrow> pipes_ok k \<Longrightarrow> pipes_ok k'"
  by (simp add: same_pipes_def pipes_ok_def)

lemma pipes_ok_upd: "pipes_ok k \<Longrightarrow> (i < length (k_pipes k) \<Longrightarrow> pipe_ok (g (k_pipes k ! i))) \<Longrightarrow> pipes_ok (upd_pipe i g k)"
  by (cases "i < length (k_pipes k)") (auto simp: pipes_ok_def upd_pipe_def list_all_length nth_list_update list_update_beyond not_less)

lemma pipes_ok_frame [simp]: "pipes_ok (set_machine m k) = pipes_ok k" "pipes_ok (note_call c k) = pipes_ok k"
  by (simp_all add: pipes_ok_def)

lemma pipes_ok_nth: "pipes_ok k \<Longrightarrow> i < length (k_pipes k) \<Longrightarrow> pipe_ok (k_pipes k ! i)"
  by (simp add: pipes_ok_def list_all_length)

lemma pipe_for_id_less: "pipe_for_id p k = Some i \<Longrightarrow> i < length (k_pipes k)"
  by (auto simp: pipe_for_id_def split: if_splits)

lemma mod_cap: "x mod PIPE_CAP < PIPE_CAP"
  by (rule mod_less_word) (simp add: PIPE_CAP_def)

text \<open>Room and length as words: subtracting a part of the length or adding a part of the room does not wrap.\<close>

lemma add_room:
  fixes l r c :: u64
  assumes "l \<le> PIPE_CAP" "r \<le> PIPE_CAP - l" "c \<le> r"
  shows "l + c \<le> PIPE_CAP" "r - c \<le> PIPE_CAP - (l + c)"
proof -
  have u: "unat (PIPE_CAP - l) = 65536 - unat l" using unat_sub[OF assms(1)] by (simp add: PIPE_CAP_def)
  have r: "unat l + unat c \<le> 65536" "unat c \<le> unat r" "unat r \<le> 65536 - unat l" "unat l \<le> 65536"
    using assms u by (auto simp: word_le_nat_alt PIPE_CAP_def)
  have a: "unat (l + c) = unat l + unat c" by (rule unat_add_lem[THEN iffD1]) (use r(1) in simp)
  show l: "l + c \<le> PIPE_CAP" using a r(1) by (simp add: word_le_nat_alt PIPE_CAP_def)
  have "unat (PIPE_CAP - (l + c)) = 65536 - (unat l + unat c)" using unat_sub[OF l] a by (simp add: PIPE_CAP_def)
  moreover have "unat (r - c) = unat r - unat c" by (rule unat_sub) (rule assms(3))
  ultimately show "r - c \<le> PIPE_CAP - (l + c)" using r by (simp add: word_le_nat_alt)
qed

lemma sub_len:
  fixes l r c :: u64
  assumes "r \<le> l" "c \<le> r"
  shows "l - c \<le> l" "r - c \<le> l - c"
proof -
  have c: "c \<le> l" using assms by simp
  show "l - c \<le> l" using unat_sub[OF c] by (simp add: word_le_nat_alt)
  show "r - c \<le> l - c" using unat_sub[OF c] unat_sub[OF assms(2)] assms by (simp add: word_le_nat_alt)
qed

lemma write_loop_ok:
  "pipe_write_loop dp i va left k = (r, k') \<Longrightarrow> pipes_ok k \<Longrightarrow> i < length (k_pipes k) \<Longrightarrow>
    left \<le> PIPE_CAP - p_len (k_pipes k ! i) \<Longrightarrow> pipes_ok k' \<and> length (k_pipes k') = length (k_pipes k)"
proof (induction rule: pipe_write_loop_induct)
  case (step va left k tail chunk dst bs r k')
  let ?p = "k_pipes k ! i"
  have c: "chunk \<le> left" using write_chunk_pos[of left ?p] step.hyps(1,2) by (simp add: word_neq_0_conv)
  note p = pipes_ok_nth[OF step.prems(1,2), unfolded pipe_ok_def]
  note a = add_room[OF p[THEN conjunct2] step.prems(3) c]
  show ?case using step.IH a p step.prems(1,2) by (simp add: pipes_ok_upd pipe_ok_def nth_upd)
qed simp_all

lemma read_loop_ok:
  "pipe_read_loop dp i va left k = (r, k') \<Longrightarrow> pipes_ok k \<Longrightarrow> i < length (k_pipes k) \<Longrightarrow>
    left \<le> p_len (k_pipes k ! i) \<Longrightarrow> pipes_ok k' \<and> length (k_pipes k') = length (k_pipes k)"
proof (induction rule: pipe_read_loop_induct)
  case (fault va left k src k1)
  from still.keeps_copy_to_domain[OF fault.hyps(3)] fault.prems show ?case by (simp add: same_pipes_def pipes_ok_def)
next
  case (step va left k src k1 chunk r k')
  let ?p = "k_pipes k ! i"
  have s: "k_pipes k1 = k_pipes k" using still.keeps_copy_to_domain[OF step.hyps(4)] by (simp add: same_pipes_def)
  have "p_head ?p < PIPE_CAP" using step.hyps(3) by (auto simp: pipe_data_ptr_def not_le split: if_splits)
  then have c: "chunk \<le> left" using read_chunk_pos[of left ?p] step.hyps(1,2) by (simp add: word_neq_0_conv)
  note p = pipes_ok_nth[OF step.prems(1,2), unfolded pipe_ok_def]
  note a = sub_len[OF step.prems(3) c]
  have "pipes_ok k1" using step.prems(1) s by (simp add: pipes_ok_def)
  moreover have "p_len ?p - chunk \<le> PIPE_CAP" using order_trans[OF a(1)] p by blast
  ultimately show ?case using step.IH a(2) step.prems(2) s by (simp add: pipes_ok_upd pipe_ok_def nth_upd mod_cap)
qed simp_all

lemma pipe_write_id_ok:
  assumes n: "\<And>k k'. notify k = Some k' \<Longrightarrow> pipes_ok k \<Longrightarrow> pipes_ok k'"
    and w: "pipe_write_id notify dp pid buf len k = Some (r, k')" and k: "pipes_ok k"
  shows "pipes_ok k'"
proof (cases "k' = k")
  case False
  with w obtain i where i: "pipe_for_id pid k = Some i" "len \<noteq> 0"
    by (auto simp: pipe_write_id_def split: if_splits option.splits)
  define room where "room = PIPE_CAP - p_len (k_pipes k ! i)"
  define target where "target = (if len < room then len else room)"
  obtain ok1 k1 where k1: "cell_domain_ensure_user_range dp buf (unat target) VMM_ACCESS_READ k = (ok1, k1)" by fastforce
  obtain ok2 k2 where k2: "pipe_write_loop dp i buf target k1 = (ok2, k2)" by fastforce
  have s: "k_pipes k1 = k_pipes k" using still.keeps_ensure_user_range[OF k1] by (simp add: same_pipes_def)
  have "target \<le> PIPE_CAP - p_len (k_pipes k1 ! i)" by (simp add: target_def s less_imp_le flip: room_def)
  then have o2: "pipes_ok k2" "length (k_pipes k2) = length (k_pipes k)"
    using write_loop_ok[OF k2] k pipe_for_id_less[OF i(1)] s by (auto simp: pipes_ok_def)
  have "k' = k1 \<or> k' = k2 \<or> notify (upd_pipe i (\<lambda>p. p\<lparr>p_write_offset := p_write_offset p + target\<rparr>) k2) = Some k'"
  proof -
    have "pipe_write_id notify dp pid buf len k = (if p_readers (k_pipes k ! i) = 0 then Some (- EPIPE, k)
        else if room = 0 \<or> len \<le> PIPE_BUF \<and> room < len then Some (- EAGAIN, k)
        else if \<not> ok1 then Some (- EFAULT, k1) else if \<not> ok2 then Some (- EFAULT, k2)
        else notify (upd_pipe i (\<lambda>p. p\<lparr>p_write_offset := p_write_offset p + target\<rparr>) k2) \<bind> (\<lambda>k. Some (uint target, k)))"
      unfolding pipe_write_id_def i(1) option.case Let_def room_def[symmetric] target_def[symmetric] k1 prod.case k2
      using i(2) by simp
    from w[unfolded this] show ?thesis using False by (auto simp: bind_eq_Some_conv split: if_split_asm)
  qed
  moreover have "pipes_ok (upd_pipe i (\<lambda>p. p\<lparr>p_write_offset := p_write_offset p + target\<rparr>) k2)"
    using o2 pipes_ok_nth[OF o2(1)] by (intro pipes_ok_upd) (simp_all add: pipe_ok_def)
  ultimately show ?thesis using n o2 k s by (auto simp: pipes_ok_def)
qed (use k in simp)

lemma pipe_read_id_ok:
  assumes n: "\<And>k k'. notify k = Some k' \<Longrightarrow> pipes_ok k \<Longrightarrow> pipes_ok k'"
    and r: "pipe_read_id notify dp pid buf len k = Some (r, k')" and k: "pipes_ok k"
  shows "pipes_ok k'"
proof (cases "k' = k")
  case False
  with r obtain i where i: "pipe_for_id pid k = Some i" "len \<noteq> 0"
    by (auto simp: pipe_read_id_def split: if_splits option.splits)
  define target where "target = (if len < p_len (k_pipes k ! i) then len else p_len (k_pipes k ! i))"
  obtain ok1 k1 where k1: "(if target \<noteq> 0 then cell_domain_ensure_user_range dp buf (unat target) VMM_ACCESS_WRITE k else (True, k)) = (ok1, k1)"
    by fastforce
  obtain ok2 k2 where k2: "pipe_read_loop dp i buf target k1 = (ok2, k2)" by fastforce
  have s: "k_pipes k1 = k_pipes k" using still.keeps_ensure_user_range[of dp buf "unat target" VMM_ACCESS_WRITE k] k1
    by (auto simp: same_pipes_def split: if_splits)
  have "target \<le> p_len (k_pipes k1 ! i)" by (simp add: target_def s less_imp_le)
  then have o2: "pipes_ok k2" "length (k_pipes k2) = length (k_pipes k)"
    using read_loop_ok[OF k2] k pipe_for_id_less[OF i(1)] s by (auto simp: pipes_ok_def)
  have "k' = k1 \<or> k' = k2 \<or> notify (upd_pipe i (\<lambda>p. p\<lparr>p_read_offset := p_read_offset p + target\<rparr>) k2) = Some k'"
  proof -
    have "pipe_read_id notify dp pid buf len k = (if \<not> ok1 then Some (- EFAULT, k1) else if \<not> ok2 then Some (- EFAULT, k2)
        else if target \<noteq> 0 then notify (upd_pipe i (\<lambda>p. p\<lparr>p_read_offset := p_read_offset p + target\<rparr>) k2) \<bind>
          (\<lambda>k. Some (uint target, k))
        else Some (if p_writers (k_pipes k2 ! i) = 0 \<and> (p_fifo_ino (k_pipes k2 ! i) = 0 \<or> p_had_writer (k_pipes k2 ! i))
          then 0 else - EAGAIN, k2))"
      unfolding pipe_read_id_def i(1) option.case Let_def target_def[symmetric] k1 prod.case k2 using i(2) by simp
    from r[unfolded this] show ?thesis by (auto simp: bind_eq_Some_conv split: if_split_asm)
  qed
  moreover have "pipes_ok (upd_pipe i (\<lambda>p. p\<lparr>p_read_offset := p_read_offset p + target\<rparr>) k2)"
    using o2 pipes_ok_nth[OF o2(1)] by (intro pipes_ok_upd) (simp_all add: pipe_ok_def)
  ultimately show ?thesis using n o2 k s by (auto simp: pipes_ok_def)
qed (use k in simp)

lemma pipes_ok_wake_poll: "wake_poll_waiters k = Some k' \<Longrightarrow> pipes_ok k \<Longrightarrow> pipes_ok k'"
  using still.keeps_wake_poll_waiters pipes_ok_same by blast

lemma pipes_ok_retry:
  assumes "retry_transfer th f k = Some (r, k')" "pipes_ok k"
  shows "pipes_ok k'"
proof -
  have w: "pipe_write_id wake_poll_waiters dp p b n q = Some (rc, q') \<Longrightarrow> pipes_ok q \<Longrightarrow> pipes_ok q'" for dp p b n q rc q'
    by (rule pipe_write_id_ok[OF pipes_ok_wake_poll])
  have rd: "pipe_read_id wake_poll_waiters dp p b n q = Some (rc, q') \<Longrightarrow> pipes_ok q \<Longrightarrow> pipes_ok q'" for dp p b n q rc q'
    by (rule pipe_read_id_ok[OF pipes_ok_wake_poll])
  show ?thesis using assms by (auto simp: retry_transfer_def split: if_splits dest: w rd)
qed

lemma pipes_ok_wake_pipe_waiter: "wake_pipe_waiter t k = Some k' \<Longrightarrow> pipes_ok k \<Longrightarrow> pipes_ok k'"
  by (auto simp: wake_pipe_waiter_def Let_def pipes_ok_def bind_eq_Some_conv split: if_splits option.splits
      dest!: pipes_ok_retry[unfolded pipes_ok_def])

lemma pipes_ok_notify:
  assumes "cell_pipe_notify k = Some k'" "pipes_ok k"
  shows "pipes_ok k'"
proof -
  have each: "each_index wake_pipe_waiter ts q = Some q' \<Longrightarrow> pipes_ok q \<Longrightarrow> pipes_ok q'" for ts q q'
    by (induction ts arbitrary: q) (auto simp: bind_eq_Some_conv dest: pipes_ok_wake_pipe_waiter)
  obtain k1 where k1: "wake_pipe_waiters k = Some k1" "wake_poll_waiters k1 = Some k'"
    using assms(1) by (auto simp: cell_pipe_notify_def bind_eq_Some_conv)
  have "pipes_ok k1" using k1(1) assms(2) each[of _ "k\<lparr>k_pipe_waking := True\<rparr>"]
    by (auto simp: wake_pipe_waiters_def bind_eq_Some_conv pipes_ok_def split: if_splits)
  then show ?thesis using pipes_ok_wake_poll[OF k1(2)] by simp
qed

subsection \<open>Every operation keeps the bounds\<close>

text \<open>The operations on pipes.\<close>

inductive pipe_step :: "kernel \<Rightarrow> kernel \<Rightarrow> bool" where
  "cell_pipe_write_id_from_domain dp pid buf len k = Some (r, k') \<Longrightarrow> pipe_step k k'"
| "cell_pipe_read_id_to_domain dp pid buf len k = Some (r, k') \<Longrightarrow> pipe_step k k'"
| "cell_alloc_pipe_obj fifo k = (i, k') \<Longrightarrow> pipe_step k k'"
| "pipe_step k (cell_pipe_add_reader pid k)"
| "pipe_step k (cell_pipe_add_writer pid k)"
| "pipe_step k (cell_pipe_drop_reader pid k)"
| "pipe_step k (cell_pipe_drop_writer pid k)"
| "cell_pipe_release_file f k = (b, k') \<Longrightarrow> pipe_step k k'"
| "pipe_step k (cell_pipe_free pid k)"
| "cell_pipe_notify k = Some k' \<Longrightarrow> pipe_step k k'"

lemma pipe_ok_zero: "pipe_ok zero_pipe"
  by (simp add: pipe_ok_def zero_pipe_def PIPE_CAP_def)

lemma pipes_ok_field:
  assumes "pipes_ok k" "\<And>p. p_head (g p) = p_head p" "\<And>p. p_len (g p) = p_len p"
  shows "pipes_ok (upd_pipe i g k)"
  using assms pipes_ok_nth[OF assms(1)] by (intro pipes_ok_upd) (simp_all add: pipe_ok_def)

lemma pipes_ok_free_storage: "pipes_ok k \<Longrightarrow> pipes_ok (pipe_free_storage i k)"
  unfolding pipe_free_storage_def by (rule pipes_ok_field) simp_all

lemma pipes_ok_destroy: "pipes_ok k \<Longrightarrow> pipes_ok (pipe_destroy i k)"
  unfolding pipe_destroy_def by (rule pipes_ok_upd) (simp_all add: pipe_ok_zero pipes_ok_free_storage)

lemma pipes_ok_reap:
  assumes "pipes_ok k" "\<And>p. p_head (g p) = p_head p" "\<And>p. p_len (g p) = p_len p"
  shows "pipes_ok (pipe_reap i (upd_pipe i g k))"
  using pipes_ok_field[OF assms, of i] pipes_ok_destroy by (simp add: pipe_reap_def)

lemma dec_frame [simp]:
  "p_head (dec_readers p) = p_head p" "p_len (dec_readers p) = p_len p"
  "p_head (dec_writers p) = p_head p" "p_len (dec_writers p) = p_len p"
  by (simp_all add: dec_readers_def dec_writers_def)

lemma pipes_ok_alloc_pages: "alloc_pages js i k = (ok, k') \<Longrightarrow> pipes_ok k \<Longrightarrow> pipes_ok k'"
proof (induction js arbitrary: k)
  case (Cons j js)
  obtain m pa where m: "pmm_alloc_zero_page (k_machine k) = (m, pa)" by fastforce
  define k1 where "k1 = upd_pipe i (\<lambda>p. p\<lparr>p_pages := (p_pages p)[j := pa]\<rparr>) (set_machine m k)"
  have "pipes_ok k1" unfolding k1_def using Cons.prems(2) by (intro pipes_ok_field) simp_all
  then show ?case using Cons.prems(1) m Cons.IH[of k1] pipes_ok_free_storage[of k1 i] by (simp add: k1_def[symmetric] split: if_splits)
qed simp

lemma pipes_ok_alloc:
  assumes "cell_alloc_pipe_obj fifo k = (r, k')" "pipes_ok k"
  shows "pipes_ok k'"
proof (cases "find (\<lambda>i. \<not> p_used (k_pipes k ! i)) [0..<length (k_pipes k)]")
  case (Some i)
  obtain ok k1 where k1: "pipe_alloc_storage i (upd_pipe i (\<lambda>_. zero_pipe) k) = (ok, k1)" by fastforce
  have "pipes_ok (upd_pipe i (\<lambda>_. zero_pipe) k)" using assms(2) by (intro pipes_ok_upd) (simp_all add: pipe_ok_zero)
  then have "pipes_ok k1" using pipes_ok_alloc_pages k1[unfolded pipe_alloc_storage_def] by blast
  then show ?thesis using assms(1) Some k1 by (auto simp: cell_alloc_pipe_obj_def intro!: pipes_ok_field split: if_splits)
qed (use assms in \<open>simp add: cell_alloc_pipe_obj_def\<close>)

lemma pipes_ok_transfer:
  "cell_pipe_write_id_from_domain dp pid buf len k = Some (r, k') \<Longrightarrow> pipes_ok k \<Longrightarrow> pipes_ok k'"
  "cell_pipe_read_id_to_domain dp pid buf len k = Some (r, k') \<Longrightarrow> pipes_ok k \<Longrightarrow> pipes_ok k'"
  unfolding cell_pipe_write_id_from_domain_def cell_pipe_read_id_to_domain_def
  by (rule pipe_write_id_ok[OF pipes_ok_notify], assumption+) (rule pipe_read_id_ok[OF pipes_ok_notify])

lemma pipe_step_ok:
  assumes "pipe_step k k'" "pipes_ok k"
  shows "pipes_ok k'"
  using assms
proof cases
  case 1 then show ?thesis using pipes_ok_transfer(1) assms(2) by blast
next
  case 2 then show ?thesis using pipes_ok_transfer(2) assms(2) by blast
next
  case 3 then show ?thesis using pipes_ok_alloc assms(2) by blast
next
  case 10 then show ?thesis using pipes_ok_notify assms(2) by blast
qed (use assms(2) in \<open>auto simp: cell_pipe_add_reader_def cell_pipe_add_writer_def cell_pipe_drop_reader_def
    cell_pipe_drop_writer_def cell_pipe_release_file_def cell_pipe_free_def
    intro!: pipes_ok_field pipes_ok_reap pipes_ok_destroy split: option.splits if_splits\<close>)

text \<open>
  C37. The ring of every pipe stays within its 65536 bytes. After any sequence of transfers, notifications and
  other operations on pipes, the first byte lies in the ring and it holds at most its size, so that no
  transfer leaves the pages of a pipe; every transfer that a woken reader or writer makes is included.
\<close>

theorem pipe_ring_bounds:
  assumes "pipe_step\<^sup>*\<^sup>* k k'" "pipes_ok k" "i < length (k_pipes k')"
  shows "p_head (k_pipes k' ! i) < 65536 \<and> p_len (k_pipes k' ! i) \<le> 65536"
proof -
  have "pipes_ok k'" using assms(1,2) by (induction rule: rtranclp_induct) (auto dest: pipe_step_ok)
  from pipes_ok_nth[OF this assms(3)] show ?thesis by (simp add: pipe_ok_def PIPE_CAP_def)
qed

theorem pipe_ring_bounds_witness:
  "let k = cell_pipe_add_reader 0 (demo_kernel [] [] [] [zero_pipe\<lparr>p_used := True, p_head := 65535, p_len := 65536\<rparr>])
   in p_head (k_pipes k ! 0) < 65536 \<and> p_len (k_pipes k ! 0) \<le> 65536"
proof -
  let ?k = "demo_kernel [] [] [] [zero_pipe\<lparr>p_used := True, p_head := 65535, p_len := 65536\<rparr>]"
  have "pipes_ok ?k" by (simp add: pipes_ok_def pipe_ok_def PIPE_CAP_def)
  moreover have "length (k_pipes (cell_pipe_add_reader pid k)) = length (k_pipes k)" for pid k
    by (simp add: cell_pipe_add_reader_def split: option.split)
  then have "0 < length (k_pipes (cell_pipe_add_reader 0 ?k))" by simp
  moreover have "pipe_step\<^sup>*\<^sup>* ?k (cell_pipe_add_reader 0 ?k)" by (rule r_into_rtranclp) (rule pipe_step.intros(4))
  ultimately show ?thesis unfolding Let_def by (intro pipe_ring_bounds)
qed

end
