(* ===== verification/Kpipe_Apart.thy ===== *)
theory Kpipe_Apart
  imports Kpipe_Bounds Vmm_Properties
begin

text \<open>
  Pages the kernel keeps for itself next to an address space: writing them changes nothing the process sees, and copies
  to the process leave them as they are.
\<close>

abbreviation frame_of :: "user_address_space \<Rightarrow> u64 \<Rightarrow> machine \<Rightarrow> u64" where
  "frame_of as v m \<equiv> pte m (root_pa as) v AND PTE_ADDR_MASK"

text \<open>
  The pages \<open>Q\<close> are in use and are neither tables of the address space nor mapped in it; the frames mapped
  are in use and no tables.
\<close>

definition apart :: "user_address_space \<Rightarrow> u64 set \<Rightarrow> machine \<Rightarrow> bool" where
  "apart as Q m \<longleftrightarrow> pt_wf m (root_pa as) \<and>
     (\<forall>q \<in> Q. mrefs m q \<noteq> 0 \<and> \<not> is_table m (root_pa as) q) \<and>
     (\<forall>v. bit (pte m (root_pa as) v) 0 \<longrightarrow>
        mrefs m (frame_of as v m) \<noteq> 0 \<and> \<not> is_table m (root_pa as) (frame_of as v m) \<and> frame_of as v m \<notin> Q)"

text \<open>The byte a process reads at an address.\<close>

definition user_byte :: "user_address_space \<Rightarrow> u64 \<Rightarrow> machine \<Rightarrow> u8" where
  "user_byte as v m = phys m (user_to_phys_checked as v VMM_ACCESS_READ m)"

lemma apartD:
  assumes "apart as Q m"
  shows "pt_wf m (root_pa as)" "q \<in> Q \<Longrightarrow> mrefs m q \<noteq> 0" "q \<in> Q \<Longrightarrow> \<not> is_table m (root_pa as) q"
    "bit (pte m (root_pa as) v) 0 \<Longrightarrow> mrefs m (frame_of as v m) \<noteq> 0"
    "bit (pte m (root_pa as) v) 0 \<Longrightarrow> \<not> is_table m (root_pa as) (frame_of as v m)"
    "bit (pte m (root_pa as) v) 0 \<Longrightarrow> frame_of as v m \<notin> Q"
  using assms by (auto simp: apart_def)

lemma table_refs: "pt_wf m r \<Longrightarrow> is_table m r t \<Longrightarrow> mrefs m t \<noteq> 0"
  using pt_wfD(2)[of m r] by (auto simp: is_table_def)

subsection \<open>Writing outside the tables\<close>

lemma write_other_page:
  assumes "page_aligned q" "page_aligned t" "t \<noteq> q" "n + length bs \<le> 4096"
  shows "page_eq m (m\<lparr>phys := write_bytes (q + of_nat n) bs (phys m)\<rparr>) t"
  unfolding page_eq_def
proof (intro allI impI)
  fix j :: nat assume j: "j < 4096"
  have "\<not> unat (t + of_nat j - (q + of_nat n)) < length bs"
  proof
    assume l: "unat (t + of_nat j - (q + of_nat n)) < length bs"
    define i where "i = unat (t + of_nat j - (q + of_nat n))"
    have "q + of_nat (n + i) = t + of_nat j" by (simp add: i_def)
    moreover have i: "n + i < 4096" using l assms(4) unfolding i_def by simp
    ultimately have "unat t + j = unat q + (n + i)" using unat_page_add[OF assms(1) i] unat_page_add[OF assms(2) j] by simp
    then show False using page_split_unique[OF assms(2,1) j i] assms(3) by simp
  qed
  then show "phys (m\<lparr>phys := write_bytes (q + of_nat n) bs (phys m)\<rparr>) (t + of_nat j) = phys m (t + of_nat j)"
    by (simp add: write_bytes_def)
qed

lemma tables_kept:
  assumes "apart as Q m" "\<And>t. is_table m (root_pa as) t \<Longrightarrow> page_eq m m' t" "mpmm m' = mpmm m"
  shows "pte m' (root_pa as) v = pte m (root_pa as) v" "apart as Q m'"
proof -
  let ?r = "root_pa as"
  note wf = apartD(1)[OF assms(1)]
  have t: "page_eq m m' t" if "l \<le> 3" "tbl m ?r v l = Some t" for l v t
    by (rule assms(2)) (use that in \<open>unfold is_table_def, blast\<close>)
  have p: "pte m' ?r v = pte m ?r v" for v by (rule pte_page_eq) (rule t)
  show "pte m' ?r v = pte m ?r v" by (rule p)
  have eq: "tbl m' ?r v l = tbl m ?r v l" if "l \<le> 3" for v l
  proof (rule tbl_page_eq)
    fix l' t' assume "l' < l" "tbl m ?r v l' = Some t'"
    then show "page_eq m m' t'" using t[of l' v t'] that by simp
  qed
  have i: "is_table m' ?r q \<longleftrightarrow> is_table m ?r q" for q unfolding is_table_def using eq by metis
  have "phys_ok m'" using pt_wfD(1)[OF wf] assms(3) by (simp add: phys_ok_def)
  from pt_wf_same_tbl[OF wf eq this] have "pt_wf m' ?r" using assms(3) by simp
  then show "apart as Q m'" using assms(1) unfolding apart_def i p assms(3) by blast
qed

lemma translated_addr:
  assumes "user_to_phys_checked as v access m = a" "a \<noteq> 0"
  shows "bit (pte m (root_pa as) v) 0" "a = frame_of as v m + of_nat (unat v mod 4096)"
proof -
  let ?e = "pte m (root_pa as) v"
  have e: "bit ?e 0 \<and> a = (?e AND PTE_ADDR_MASK) OR (v AND 0xfff)" using assms by (auto simp: user_to_phys_pte Let_def split: if_splits)
  then show "bit ?e 0" by blast
  have "unat v mod 4096 < 4096" by simp
  note pp = page_plus[OF page_base_split(1)[of v] this, folded page_base_split(2)]
  show "a = frame_of as v m + of_nat (unat v mod 4096)"
    using e pp(3) page_plus(1)[OF masked_aligned, of "unat v mod 4096" ?e] by simp
qed

text \<open>Writing one of the pages.\<close>

lemma write_kept_page:
  assumes "apart as Q m" "q \<in> Q" "0 \<notin> Q" "n + length bs \<le> 4096"
    "m' = m\<lparr>phys := write_bytes (q + of_nat n) bs (phys m)\<rparr>"
  shows "apart as Q m'" "user_byte as v m' = user_byte as v m"
proof -
  have q: "page_aligned q" using refs_aligned apartD(2)[OF assms(1,2)] by blast
  have o: "page_eq m m' t" if "page_aligned t" "t \<noteq> q" for t unfolding assms(5) by (rule write_other_page[OF q that assms(4)])
  have t: "page_eq m m' t" if "is_table m (root_pa as) t" for t
  proof (rule o)
    show "page_aligned t" by (rule refs_aligned[OF table_refs[OF apartD(1)[OF assms(1)] that]])
    show "t \<noteq> q" using that apartD(3)[OF assms(1,2)] by blast
  qed
  have m: "mpmm m' = mpmm m" by (simp add: assms(5))
  show "apart as Q m'" by (rule tables_kept(2)[OF assms(1) t m])
  note p = tables_kept(1)[OF assms(1) t m]
  define a where "a = user_to_phys_checked as v VMM_ACCESS_READ m"
  have a: "user_to_phys_checked as v VMM_ACCESS_READ m' = a" by (simp add: a_def user_to_phys_pte p)
  have "phys m' a = phys m a"
  proof (cases "a = 0")
    case True
    have "page_eq m m' 0" using o[of 0] assms(2,3) by (auto simp: page_aligned_def)
    then have "phys m' (0 + of_nat 0) = phys m (0 + of_nat 0)" unfolding page_eq_def by (rule allE[of _ 0]) simp
    then show ?thesis using True by simp
  next
    case False
    note f = translated_addr[OF a_def[symmetric] False]
    have "page_eq m m' (frame_of as v m)" using o[OF masked_aligned, of "pte m (root_pa as) v"] apartD(6)[OF assms(1) f(1)] assms(2) by auto
    then show ?thesis unfolding f(2) page_eq_def by simp
  qed
  then show "user_byte as v m' = user_byte as v m" unfolding user_byte_def a a_def[symmetric] .
qed

subsection \<open>Copies to the process\<close>

definition kept :: "user_address_space \<Rightarrow> u64 set \<Rightarrow> machine \<Rightarrow> machine \<Rightarrow> bool" where
  "kept as Q m m' \<longleftrightarrow> apart as Q m' \<and> (\<forall>q \<in> Q. page_eq m m' q)"

lemma kept_refl: "apart as Q m \<Longrightarrow> kept as Q m m"
  by (simp add: kept_def)

lemma kept_trans: "kept as Q m m' \<Longrightarrow> kept as Q m' m'' \<Longrightarrow> kept as Q m m''"
  unfolding kept_def by (metis page_eq_trans)

lemma kept_user_write:
  assumes "apart as Q m" "user_to_phys_checked as v access m = a" "a \<noteq> 0" "length bs \<le> page_room v"
  shows "kept as Q m (m\<lparr>phys := write_bytes a bs (phys m)\<rparr>)"
proof -
  let ?m = "m\<lparr>phys := write_bytes a bs (phys m)\<rparr>"
  note f = translated_addr[OF assms(2,3)]
  have "unat v mod 4096 + length bs \<le> 4096" using assms(4) by (simp add: page_base_split(4))
  then have o: "page_eq m ?m t" if "page_aligned t" "t \<noteq> frame_of as v m" for t
    unfolding f(2) by (rule write_other_page[OF masked_aligned that])
  have t: "page_eq m ?m t" if "is_table m (root_pa as) t" for t
  proof (rule o)
    show "page_aligned t" by (rule refs_aligned[OF table_refs[OF apartD(1)[OF assms(1)] that]])
    show "t \<noteq> frame_of as v m" using that apartD(5)[OF assms(1) f(1)] by blast
  qed
  have "apart as Q ?m" by (rule tables_kept(2)[OF assms(1) t]) simp_all
  moreover have "page_eq m ?m q" if "q \<in> Q" for q
  proof (rule o)
    show "page_aligned q" by (rule refs_aligned[OF apartD(2)[OF assms(1) that]])
    show "q \<noteq> frame_of as v m" using that apartD(6)[OF assms(1) f(1)] by blast
  qed
  ultimately show ?thesis by (simp add: kept_def)
qed

lemma kept_cow_fault:
  assumes "apart as Q m" "vmm_handle_cow_fault as va m = (ok, m')"
  shows "kept as Q m m'"
proof (cases ok)
  case False
  then have c: "pt_wf m' (root_pa as)" "mrefs m' = mrefs m" "phys m' = phys m"
    using cow_fault_failed[OF apartD(1)[OF assms(1)]] assms(2) by auto
  have e: "page_eq m m' t" for t by (simp add: page_eq_def c(3))
  have "pte m' (root_pa as) v = pte m (root_pa as) v" for v by (rule pte_page_eq) (rule e)
  moreover have "tbl m' (root_pa as) v l = tbl m (root_pa as) v l" for v l by (rule tbl_page_eq) (rule e)
  ultimately have "apart as Q m'" using assms(1) c(1,2) by (simp add: apart_def is_table_def)
  then show ?thesis by (simp add: kept_def e)
next
  case True
  let ?r = "root_pa as"
  obtain t where "tbl m ?r va 3 = Some t"
    using assms(2) True by (cases "tbl m ?r va 3") (simp_all add: vmm_handle_cow_fault_def leaf_for_va_tbl)
  then have b: "bit (pte m ?r va) 0"
    using assms(2) True by (auto simp: vmm_handle_cow_fault_def leaf_for_va_tbl pte_def Let_def split: if_splits)
  have c: "pt_wf m' ?r" "cow_resolved ?r va m m'"
    using cow_fault_resolved[OF apartD(1)[OF assms(1)] assms(2)[unfolded eq_True[THEN iffD2, OF True]] refl]
      apartD(4,5)[OF assms(1) b] by blast+
  let ?P = "frame_of as va m" and ?Q = "frame_of as va m'"
  note r = c(2)[unfolded cow_resolved_def Let_def]
  have i: "is_table m' ?r q = is_table m ?r q" for q using r by blast
  have q: "page_eq m m' q" if "q \<in> Q" for q using r apartD(2,3)[OF assms(1) that] by blast
  have w: "mrefs m' q \<noteq> 0" if "mrefs m q \<noteq> 0" for q using r that apartD(4)[OF assms(1) b] by (auto split: if_splits)
  have n: "mrefs m' ?Q \<noteq> 0 \<and> \<not> is_table m ?r ?Q \<and> ?Q \<notin> Q"
  proof (cases "mrefs m ?P = 1")
    case True
    then have "?Q = ?P" using r by simp
    then show ?thesis using w apartD(4-6)[OF assms(1) b] by simp
  next
    case False
    then have "mrefs m ?Q = 0" "mrefs m' = (mrefs m)(?Q := 1, ?P := mrefs m ?P - 1)" using r by simp_all
    then show ?thesis using apartD(2)[OF assms(1)] table_refs[OF apartD(1)[OF assms(1)]] apartD(4)[OF assms(1) b]
      by (auto split: if_splits)
  qed
  have "mrefs m' (frame_of as v m') \<noteq> 0 \<and> \<not> is_table m ?r (frame_of as v m') \<and> frame_of as v m' \<notin> Q"
    if "bit (pte m' ?r v) 0" for v
  proof (cases "vpage v = vpage va")
    case True
    then have "pte m' ?r v = pte m' ?r va" by (intro pte_agree) (simp add: agree_vpage)
    then show ?thesis using n by simp
  next
    case False
    then have "pte m' ?r v = pte m ?r v" using r by blast
    then show ?thesis using that w apartD(4-6)[OF assms(1)] by simp
  qed
  then show ?thesis using c(1) i q w apartD(2,3)[OF assms(1)] by (simp add: kept_def apart_def)
qed

lemma kept_fault_pages: "fault_pages as ps m = (ok, m') \<Longrightarrow> apart as Q m \<Longrightarrow> kept as Q m m'"
proof (induction ps arbitrary: m)
  case (Cons p ps)
  have "kept as Q m m1" if "vmm_handle_cow_fault as p m = (b, m1)" for b m1 by (rule kept_cow_fault[OF Cons.prems(2) that])
  then show ?case using Cons.prems Cons.IH kept_trans
    by (auto split: if_splits prod.splits bool.splits) (metis kept_def)+
qed (simp add: kept_refl)

lemma kept_copy_out: "copy_out as va bs m = (ok, m') \<Longrightarrow> apart as Q m \<Longrightarrow> kept as Q m m'"
proof (induction as va bs m rule: copy_out.induct)
  case (2 as va b bs m)
  let ?c = "min (page_room va) (length (b # bs))"
  have l: "length (take ?c (b # bs)) \<le> page_room va" by simp
  note e = 2(3)[unfolded copy_out.simps Let_def]
  show ?case
  proof (cases "user_to_phys_checked as va VMM_ACCESS_WRITE m = 0")
    case False
    note k = kept_user_write[OF 2(4) refl False l]
    have "apart as Q (m\<lparr>phys := write_bytes (user_to_phys_checked as va VMM_ACCESS_WRITE m) (take ?c (b # bs)) (phys m)\<rparr>)"
      using k by (simp only: kept_def)
    from kept_trans[OF k 2(2)[OF refl refl False _ this]] show ?thesis using e False by simp
  next
    case True
    obtain ok1 m1 where f: "vmm_handle_cow_fault as va m = (ok1, m1)" by fastforce
    note k1 = kept_cow_fault[OF 2(4) f]
    then have a1: "apart as Q m1" by (simp add: kept_def)
    show ?thesis
    proof (cases "ok1 \<and> user_to_phys_checked as va VMM_ACCESS_WRITE m1 \<noteq> 0")
      case False
      then have "m' = m1" using e True f by (auto split: if_splits bool.splits)
      then show ?thesis using k1 by simp
    next
      case T: True
      note k = kept_user_write[OF a1 refl T[THEN conjunct2] l]
      have "apart as Q (m1\<lparr>phys := write_bytes (user_to_phys_checked as va VMM_ACCESS_WRITE m1) (take ?c (b # bs)) (phys m1)\<rparr>)"
        using k by (simp only: kept_def)
      from kept_trans[OF kept_trans[OF k1 k] 2(1)[OF refl refl True f[symmetric] _ refl _ _ this]] show ?thesis using e True f T by simp
    qed
  qed
qed (simp add: copy_out.simps kept_refl)

lemma kept_copy_to_user:
  assumes "vmm_copy_to_user as dst src m = (ok, m')" "apart as Q m"
  shows "kept as Q m m'"
proof (cases "m' = m")
  case False
  with assms(1) obtain ps b m1 where f: "fault_pages as ps m = (b, m1)" "m' = m1 \<or> copy_out as dst src m1 = (ok, m')"
    by (auto simp: vmm_copy_to_user_def split: option.splits prod.splits bool.splits if_splits)
  note k = kept_fault_pages[OF f(1) assms(2)]
  then have "apart as Q m1" by (simp add: kept_def)
  then show ?thesis using f(2) k kept_copy_out kept_trans by blast
qed (simp add: kept_refl[OF assms(2)])

end
