(* ===== verification/Kpipe_Ring.thy ===== *)
theory Kpipe_Ring
  imports Kpipe_Apart
begin

text \<open>
  The ring of a pipe as a queue of bytes: the copy loop of a write appends the bytes of the process to it, that of
  a read takes bytes from its front and hands them to the process.
\<close>

subsection \<open>Positions\<close>

definition ring_addr :: "pipe_obj \<Rightarrow> nat \<Rightarrow> u64" where
  "ring_addr p n = p_pages p ! (n div 4096) + of_nat (n mod 4096)"

text \<open>The bytes of a ring in a given memory, from the first on.\<close>

definition ring :: "pipe_obj \<Rightarrow> (u64 \<Rightarrow> u8) \<Rightarrow> u8 list" where
  "ring p ph = map (\<lambda>j. ph (ring_addr p ((unat (p_head p) + j) mod 65536))) [0..<unat (p_len p)]"

definition pages_ok :: "pipe_obj \<Rightarrow> bool" where
  "pages_ok p \<longleftrightarrow> length (p_pages p) = PIPE_PAGES \<and> distinct (p_pages p) \<and> list_all (\<lambda>pa. page_aligned pa \<and> pa \<noteq> 0) (p_pages p)"

lemma ring_page:
  assumes "pages_ok p" "n < 65536"
  shows "p_pages p ! (n div 4096) \<in> set (p_pages p)" "page_aligned (p_pages p ! (n div 4096))"
  using assms by (simp_all add: pages_ok_def PIPE_PAGES_def list_all_length)

lemma ring_addr_inj:
  assumes "pages_ok p" "m < 65536" "n < 65536" "ring_addr p m = ring_addr p n"
  shows "m = n"
proof -
  note a = ring_page(2)[OF assms(1,2)] ring_page(2)[OF assms(1,3)]
  have l: "m mod 4096 < 4096" "n mod 4096 < 4096" by simp_all
  have "unat (p_pages p ! (m div 4096)) + m mod 4096 = unat (p_pages p ! (n div 4096)) + n mod 4096"
    using arg_cong[OF assms(4), of unat] unat_page_add[OF a(1) l(1)] unat_page_add[OF a(2) l(2)] by (simp add: ring_addr_def)
  note e = page_split_unique[OF a l this]
  have "m div 4096 = n div 4096"
    using e assms(1-3) nth_eq_iff_index_eq[of "p_pages p" "m div 4096" "n div 4096"] by (simp add: pages_ok_def PIPE_PAGES_def)
  with e show ?thesis by (metis div_mult_mod_eq)
qed

lemma ring_addr_page:
  assumes "n mod 4096 + i < 4096"
  shows "ring_addr p (n + i) = ring_addr p n + of_nat i"
proof -
  obtain q r where n: "n = r + 4096 * q" "r < 4096" using mod_mult_div_eq[of n 4096] by (metis mod_less_divisor zero_less_numeral)
  then have "r + i < 4096" using assms by simp
  moreover have "n + i = (r + i) + 4096 * q" using n(1) by simp
  ultimately have "(n + i) div 4096 = q" "(n + i) mod 4096 = r + i" by (simp_all only: div_mult_self2 mod_mult_self2) simp_all
  moreover have "n div 4096 = q" "n mod 4096 = r" using n by simp_all
  ultimately show ?thesis by (simp add: ring_addr_def)
qed

lemma pos_distinct:
  assumes "(h + a) mod 65536 = (h + b) mod (65536 :: nat)" "a < 65536" "b < 65536"
  shows "a = b"
proof -
  have "int ((h + a) mod 65536) = int ((h + b) mod 65536)" using assms(1) by simp
  then have "(int h + int a) mod 65536 = (int h + int b) mod 65536" by (simp add: zmod_int)
  then obtain k where "int a - int b = 65536 * k" unfolding mod_eq_dvd_iff by (auto elim: dvdE)
  moreover from this have "k = 0" using assms(2,3) by simp
  ultimately show ?thesis by simp
qed

subsection \<open>Chunks\<close>

lemma unat_mod_cap: "unat (x mod PIPE_CAP) = unat x mod 65536"
  by (simp add: PIPE_CAP_def unat_mod_distrib)

lemma cap_sub: "x \<le> PIPE_CAP \<Longrightarrow> unat (PIPE_CAP - x) = 65536 - unat x"
  using unat_sub[of x PIPE_CAP] by (simp add: PIPE_CAP_def)

lemma page_sub: "unat (PAGE_SIZE - x mod PAGE_SIZE) = 4096 - unat x mod 4096"
proof -
  have "x mod PAGE_SIZE \<le> PAGE_SIZE" using mod_less_word[of PAGE_SIZE x] by (simp add: PAGE_SIZE_def less_imp_le)
  from unat_sub[OF this] show ?thesis by (simp add: PAGE_SIZE_def unat_mod_distrib)
qed

lemma pipe_ok_unat: "pipe_ok p \<Longrightarrow> unat (p_head p) < 65536 \<and> unat (p_len p) \<le> 65536"
  by (simp add: pipe_ok_def PIPE_CAP_def word_less_nat_alt word_le_nat_alt)

lemma head_len: "pipe_ok p \<Longrightarrow> unat (p_head p + p_len p) = unat (p_head p) + unat (p_len p)"
  using pipe_ok_unat[of p] by (intro unat_add_lem[THEN iffD1]) simp

text \<open>A chunk to write starts at the end of the ring and crosses neither a page nor the end of the pages.\<close>

lemma write_chunk_fits:
  assumes "pipe_ok p" "write_chunk p left = (tail, chunk)"
  shows "unat tail = (unat (p_head p) + unat (p_len p)) mod 65536" "unat tail mod 4096 + unat chunk \<le> 4096"
    "unat tail + unat chunk \<le> 65536" "chunk \<le> left"
proof -
  have t: "tail = (p_head p + p_len p) mod PIPE_CAP" using assms(2) by (simp add: write_chunk_def Let_def)
  then show u: "unat tail = (unat (p_head p) + unat (p_len p)) mod 65536" by (simp add: unat_mod_cap head_len[OF assms(1)])
  have "tail \<le> PIPE_CAP" using mod_cap t by (simp add: less_imp_le)
  then have c: "unat (PIPE_CAP - tail) = 65536 - unat tail" "unat tail < 65536" using cap_sub u by simp_all
  have "chunk \<le> PIPE_CAP - tail" "chunk \<le> PAGE_SIZE - tail mod PAGE_SIZE" "chunk \<le> left"
    using assms(2) unfolding write_chunk_def Let_def t[symmetric] by (auto split: if_splits)
  then show "unat tail mod 4096 + unat chunk \<le> 4096" "unat tail + unat chunk \<le> 65536" "chunk \<le> left"
    using c page_sub[of tail] mod_less_divisor[of 4096 "unat tail"] by (auto simp: word_le_nat_alt)
qed

lemma data_ptr_addr:
  assumes "pipe_data_ptr p dp pos k = Some a"
  shows "a = ring_addr p (unat pos)"
proof -
  have "unat (pos div PAGE_SIZE) = unat pos div 4096" "pos mod PAGE_SIZE = of_nat (unat pos mod 4096)"
    by (simp_all add: PAGE_SIZE_def unat_div_distrib word_unat_eq_iff unat_mod_distrib unat_of_nat take_bit_nat_eq_self)
  then show ?thesis using assms by (auto simp: pipe_data_ptr_def Let_def ring_addr_def split: if_splits)
qed

lemma ring_append:
  assumes ok: "pipe_ok p" "pages_ok p" and c: "write_chunk p left = (tail, chunk)" "length bs = unat chunk"
    and room: "unat (p_len p) + unat chunk \<le> 65536"
  shows "ring (p\<lparr>p_len := p_len p + chunk\<rparr>) (write_bytes (ring_addr p (unat tail)) bs ph) = ring p ph @ bs"
proof (rule nth_equalityI)
  let ?h = "unat (p_head p)" and ?l = "unat (p_len p)" and ?a = "ring_addr p (unat tail)"
  note w = write_chunk_fits[OF ok(1) c(1)]
  have l: "unat (p_len p + chunk) = ?l + unat chunk" by (rule unat_add_lem[THEN iffD1]) (use room in simp)
  then show "length (ring (p\<lparr>p_len := p_len p + chunk\<rparr>) (write_bytes ?a bs ph)) = length (ring p ph @ bs)"
    using c(2) by (simp add: ring_def)
  fix j assume "j < length (ring (p\<lparr>p_len := p_len p + chunk\<rparr>) (write_bytes ?a bs ph))"
  then have j: "j < ?l + unat chunk" using l by (simp add: ring_def)
  let ?n = "(?h + j) mod 65536"
  have nth: "ring (p\<lparr>p_len := p_len p + chunk\<rparr>) (write_bytes ?a bs ph) ! j = write_bytes ?a bs ph (ring_addr p ?n)"
    using j l by (simp add: ring_def ring_addr_def)
  have at: "ring_addr p (unat tail + i) = ?a + of_nat i" "unat (of_nat i :: u64) = i" if "i < unat chunk" for i
    using ring_addr_page[of "unat tail" i p] that w(2,3) by (simp_all add: unat_of_nat take_bit_nat_eq_self)
  have pos: "(unat tail + i) mod 65536 = (?h + (?l + i)) mod 65536" for i
    unfolding w(1) mod_add_left_eq by (simp only: add.assoc)
  show "ring (p\<lparr>p_len := p_len p + chunk\<rparr>) (write_bytes ?a bs ph) ! j = (ring p ph @ bs) ! j"
  proof (cases "j < ?l")
    case True
    have "\<not> unat (ring_addr p ?n - ?a) < unat chunk"
    proof
      assume less: "unat (ring_addr p ?n - ?a) < unat chunk"
      define i where "i = unat (ring_addr p ?n - ?a)"
      have "ring_addr p ?n = ring_addr p (unat tail + i)" using at(1)[of i] less by (simp add: i_def)
      moreover have i: "i < unat chunk" using less by (simp only: i_def)
      ultimately have "?n = unat tail + i" using ring_addr_inj[OF ok(2), of ?n "unat tail + i"] w(3) by simp
      then have "?n = (?h + (?l + i)) mod 65536" using pos[of i] i w(3) by simp
      from pos_distinct[OF this] show False using True i room by simp
    qed
    then show ?thesis using True nth c(2) by (simp add: ring_def write_bytes_def nth_append)
  next
    case False
    define i where "i = j - ?l"
    have i: "i < unat chunk" "j = ?l + i" using False j by (simp_all add: i_def)
    have "?n = (unat tail + i) mod 65536" using pos[of i] i(2) by (simp only:)
    then have "?n = unat tail + i" using i(1) w(3) by simp
    then show ?thesis using nth at[OF i(1)] i c(2) by (simp add: write_bytes_def nth_append ring_def)
  qed
qed

lemma ring_drop:
  assumes "pipe_ok p" "unat c \<le> unat (p_len p)"
  shows "ring (p\<lparr>p_head := (p_head p + c) mod PIPE_CAP, p_len := p_len p - c\<rparr>) ph = drop (unat c) (ring p ph)"
proof -
  let ?h = "unat (p_head p)"
  have l: "unat (p_len p - c) = unat (p_len p) - unat c" using assms(2) by (intro unat_sub) (simp add: word_le_nat_alt)
  have "unat (p_head p + c) = ?h + unat c"
    using pipe_ok_unat[OF assms(1)] assms(2) by (intro unat_add_lem[THEN iffD1]) simp
  then have "(unat ((p_head p + c) mod PIPE_CAP) + j) mod 65536 = (?h + (unat c + j)) mod 65536" for j
    unfolding unat_mod_cap mod_add_left_eq by (simp only: add.assoc)
  moreover have "[0..<unat (p_len p)] ! (unat c + i) = unat c + i" if "i < unat (p_len p) - unat c" for i
    using that by simp
  ultimately show ?thesis unfolding ring_def
    by (intro nth_equalityI) (simp_all add: l ring_addr_def)
qed

subsection \<open>Transfers\<close>

lemma domain_as_frame [simp]:
  "cell_domain_as dp (set_machine m k) = cell_domain_as dp k" "cell_domain_as dp (upd_pipe i f k) = cell_domain_as dp k"
  by (simp_all add: cell_domain_as_def domain_mm_def set_machine_def upd_pipe_def split: option.split)

lemma copied_bytes:
  fixes n :: u64
  assumes "copy_from_domain dp va (unat n) k = Some bs" "cell_domain_as dp k = Some as"
  shows "bs = map (\<lambda>j. user_byte as (va + of_nat j) (k_machine k)) [0..<unat n]"
  using assms copy_from_user_bytes[of "unat n" as va "k_machine k"] unat_lt_64[of n]
  by (auto simp: copy_from_domain_def user_byte_def split: if_splits)

lemma map_upt_append: "c \<le> n \<Longrightarrow> map f [0..<c] @ map (\<lambda>j. f (c + j)) [0..<n - c] = map f [0..<n]"
  by (rule nth_equalityI) (auto simp: nth_append)

lemma write_loop_appends:
  "pipe_write_loop dp i va left k = (r, k') \<Longrightarrow> r \<Longrightarrow> i < length (k_pipes k) \<Longrightarrow> pipe_ok (k_pipes k ! i) \<Longrightarrow>
    pages_ok (k_pipes k ! i) \<Longrightarrow> left \<le> PIPE_CAP - p_len (k_pipes k ! i) \<Longrightarrow> cell_domain_as dp k = Some as \<Longrightarrow>
    apart as (set (p_pages (k_pipes k ! i))) (k_machine k) \<Longrightarrow>
    ring (k_pipes k' ! i) (phys (k_machine k')) = ring (k_pipes k ! i) (phys (k_machine k)) @
      map (\<lambda>j. user_byte as (va + of_nat j) (k_machine k)) [0..<unat left]"
proof (induction rule: pipe_write_loop_induct)
  case (step va left k tail chunk dst bs r k')
  let ?p = "k_pipes k ! i"
  let ?k = "upd_pipe i (\<lambda>p. p\<lparr>p_len := p_len p + chunk\<rparr>) (set_machine ((k_machine k)\<lparr>phys := write_bytes dst bs (phys (k_machine k))\<rparr>) k)"
  let ?f = "\<lambda>j. user_byte as (va + of_nat j) (k_machine k)"
  note w = write_chunk_fits[OF step.prems(3) step.hyps(2)]
  have len: "p_len ?p \<le> PIPE_CAP" using step.prems(3) by (simp add: pipe_ok_def)
  note a = add_room[OF len step.prems(5) w(4)]
  have room: "unat (p_len ?p) + unat chunk \<le> 65536"
    using step.prems(5) w(4) cap_sub[OF len] pipe_ok_unat[OF step.prems(3)] by (auto simp: word_le_nat_alt)
  have p: "k_pipes ?k ! i = ?p\<lparr>p_len := p_len ?p + chunk\<rparr>" using step.prems(2) by (simp add: nth_upd)
  have bs: "bs = map ?f [0..<unat chunk]" by (rule copied_bytes[OF step.hyps(4) step.prems(6)])
  have dst: "dst = p_pages ?p ! (unat tail div 4096) + of_nat (unat tail mod 4096)"
    using data_ptr_addr[OF step.hyps(3)] by (simp add: ring_addr_def)
  have t: "unat tail < 65536" using w(1) by simp
  have n0: "0 \<notin> set (p_pages ?p)" using step.prems(4) by (auto simp: pages_ok_def list_all_iff)
  have fit: "unat tail mod 4096 + length bs \<le> 4096" using w(2) by (simp add: bs)
  have m: "k_machine ?k = (k_machine k)\<lparr>phys := write_bytes dst bs (phys (k_machine k))\<rparr>" by simp
  have "k_machine ?k = (k_machine k)\<lparr>phys := write_bytes (p_pages ?p ! (unat tail div 4096) + of_nat (unat tail mod 4096)) bs
      (phys (k_machine k))\<rparr>" by (simp only: m dst[symmetric])
  note kp = write_kept_page[OF step.prems(7) ring_page(1)[OF step.prems(4) t] n0 fit this]
  have ok: "pipe_ok (k_pipes ?k ! i)" "pages_ok (k_pipes ?k ! i)" "left - chunk \<le> PIPE_CAP - p_len (k_pipes ?k ! i)"
    using step.prems(3,4) a by (simp_all add: p pipe_ok_def pages_ok_def)
  have "ring (k_pipes k' ! i) (phys (k_machine k')) = ring (k_pipes ?k ! i) (phys (k_machine ?k)) @
      map (\<lambda>j. user_byte as (va + chunk + of_nat j) (k_machine ?k)) [0..<unat (left - chunk)]"
    by (rule step.IH[OF step.prems(1) _ ok]) (use step.prems(2,6) kp(1) p in simp_all)
  also have "ring (k_pipes ?k ! i) (phys (k_machine ?k)) = ring ?p (phys (k_machine k)) @ bs"
    unfolding p m using ring_append[OF step.prems(3,4) step.hyps(2) _ room, of bs] data_ptr_addr[OF step.hyps(3)] by (simp add: bs)
  also have "map (\<lambda>j. user_byte as (va + chunk + of_nat j) (k_machine ?k)) [0..<unat (left - chunk)] =
      map (\<lambda>j. ?f (unat chunk + j)) [0..<unat left - unat chunk]"
    using kp(2) unat_sub[OF w(4)] by (simp add: add.assoc)
  finally show ?case using map_upt_append[of "unat chunk" "unat left" ?f] w(4) by (simp add: bs word_le_nat_alt)
qed simp_all

text \<open>Copies of pieces to consecutive addresses of a process.\<close>

fun deliver :: "user_address_space \<Rightarrow> u64 \<Rightarrow> u8 list list \<Rightarrow> machine \<Rightarrow> bool \<times> machine" where
  "deliver as va [] m = (True, m)"
| "deliver as va (b # bs) m =
     (case vmm_copy_to_user as va b m of
        (True, m) \<Rightarrow> deliver as (va + of_nat (length b)) bs m
      | (False, m) \<Rightarrow> (False, m))"

text \<open>A chunk to read is the front of the ring.\<close>

lemma read_chunk_front:
  assumes "pipe_ok p" "left \<le> p_len p" "left \<noteq> 0" "c = read_chunk p left"
  shows "c \<le> left" "read_bytes ph (ring_addr p (unat (p_head p))) (unat c) = take (unat c) (ring p ph)"
proof -
  let ?h = "unat (p_head p)"
  have h: "p_head p < PIPE_CAP" using assms(1) by (simp add: pipe_ok_def)
  show c: "c \<le> left" using read_chunk_pos[of left p] h assms(3,4) by (simp add: word_neq_0_conv)
  have "c \<le> PIPE_CAP - p_head p" "c \<le> PAGE_SIZE - p_head p mod PAGE_SIZE"
    using assms(4) by (auto simp: read_chunk_def Let_def split: if_splits)
  then have r: "?h + unat c \<le> 65536" "?h mod 4096 + unat c \<le> 4096"
    using cap_sub[OF less_imp_le[OF h]] page_sub[of "p_head p"] pipe_ok_unat[OF assms(1)] mod_less_divisor[of 4096 ?h]
    by (auto simp: word_le_nat_alt)
  have l: "unat c \<le> unat (p_len p)" using order_trans[OF c assms(2)] by (simp add: word_le_nat_alt)
  show "read_bytes ph (ring_addr p ?h) (unat c) = take (unat c) (ring p ph)"
  proof (rule nth_equalityI)
    fix j assume "j < length (read_bytes ph (ring_addr p ?h) (unat c))"
    then have j: "j < unat c" by (simp add: read_bytes_def)
    then have "ring_addr p (?h + j) = ring_addr p ?h + of_nat j" using r(2) by (intro ring_addr_page) simp
    then show "read_bytes ph (ring_addr p ?h) (unat c) ! j = take (unat c) (ring p ph) ! j"
      using j l r(1) by (simp add: read_bytes_def ring_def)
  qed (use l in \<open>simp add: read_bytes_def ring_def\<close>)
qed

lemma ring_cong:
  assumes "pages_ok p" "\<And>q. q \<in> set (p_pages p) \<Longrightarrow> page_eq m m' q"
  shows "ring p (phys m') = ring p (phys m)"
proof -
  have "phys m' (ring_addr p n) = phys m (ring_addr p n)" if "n < 65536" for n
    using assms(2)[OF ring_page(1)[OF assms(1) that]] unfolding page_eq_def ring_addr_def by simp
  then show ?thesis by (simp add: ring_def)
qed

lemma read_loop_takes:
  "pipe_read_loop dp i va left k = (r, k') \<Longrightarrow> r \<Longrightarrow> i < length (k_pipes k) \<Longrightarrow> pipe_ok (k_pipes k ! i) \<Longrightarrow>
    pages_ok (k_pipes k ! i) \<Longrightarrow> left \<le> p_len (k_pipes k ! i) \<Longrightarrow> cell_domain_as dp k = Some as \<Longrightarrow>
    apart as (set (p_pages (k_pipes k ! i))) (k_machine k) \<Longrightarrow>
    ring (k_pipes k' ! i) (phys (k_machine k')) = drop (unat left) (ring (k_pipes k ! i) (phys (k_machine k))) \<and>
    (\<exists>bss. concat bss = take (unat left) (ring (k_pipes k ! i) (phys (k_machine k))) \<and>
       deliver as va bss (k_machine k) = (True, k_machine k'))"
proof (induction rule: pipe_read_loop_induct)
  case (step va left k src k1 chunk r k')
  let ?p = "k_pipes k ! i" and ?b = "take (unat chunk) (ring (k_pipes k ! i) (phys (k_machine k)))"
  let ?g = "\<lambda>p. p\<lparr>p_head := (p_head p + chunk) mod PIPE_CAP, p_len := p_len p - chunk\<rparr>"
  let ?k = "upd_pipe i ?g k1"
  note f = read_chunk_front[OF step.prems(3,5) step.hyps(1,2)]
  have s: "k_pipes k1 = k_pipes k" using still.keeps_copy_to_domain[OF step.hyps(4)] by (simp add: same_pipes_def)
  note a = sub_len[OF step.prems(5) f(1)]
  have c: "unat chunk \<le> unat (p_len ?p)" using order_trans[OF f(1) step.prems(5)] by (simp add: word_le_nat_alt)
  have cl: "unat chunk \<le> unat left" using f(1) by (simp add: word_le_nat_alt)
  have p: "k_pipes ?k ! i = ?g ?p" using step.prems(2) s by (simp add: nth_upd)
  have cp: "vmm_copy_to_user as va ?b (k_machine k) = (True, k_machine k1)" "cell_domain_as dp k1 = cell_domain_as dp k"
    using step.hyps(4) step.prems(6) data_ptr_addr[OF step.hyps(3)] f(2)
    by (auto simp: copy_to_domain_def on_machine_def split: prod.splits)
  note kept = kept_copy_to_user[OF cp(1) step.prems(7)]
  have ok: "pipe_ok (k_pipes ?k ! i)" "pages_ok (k_pipes ?k ! i)" "left - chunk \<le> p_len (k_pipes ?k ! i)"
    using step.prems(3,4) order_trans[OF a(1)] a(2) by (simp_all add: p pipe_ok_def pages_ok_def mod_cap)
  have "ring (?g ?p) (phys (k_machine k1)) = drop (unat chunk) (ring ?p (phys (k_machine k1)))"
    by (rule ring_drop[OF step.prems(3) c])
  also have "ring ?p (phys (k_machine k1)) = ring ?p (phys (k_machine k))"
    by (rule ring_cong[OF step.prems(4)]) (use kept in \<open>simp add: kept_def\<close>)
  finally have rest: "ring (k_pipes ?k ! i) (phys (k_machine ?k)) = drop (unat chunk) (ring ?p (phys (k_machine k)))"
    unfolding p by simp
  have "i < length (k_pipes ?k)" "cell_domain_as dp ?k = Some as" "apart as (set (p_pages (k_pipes ?k ! i))) (k_machine ?k)"
    using step.prems(2,6) cp(2) s kept by (simp_all add: p kept_def)
  from step.IH[OF step.prems(1) this(1) ok this(2,3), unfolded rest] obtain bss where
      d: "ring (k_pipes k' ! i) (phys (k_machine k')) = drop (unat (left - chunk)) (drop (unat chunk) (ring ?p (phys (k_machine k))))"
      "concat bss = take (unat (left - chunk)) (drop (unat chunk) (ring ?p (phys (k_machine k))))"
      "deliver as (va + chunk) bss (k_machine k1) = (True, k_machine k')"
    by auto
  have u: "unat (left - chunk) = unat left - unat chunk" by (rule unat_sub[OF f(1)])
  have "length ?b = unat chunk" using c by (simp add: ring_def)
  then have "deliver as va (?b # bss) (k_machine k) = (True, k_machine k')" using cp(1) d(3) by simp
  moreover have "concat (?b # bss) = take (unat left) (ring ?p (phys (k_machine k)))"
    using d(2) cl take_add[of "unat chunk" "unat left - unat chunk" "ring ?p (phys (k_machine k))"] by (simp add: u)
  moreover have "ring (k_pipes k' ! i) (phys (k_machine k')) = drop (unat left) (ring ?p (phys (k_machine k)))"
    using d(1) cl by (simp add: u)
  ultimately show ?case by blast
qed (auto intro: exI[of _ "[]"])

text \<open>
  C38. A pipe is a queue of bytes between processes. Its pages are distinct, in use, and neither tables of the process
  nor mapped in it. When the copy loop of a write of \<open>left\<close> bytes that fit succeeds, the ring holds what it held before
  followed by the bytes the process reads at \<open>va, \<dots>, va + left - 1\<close>, also where the ring wraps around its
  end. When the copy loop of a read of \<open>left\<close> bytes that are there succeeds, the ring holds what it held before without its
  first \<open>left\<close> bytes, and what happened to memory is that exactly these bytes were copied, in pieces and in order, to
  consecutive addresses of the process from \<open>va\<close> on.
\<close>

theorem pipe_is_queue:
  assumes "i < length (k_pipes k)" "pipe_ok (k_pipes k ! i)" "pages_ok (k_pipes k ! i)"
    "cell_domain_as dp k = Some as" "apart as (set (p_pages (k_pipes k ! i))) (k_machine k)"
    "contents = ring (k_pipes k ! i) (phys (k_machine k))"
  shows "(\<forall>k'. pipe_write_loop dp i va left k = (True, k') \<and> left \<le> PIPE_CAP - p_len (k_pipes k ! i) \<longrightarrow>
      ring (k_pipes k' ! i) (phys (k_machine k')) =
        contents @ map (\<lambda>j. user_byte as (va + of_nat j) (k_machine k)) [0..<unat left]) \<and>
    (\<forall>k'. pipe_read_loop dp i va left k = (True, k') \<and> left \<le> p_len (k_pipes k ! i) \<longrightarrow>
      ring (k_pipes k' ! i) (phys (k_machine k')) = drop (unat left) contents \<and>
      (\<exists>bss. concat bss = take (unat left) contents \<and> deliver as va bss (k_machine k) = (True, k_machine k')))"
  using write_loop_appends[OF _ TrueI assms(1-3) _ assms(4,5)] read_loop_takes[OF _ TrueI assms(1-3) _ assms(4,5)]
  unfolding assms(6) by blast

text \<open>One byte written at the last position of a ring, from the last bytes of a mapped page.\<close>

definition demo_pipe :: pipe_obj where
  "demo_pipe = zero_pipe\<lparr>p_used := True, p_readers := 1, p_pages := map (\<lambda>n. of_nat n * 4096) [239..<255], p_head := 65535\<rparr>"

definition demo_writer :: kernel where
  "demo_writer = (demo_kernel [(demo_domain 1 0)\<lparr>dom_mm := Some 0\<rparr>] [] [] [demo_pipe])
     \<lparr>k_sys := demo_sys\<lparr>vs_machine := vm_cow\<rparr>, k_mms := [zero_mm\<lparr>mm_as := vm_as\<rparr>]\<rparr>"

lemma demo_pages:
  "list_all (\<lambda>q. mrefs vm_machine q = 1 \<and> page_aligned q \<and> q \<notin> {0, 0xff000, root_pa vm_as}) (p_pages demo_pipe)"
  by (simp add: demo_pipe_def pmm_refcount_def valid_page_def vm_machine_def vm_pmm_def vm_as_def PAGE_SIZE_def nth_append
      page_aligned_def)

lemma demo_pipe_ok: "pipe_ok demo_pipe" "pages_ok demo_pipe"
proof -
  have "length (p_pages demo_pipe) = PIPE_PAGES" "distinct (p_pages demo_pipe)"
    by (simp_all add: demo_pipe_def PIPE_PAGES_def)
  then show "pages_ok demo_pipe" using demo_pages by (auto simp: pages_ok_def list_all_iff)
qed (simp add: pipe_ok_def demo_pipe_def zero_pipe_def PIPE_CAP_def)

lemma demo_apart: "apart vm_as (set (p_pages demo_pipe)) vm_cow"
proof -
  have "mrefs vm_cow q \<noteq> 0 \<and> \<not> is_table vm_cow (root_pa vm_as) q" if "q \<in> set (p_pages demo_pipe)" for q
  proof -
    have q: "mrefs vm_machine q = 1" "q \<noteq> root_pa vm_as" using demo_pages that by (auto simp: list_all_iff)
    then have "mrefs vm_start q = 1" using vm_start_facts(3) by simp
    then show ?thesis using vm_cow_facts(3,4) vm_start_facts(6) q(2) by simp
  qed
  moreover have "0xff000 \<notin> set (p_pages demo_pipe)" using demo_pages by (auto simp: list_all_iff)
  ultimately show ?thesis using vm_cow_facts(1) vm_cow_page(1,2) by (auto simp: apart_def vm_cow_page(3) vm_cow_addr)
qed

lemma demo_writer_facts:
  "k_pipes demo_writer = [demo_pipe]" "cell_domain_as (Some 0) demo_writer = Some vm_as" "k_machine demo_writer = vm_cow"
  by (simp_all add: demo_writer_def cell_domain_as_def domain_mm_def zero_mm_def k_machine_def)

lemma demo_translation:
  "user_to_phys_checked vm_as v VMM_ACCESS_READ vm_cow = (if vpage v = 0x400 then 0xff000 OR (v AND 0xfff) else 0)"
  by (simp add: vm_cow_page(3) cow_entry_bits(1) vm_cow_addr user_to_phys_pte Let_def user_entry_allows_def vpage_def take_bit_eq_mod)

lemma demo_writer_copies: "\<exists>bs. copy_from_domain (Some 0) 0x400ffe 1 demo_writer = Some bs"
proof -
  have "user_to_phys_checked vm_as (page_base 0x400ffe) VMM_ACCESS_READ vm_cow \<noteq> 0"
    by (simp add: demo_translation page_base_def PAGE_SIZE_def vpage_def take_bit_eq_mod)
  then show ?thesis using copy_from_user_bytes[of 1 vm_as "0x400ffe" vm_cow]
    by (simp add: copy_from_domain_def demo_writer_facts)
qed

theorem pipe_is_queue_witness:
  "\<exists>k'. pipe_write_loop (Some 0) 0 0x400ffe 1 demo_writer = (True, k') \<and>
    ring (k_pipes k' ! 0) (phys (k_machine k')) =
      ring (k_pipes demo_writer ! 0) (phys (k_machine demo_writer)) @ [phys vm_cow 0xffffe]"
proof -
  have p: "k_pipes demo_writer ! 0 = demo_pipe" by (simp add: demo_writer_facts)
  have c: "write_chunk demo_pipe 1 = (65535, 1)"
    by (simp add: write_chunk_def Let_def demo_pipe_def zero_pipe_def PIPE_CAP_def PAGE_SIZE_def)
  have "\<exists>a. pipe_data_ptr demo_pipe (Some 0) 65535 demo_writer = Some a"
    by (simp add: pipe_data_ptr_def Let_def demo_writer_facts demo_pipe_def PIPE_CAP_def PAGE_SIZE_def PIPE_PAGES_def)
  moreover obtain bs where "copy_from_domain (Some 0) 0x400ffe 1 demo_writer = Some bs" using demo_writer_copies by blast
  ultimately have "\<exists>k'. pipe_write_loop (Some 0) 0 0x400ffe 1 demo_writer = (True, k')"
    by (subst pipe_write_loop.simps) (auto simp: p c Let_def pipe_write_loop.simps[where left = 0])
  then obtain k' where w: "pipe_write_loop (Some 0) 0 0x400ffe 1 demo_writer = (True, k')" ..
  have "(1 :: u64) \<le> PIPE_CAP - p_len demo_pipe" by (simp add: demo_pipe_def zero_pipe_def PIPE_CAP_def)
  moreover have "user_byte vm_as 0x400ffe vm_cow = phys vm_cow 0xffffe"
    by (simp add: user_byte_def demo_translation vpage_def take_bit_eq_mod)
  ultimately show ?thesis
    using pipe_is_queue[of 0 demo_writer "Some 0" vm_as _ "0x400ffe" 1] demo_pipe_ok demo_apart w
    by (auto simp: demo_writer_facts)
qed

end
