(* ===== verification/Ktable_Properties.thy ===== *)
theory Ktable_Properties
  imports Kdemo_Whole
begin

text \<open>
  The references between the tables of domains, threads and open files stay in range, whatever sequence of
  operations allocates, copies, duplicates and releases entries.
\<close>

subsection \<open>Updates\<close>



lemma kernel_wf_frame [simp]:
  "kernel_wf (upd_file i g k) = kernel_wf k" "kernel_wf (k\<lparr>k_next_domain_id := n\<rparr>) = kernel_wf k"
  "kernel_wf (k\<lparr>k_next_thread_id := n\<rparr>) = kernel_wf k" "kernel_wf (smp_clear_current_thread_if cpu tp k) = kernel_wf k"
  "kernel_wf (cell_retain_open_file fp k) = kernel_wf k"
  by (simp_all add: kernel_wf_def smp_clear_current_thread_if_def cell_retain_open_file_def split: option.split)





subsection \<open>Steps\<close>













end
