(* ===== verification/Spec2Isabelle.thy ===== *)
theory Spec2Isabelle
  imports Pmm_Properties Vma_Properties Policy_Properties Vmm_Properties Krandom_Properties Kproc_Properties Ksched_Properties
    Kfd_Properties Kpipe_Ring Ktable_Properties
begin

text \<open>
  Spore is a small operating system for 64-bit ARM: a boot loader, a kernel and a userland with Linux-compatible system
  calls. This development models the core of the kernel, the sources under \<^verbatim>\<open>src/kernel/src\<close>:
  memory management, capability policies, the random number generator, and processes with their threads, descriptors, pipes,
  futexes and polling.

  \<^bold>\<open>The program and its theories.\<close> The parts are listed from the bottom up; each uses those above it.

  \<^item> \<open>Spore_Prelude\<close>, \<open>Kstr\<close>: C integers as words of their width, the alignment helpers, strings and memory
    (\<^verbatim>\<open>include/kstr.h\<close>, \<^verbatim>\<open>lib/mem.c\<close>).

  \<^item> \<open>Pmm\<close>: the physical page allocator \<^verbatim>\<open>mm/pmm.c\<close>. Its static variables are the record \<open>pmm\<close>, physical memory
    and allocator together the record \<open>machine\<close>. \<open>Pmm_Alloc\<close> and \<open>Pmm_Init\<close> hold the lemmas and the
    contract of the allocator, the locale \<open>frame_pool\<close>, interpreted as \<open>pool\<close>. \<open>Phys_Mem\<close>: words and bytes of memory.

  \<^item> \<open>Vfs_Node\<close>, \<open>Vma\<close>: file handles, and the areas of an address space, \<^verbatim>\<open>mm/vma.c\<close>, with the calls made to the file
    system as a log. \<open>Vma_Map\<close> gives the meaning of a list of areas as a map from addresses to attributes,
    \<open>Vma_Steps\<close> and \<open>Vma_Ops\<close> what the operations do to pages, references and that map.

  \<^item> \<open>Vmm\<close>: the user page tables \<^verbatim>\<open>mm/vmm.c\<close>, as bytes of physical memory. \<open>Vmm_Tables\<close> reads them as a tree
    and as a map from pages to entries, \<open>Vmm_Ops\<close> and \<open>Vmm_Range\<close> prove the effect of each operation on that map.

  \<^item> \<open>Cell\<close>, \<open>Kernel\<close>: the structures of \<^verbatim>\<open>include/cell.h\<close> and the state of the process code, the record \<open>kernel\<close>: the
    tables of domains, threads, open files, pipes and address spaces, the processors' current threads, and the
    machine. Pointers into a table are indices, NULL is \<open>None\<close>.

  \<^item> \<open>Policy\<close>: capability policies, \<^verbatim>\<open>proc/policy.c\<close>, with \<open>Policy_Lemmas\<close>. \<open>Krandom\<close>: \<^verbatim>\<open>random.c\<close>.

  \<^item> \<open>Kmemory\<close> (\<^verbatim>\<open>proc/memory.c\<close>), \<open>Kpipe\<close> and \<open>Kpipe_Io\<close> (\<^verbatim>\<open>proc/pipe.c\<close>), \<open>Kpoll\<close> (\<^verbatim>\<open>proc/poll.c\<close>),
    \<open>Kfd\<close> (\<^verbatim>\<open>proc/fd.c\<close>), \<open>Kthread\<close> and \<open>Ksched\<close> (\<^verbatim>\<open>proc/thread.c\<close>, \<^verbatim>\<open>proc/futex.c\<close>),
    \<open>Kdomain\<close> (\<^verbatim>\<open>proc/domain.c\<close>), \<open>Kprocess\<close> (\<^verbatim>\<open>proc/process.c\<close>): the process code, one definition per function and per
    loop, under the function's name.

  \<^bold>\<open>How code is modelled.\<close> A function that changes state takes the state and returns it with the result. A call
  that may not return has an optional result, \<open>None\<close> when it does not return; errors are the negative numbers the code returns.
  Code outside the model, the file systems, sockets and terminals, is the environment \<open>kenv\<close>: every such call is noted in a
  log, and its answer is an arbitrary function of the log. What interrupts and other processors do while the
  scheduler waits is the argument \<open>irqs\<close>, an arbitrary function.

  \<^bold>\<open>Contracts.\<close> \<open>Kframe\<close> has one locale per layer of the process code, \<open>mem_frame\<close>, \<open>wake_frame\<close>, \<open>pipe_frame\<close>,
  \<open>file_frame\<close>, \<open>space_frame\<close> and \<open>destroy_frame\<close>, each extending the one before: a preorder on states that the elementary
  changes of a layer respect is respected by every operation of the layer. The interpretations are \<open>shape\<close> and \<open>still\<close> (\<open>Kshape\<close>:
  the identity of table entries, pipes), \<open>cpus\<close> (\<open>Ksched_Properties\<close>: which thread runs where), \<open>frefs\<close> and \<open>ffiles\<close>
  (\<open>Kfd_Refs\<close>, \<open>Kfd_Properties\<close>: open files). \<open>Kreturn\<close> and \<open>Kdestroy\<close> prove that operations return.

  \<^bold>\<open>What is shown.\<close>

  \<^item> \<open>Pmm_Properties\<close> (C1 to C6): in every reachable state the bitmap, the counts and the free counter agree;
    initialisation frees exactly the usable pages; allocation returns a page that was free, by the word scan the same page as
    by a page search; contiguous allocation; sharing and freeing balance.

  \<^item> \<open>Vma_Properties\<close> (C7 to C12): the operations refine updates of the map from addresses to attributes and leak neither
    pages nor file references; merging, cloning, lookup and stack growth.

  \<^item> \<open>Policy_Properties\<close> (C13 to C18): the subset test admits nothing the parent denies, but for two cases that
    are shown; an applied policy confines; egress rules are CIDR blocks for whole octets and not otherwise; the parser.

  \<^item> \<open>Vmm_Properties\<close> (C19 to C24): mapping, copy on write, range loops, unmapping, and copies across pages; that
    changing protection bypasses copy on write.

  \<^item> \<open>Krandom_Properties\<close> (C25, C26): random bytes are ChaCha20 key stream.

  \<^item> \<open>Kproc_Properties\<close> (C27 to C30, C40): destroying a domain returns and leaves nothing of it; identity calls
    gain no credentials; futex wakes are exact; waiting for children.

  \<^item> \<open>Ksched_Properties\<close> (C31 to C33): fairness, exclusion and progress of the scheduler.

  \<^item> \<open>Kfd_Properties\<close> (C34 to C36): reference counts of open files are exact; event counters; an epoll file that watches itself.

  \<^item> \<open>Kpipe_Bounds\<close>, \<open>Kpipe_Apart\<close>, \<open>Kpipe_Ring\<close> (C37, C38): a pipe stays within its pages and is a queue of
    the bytes processes write and read. \<open>Ktable_Properties\<close> (C39): references between the tables are in range.

  \<open>Kdemo\<close> and \<open>Kdemo_Whole\<close> hold the concrete states at which the theorems are applied.

  \<^bold>\<open>Bounds.\<close> Three recursions of the code have no structural argument. Whether an epoll file is ready asks for the files it
  watches: \<open>fd_poll_events_for_domain\<close> descends the number of open files plus two times, so that only a
  cycle of epoll files exhausts it, and there the code itself does not return (C36). Destroying a domain may destroy further
  domains through a parent that waits: \<open>cell_destroy_domain\<close> descends the number of domains plus one times, and C27
  shows that this is enough. The scheduler's loop and the loops over ranges of addresses are partial functions; C33 and C21 say when
  they return.

  \<^bold>\<open>Not modelled.\<close> The boot loader, the start of the kernel, assembly, exception vectors, timer and device drivers
  are access to hardware or firmware. The file systems, sockets, the network stack and terminals enter as the environment
  only, so that opening a pseudo terminal and sockets in \<^verbatim>\<open>fd.c\<close> and \<^verbatim>\<open>poll.c\<close> are calls without an effect on the tables. The
  dispatch of system calls in \<^verbatim>\<open>arch/aarch64\<close>, \<^verbatim>\<open>proc/io.c\<close>, signal delivery, the ELF loader and the initial stack are
  clients of the modelled operations and are left out. Of \<^verbatim>\<open>smp.c\<close> the current thread and the waiting flag
  of each processor are modelled; the kernel lock makes every operation one step, and memory order is not modelled. Cache and TLB
  maintenance has no effect on the state, and log lines are left out. The process file system formats text. The
  userland and the host tools run on other interfaces.
\<close>

end
